(* ===== verification/Prelude.thy ===== *)
theory Prelude
  imports Main "HOL-Library.Multiset" "HOL-Library.Signed_Division" "HOL-Library.Word"
begin

text \<open>
  The facts every component of the development shares: queues that are kept in the order
  of a key by insertion (the jitter buffer's frame queue, the scheduler's event queue) and
  the bounded buffers that keep the \<open>n\<close> smallest values of a multiset. The collection
  \<open>state_simps\<close> holds the equations that unfold the small state transformers of
  a component.
\<close>

named_theorems state_simps

section \<open>Integers\<close>

lemma sdiv_nonneg: "0 \<le> a \<Longrightarrow> 0 < b \<Longrightarrow> a sdiv b = a div (b :: int)"
  by (cases "a = 0") (simp_all add: signed_divide_int_def)

section \<open>Lists\<close>

lemma butlast_take_Suc: "length xs = Suc n \<Longrightarrow> butlast xs = take n xs"
  by (simp add: butlast_conv_take)

lemma sorted_map_last_ge:
  "sorted (map k xs) \<Longrightarrow> y \<in> set xs \<Longrightarrow> k y \<le> k (last xs)"
  by (induction xs) (auto split: if_splits intro: order_trans)

lemma nth_take_last: "length xs = Suc n \<Longrightarrow> last xs = xs ! n"
  by (cases xs rule: rev_cases) auto

section \<open>Queues ordered by a key\<close>

text \<open>
  Insertion behind every entry whose key is at most the new one: the place both the jitter
  buffer and the scheduler put a new entry, so entries with equal keys leave in the order
  they came.
\<close>

definition place_after :: "('a \<Rightarrow> 'k::linorder) \<Rightarrow> 'a \<Rightarrow> 'a list \<Rightarrow> 'a list" where
  "place_after k x xs =
     takeWhile (\<lambda>y. k y \<le> k x) xs @ x # dropWhile (\<lambda>y. k y \<le> k x) xs"

lemma place_after_Nil [simp]: "place_after k x [] = [x]"
  by (simp add: place_after_def)

lemma place_after_Cons [simp]:
  "place_after k x (y # ys) = (if k y \<le> k x then y # place_after k x ys else x # y # ys)"
  by (simp add: place_after_def)

lemma mset_place_after [simp]: "mset (place_after k x xs) = add_mset x (mset xs)"
  by (induction xs) auto

lemma set_place_after [simp]: "set (place_after k x xs) = insert x (set xs)"
  by (induction xs) auto

lemma sorted_place_after:
  "sorted (map k xs) \<Longrightarrow> sorted (map k (place_after k x xs))"
  by (induction xs) auto

lemma place_after_last: "\<forall>y\<in>set xs. k y \<le> k x \<Longrightarrow> place_after k x xs = xs @ [x]"
  by (induction xs) auto

lemma place_after_append:
  "sorted (map k (xs @ [y])) \<Longrightarrow> k y \<le> k x \<Longrightarrow> place_after k x (xs @ y # zs) = xs @ y # place_after k x zs"
  by (induction xs) (auto simp: sorted_append)

text \<open>
  The contract of a queue whose \<open>put\<close> keeps the entries in the order of \<open>key\<close>. Its
  client lemma: putting the entries of a list one by one into an empty queue is the stable
  sort of the list, and the head of a queue is never later than any other entry.
\<close>

locale timed_queue =
  fixes key :: "'e \<Rightarrow> 'k::linorder"
    and put :: "'e \<Rightarrow> 'e list \<Rightarrow> 'e list"
  assumes put_content: "sorted (map key q) \<Longrightarrow> mset (put x q) = add_mset x (mset q)"
    and put_sorted: "sorted (map key q) \<Longrightarrow> sorted (map key (put x q))"
    and put_stable: "sorted (map key q) \<Longrightarrow>
      filter (\<lambda>y. key y = k) (put x q)
        = filter (\<lambda>y. key y = k) q @ (if key x = k then [x] else [])"
begin

lemma put_all_invariants:
  assumes "sorted (map key q)"
  shows "sorted (map key (foldl (\<lambda>q x. put x q) q xs))
    \<and> mset (foldl (\<lambda>q x. put x q) q xs) = mset q + mset xs
    \<and> (\<forall>k. filter (\<lambda>y. key y = k) (foldl (\<lambda>q x. put x q) q xs)
          = filter (\<lambda>y. key y = k) q @ filter (\<lambda>y. key y = k) xs)"
  using assms
proof (induction xs arbitrary: q)
  case Nil
  then show ?case by simp
next
  case (Cons x xs)
  have "sorted (map key (put x q))"
    using Cons.prems by (rule put_sorted)
  from Cons.IH [OF this] Cons.prems show ?case
    by (simp add: put_content put_stable)
qed

lemma put_all_is_stable_sort: "foldl (\<lambda>q x. put x q) [] xs = sort_key key xs"
proof (rule sym, rule properties_for_sort_key)
  have inv: "sorted (map key [])" by simp
  note all = put_all_invariants [OF inv, of xs]
  show "mset (foldl (\<lambda>q x. put x q) [] xs) = mset xs"
    using all by simp
  show "filter (\<lambda>y. key x = key y) (foldl (\<lambda>q x. put x q) [] xs)
      = filter (\<lambda>y. key x = key y) xs" for x
    using all by (simp add: eq_commute [of "key x"])
  show "sorted (map key (foldl (\<lambda>q x. put x q) [] xs))"
    using all by simp
qed

lemma put_head_least: "sorted (map key q) \<Longrightarrow> y \<in> set (put x q) \<Longrightarrow> key (hd (put x q)) \<le> key y"
  using put_sorted [of q x] by (cases "put x q") auto

lemma put_length: "sorted (map key q) \<Longrightarrow> length (put x q) = Suc (length q)"
  using put_content [of q x] by (metis size_mset size_add_mset)

end

lemma filter_place_after:
  "sorted (map k q) \<Longrightarrow>
   filter (\<lambda>y. k y = c) (place_after k x q) = filter (\<lambda>y. k y = c) q @ (if k x = c then [x] else [])"
proof (induction q)
  case Nil
  then show ?case by simp
next
  case (Cons y q)
  then show ?case
  proof (cases "k y \<le> k x")
    case False
    with Cons.prems have "filter (\<lambda>z. k z = k x) (y # q) = []"
      by (fastforce simp: filter_empty_conv)
    with False show ?thesis by auto
  qed auto
qed

interpretation place: timed_queue key "place_after key"
  for key :: "'e \<Rightarrow> 'k::linorder"
  by unfold_locales (simp_all add: sorted_place_after filter_place_after)

section \<open>Buffers of the \<open>n\<close> least values\<close>

text \<open>
  \<open>least n k M\<close> is the list of the \<open>n\<close> values of \<open>M\<close> with the least keys, in order.
\<close>

definition least :: "nat \<Rightarrow> ('a \<Rightarrow> 'k::linorder) \<Rightarrow> 'a list \<Rightarrow> 'a list" where
  "least n k xs = take n (sort_key k xs)"

lemma sorted_least [simp]: "sorted (map k (least n k xs))"
  by (simp add: least_def sorted_wrt_take flip: take_map)

lemma length_least [simp]: "length (least n k xs) = min n (length xs)"
  by (simp add: least_def)

lemma take_insort_take:
  "take n (insort_key k x xs) = take n (insort_key k x (take n xs))"
proof (induction xs arbitrary: n)
  case Nil
  then show ?case by simp
next
  case (Cons y ys)
  then show ?case by (cases n) (auto simp: take_Cons')
qed

lemma filter_key_replicate:
  "inj k \<Longrightarrow> filter (\<lambda>y. k x = k y) zs = replicate (count (mset zs) x) x"
  by (induction zs) (auto simp: inj_eq)

lemma sort_key_injI:
  assumes "inj k" and "mset ys = mset xs" and "sorted (map k ys)"
  shows "sort_key k xs = ys"
  by (rule properties_for_sort_key) (simp_all add: assms filter_key_replicate)

lemma sort_key_inj_mset:
  "inj k \<Longrightarrow> mset xs = mset ys \<Longrightarrow> sort_key k xs = sort_key k ys"
  by (rule sort_key_injI) simp_all

lemma least_mset: "inj k \<Longrightarrow> mset xs = mset ys \<Longrightarrow> least n k xs = least n k ys"
  unfolding least_def using sort_key_inj_mset by metis

lemma least_Cons: "least n k (x # xs) = take n (insort_key k x (least n k xs))"
  unfolding least_def by (simp add: take_insort_take [of n k x "sort_key k xs"])

lemma take_insort_high:
  assumes "inj k" and "sorted (map k xs)" and "n \<le> length xs" and "0 < n"
    and "k (xs ! (n - 1)) \<le> k x"
  shows "take n (insort_key k x xs) = take n xs"
  using assms(2-5)
proof (induction xs arbitrary: n)
  case Nil
  then show ?case by simp
next
  case (Cons y ys)
  show ?case
  proof (cases "k x \<le> k y")
    case True
    have "k y \<le> k ((y # ys) ! (n - 1))"
      using Cons.prems by (cases "n - 1") auto
    with True Cons.prems have eq: "k x = k y" "k ((y # ys) ! (n - 1)) = k y" by auto
    then have xy: "x = y" using assms(1) by (simp add: inj_eq)
    have "\<forall>i < n. (y # ys) ! i = y"
    proof (intro allI impI)
      fix i assume "i < n"
      have "k y \<le> k ((y # ys) ! i)"
        using Cons.prems \<open>i < n\<close> by (cases i) auto
      moreover have "k ((y # ys) ! i) \<le> k ((y # ys) ! (n - 1))"
        using sorted_nth_mono [OF Cons.prems(1), of i "n - 1"] \<open>i < n\<close> Cons.prems(2)
        by (auto simp del: list.map simp: nth_map)
      ultimately show "(y # ys) ! i = y"
        using eq(2) assms(1) by (metis antisym inj_eq)
    qed
    then have "take n (y # y # ys) = take n (y # ys)"
      using Cons.prems(2)
      by (intro nth_equalityI) (auto simp: nth_Cons split: nat.splits dest: Suc_lessD)
    with True xy show ?thesis by simp
  next
    case False
    show ?thesis
    proof (cases "n = 1")
      case True
      with False show ?thesis by simp
    next
      case n: False
      with Cons.prems have "k (ys ! (n - 1 - 1)) \<le> k x"
        by (cases n; cases "n - 1") auto
      with n Cons.prems have "take (n - 1) (insort_key k x ys) = take (n - 1) ys"
        by (intro Cons.IH) auto
      with False n Cons.prems(3) show ?thesis by (simp add: take_Cons')
    qed
  qed
qed

lemma take_insort_below:
  assumes "sorted (map k xs)" and "n \<le> length xs" and "k (insort_key k x xs ! n) < k x"
  shows "take (Suc n) (insort_key k x xs) = take (Suc n) xs"
  using assms
proof (induction xs arbitrary: n)
  case Nil
  then show ?case by simp
next
  case (Cons y ys)
  show ?case
  proof (cases "k x \<le> k y")
    case True
    then have "\<forall>z\<in>set (x # y # ys). k x \<le> k z"
      using Cons.prems(1) by auto
    moreover have "(x # y # ys) ! n \<in> set (x # y # ys)"
      using Cons.prems(2) by (intro nth_mem) simp
    ultimately have "k x \<le> k ((x # y # ys) ! n)" by blast
    with True Cons.prems(3) show ?thesis by simp
  next
    case False
    with Cons show ?thesis by (cases n) auto
  qed
qed

text \<open>
  The two facts a cached \<open>least\<close> buffer rests on: a value that is not below the last one
  kept does not change the buffer when it comes, and a value above the last one kept does not
  change it when it goes.
\<close>

lemma least_keeps_in:
  assumes "inj k" and "0 < n" and "n \<le> length xs" and "k (least n k xs ! (n - 1)) \<le> k x"
  shows "least n k (x # xs) = least n k xs"
proof -
  have "least n k (x # xs) = take n (insort_key k x (least n k xs))"
    by (rule least_Cons)
  also have "\<dots> = take n (least n k xs)"
    using assms by (intro take_insort_high) auto
  finally show ?thesis by (simp add: least_def)
qed

lemma least_keeps_out:
  assumes "inj k" and "0 < n" and "n \<le> length xs" and "k (least n k (x # xs) ! (n - 1)) < k x"
  shows "least n k xs = least n k (x # xs)"
proof -
  have "take (Suc (n - 1)) (insort_key k x (sort_key k xs)) = take (Suc (n - 1)) (sort_key k xs)"
    using assms by (intro take_insort_below) (auto simp: least_def)
  then show ?thesis using assms(2) by (simp add: least_def)
qed

section \<open>Shifting a value into a bounded buffer\<close>

text \<open>
  The insertion step of an insertion sort into an array of fixed size: the first place whose
  value the new one beats is found, the rest moves over by one, the last value falls off.
\<close>

fun shift_in :: "('a \<Rightarrow> 'a \<Rightarrow> bool) \<Rightarrow> 'a \<Rightarrow> 'a list \<Rightarrow> 'a list" where
  "shift_in beats x [] = []"
| "shift_in beats x (b # bs) = (if beats x b then x # butlast (b # bs) else b # shift_in beats x bs)"

lemma length_shift_in [simp]: "length (shift_in beats x bs) = length bs"
  by (induction bs) auto

lemma shift_in_insort:
  assumes "inj k" and "\<And>a b. beats a b = (k a < k b)" and "sorted (map k bs)"
  shows "shift_in beats x bs = take (length bs) (insort_key k x bs)"
  using assms(3)
proof (induction bs)
  case Nil
  then show ?case by simp
next
  case (Cons b bs)
  show ?case
  proof (cases "k x < k b")
    case True
    then show ?thesis using assms(2) by (simp add: butlast_conv_take less_imp_le del: butlast.simps)
  next
    case False
    show ?thesis
    proof (cases "k x = k b")
      case True
      then have xb: "x = b" using assms(1) by (simp add: inj_eq)
      have "take (length bs) (insort_key k x bs) = take (length bs) (x # bs)"
      proof (cases bs)
        case Nil
        then show ?thesis by simp
      next
        case (Cons c cs)
        with Cons.prems True have "k x \<le> k c" by simp
        with Cons show ?thesis by simp
      qed
      with False True Cons show ?thesis by (simp add: assms(2) xb)
    next
      case neq: False
      with False Cons show ?thesis by (simp add: assms(2))
    qed
  qed
qed

lemma shift_in_least:
  assumes "inj k" and "\<And>a b. beats a b = (k a < k b)" and "n \<le> length xs"
  shows "shift_in beats x (least n k xs) = least n k (x # xs)"
proof -
  have "shift_in beats x (least n k xs)
      = take (length (least n k xs)) (insort_key k x (least n k xs))"
    using assms(1,2) by (rule shift_in_insort) simp
  also have "length (least n k xs) = n"
    using assms(3) by simp
  finally show ?thesis by (simp add: least_Cons)
qed

end
