(* ===== verification/Jitterbuf.thy ===== *)
theory Jitterbuf
  imports Prelude
begin

text \<open>
  The jitter buffer of \<^verbatim>\<open>main/jitterbuf.c\<close> and \<^verbatim>\<open>include/jitterbuf.h\<close>: the delay history with its
  cached extremes, the queue of frames ordered by time stamp, and the operations
  \<^verbatim>\<open>jb_put\<close>, \<^verbatim>\<open>jb_get\<close>, \<^verbatim>\<open>jb_getall\<close>, \<^verbatim>\<open>jb_next\<close>, \<^verbatim>\<open>jb_getinfo\<close>, \<^verbatim>\<open>jb_setconf\<close>, \<^verbatim>\<open>jb_reset\<close>.
  The circular list of frames is the list from its lowest frame on; the free list is the
  number of its cells (theory \<^verbatim>\<open>JbQueue\<close> has the pointers). The C type \<^verbatim>\<open>long\<close> is \<open>int\<close>:
  all values are milliseconds, far from the limits of the type.
\<close>

section \<open>Constants and data\<close>

abbreviation JB_LONGMAX :: int where "JB_LONGMAX \<equiv> 2147483647"
abbreviation JB_LONGMIN :: int where "JB_LONGMIN \<equiv> - 2147483648"
abbreviation JB_HISTORY_SZ :: nat where "JB_HISTORY_SZ \<equiv> 500"
abbreviation JB_HISTORY_DROPPCT :: int where "JB_HISTORY_DROPPCT \<equiv> 3"
abbreviation JB_HISTORY_MAXBUF_SZ :: nat where "JB_HISTORY_MAXBUF_SZ \<equiv> 20"
abbreviation JB_TARGET_EXTRA :: int where "JB_TARGET_EXTRA \<equiv> 40"
abbreviation JB_ADJUST_DELAY :: int where "JB_ADJUST_DELAY \<equiv> 40"

datatype jb_return_code = JB_OK | JB_EMPTY | JB_NOFRAME | JB_INTERP | JB_DROP | JB_SCHED

datatype jb_frame_type = JB_TYPE_CONTROL | JB_TYPE_VOICE | JB_TYPE_VIDEO | JB_TYPE_SILENCE

record jb_conf =
  max_jitterbuf :: int
  resync_threshold :: int
  max_contig_interp :: int

record jb_info =
  conf :: jb_conf
  frames_in :: int
  frames_out :: int
  frames_late :: int
  frames_lost :: int
  frames_dropped :: int
  frames_ooo :: int
  frames_cur :: int
  jitter :: int
  jmin :: int
  current :: int
  target :: int
  losspct :: int
  next_voice_ts :: int
  last_voice_ms :: int
  silence_begin_ts :: int
  last_adjustment :: int
  last_delay :: int
  cnt_delay_discont :: int
  resync_offset :: int
  cnt_contig_interp :: int

record 'd jb_frame =
  f_data :: 'd
  f_ts :: int
  f_ms :: int
  f_type :: jb_frame_type

record 'd jitterbuf =
  info :: jb_info
  history :: "int list"
  hist_ptr :: nat
  hist_maxbuf :: "int list"
  hist_minbuf :: "int list"
  hist_maxbuf_valid :: bool
  dropem :: bool
  frames :: "'d jb_frame list"
  jb_free :: nat

section \<open>Reset and the loss percentage\<close>

definition increment_losspct :: "'d jitterbuf \<Rightarrow> 'd jitterbuf" where
  "increment_losspct = info_update (losspct_update (\<lambda>p. (100000 + 499 * p) sdiv 500))"

definition decrement_losspct :: "'d jitterbuf \<Rightarrow> 'd jitterbuf" where
  "decrement_losspct = info_update (losspct_update (\<lambda>p. (499 * p) sdiv 500))"

definition jb_reset_info :: "jb_conf \<Rightarrow> jb_info" where
  "jb_reset_info s =
     \<lparr>conf = s, frames_in = 0, frames_out = 0, frames_late = 0, frames_lost = 0,
      frames_dropped = 0, frames_ooo = 0, frames_cur = 0, jitter = 0, jmin = 0,
      current = JB_TARGET_EXTRA, target = JB_TARGET_EXTRA, losspct = 0, next_voice_ts = 0,
      last_voice_ms = 0, silence_begin_ts = - 1, last_adjustment = 0, last_delay = 0,
      cnt_delay_discont = 0, resync_offset = 0, cnt_contig_interp = 0\<rparr>"

definition jb_reset :: "'d jitterbuf \<Rightarrow> 'd jitterbuf" where
  "jb_reset jb =
     \<lparr>info = jb_reset_info (conf (info jb)),
      history = replicate JB_HISTORY_SZ 0, hist_ptr = 0,
      hist_maxbuf = replicate JB_HISTORY_MAXBUF_SZ 0,
      hist_minbuf = replicate JB_HISTORY_MAXBUF_SZ 0,
      hist_maxbuf_valid = False, dropem = False, frames = [], jb_free = 0\<rparr>"

text \<open>\<open>jb_new\<close> resets freshly allocated memory, whose configuration is unspecified; \<open>None\<close> is a failed allocation.\<close>

definition jb_new :: "'d jitterbuf option \<Rightarrow> 'd jitterbuf option" where
  "jb_new mem = map_option jb_reset mem"

section \<open>The delay history\<close>

definition hist_invalidate :: "'d jitterbuf \<Rightarrow> 'd jitterbuf" where
  "hist_invalidate jb = jb\<lparr>hist_maxbuf_valid := False\<rparr>"

text \<open>The second half of \<open>history_put\<close>: store the delay, and keep the cached extremes if it cannot matter to them.\<close>

definition history_store :: "int \<Rightarrow> 'd jitterbuf \<Rightarrow> 'd jitterbuf" where
  "history_store delay jb =
    (let kicked = history jb ! (hist_ptr jb mod JB_HISTORY_SZ);
         jb' = jb\<lparr>history := (history jb)[hist_ptr jb mod JB_HISTORY_SZ := delay],
                  hist_ptr := hist_ptr jb + 1\<rparr>
     in if \<not> hist_maxbuf_valid jb' then jb'
        else if hist_ptr jb' < JB_HISTORY_SZ then hist_invalidate jb'
        else if delay < hist_minbuf jb' ! (JB_HISTORY_MAXBUF_SZ - 1) then hist_invalidate jb'
        else if delay > hist_maxbuf jb' ! (JB_HISTORY_MAXBUF_SZ - 1) then hist_invalidate jb'
        else if kicked \<le> hist_minbuf jb' ! (JB_HISTORY_MAXBUF_SZ - 1) then hist_invalidate jb'
        else if kicked \<ge> hist_maxbuf jb' ! (JB_HISTORY_MAXBUF_SZ - 1) then hist_invalidate jb'
        else jb')"

definition history_put :: "int \<Rightarrow> int \<Rightarrow> 'd jitterbuf \<Rightarrow> int \<times> 'd jitterbuf" where
  "history_put ts now jb =
    (let i = info jb;
         delay = now - (ts - resync_offset i);
         threshold = 2 * jitter i + resync_threshold (conf i)
     in if ts \<le> 0 then (0, jb)
        else if resync_threshold (conf i) \<noteq> - 1 then
          if \<bar>delay - last_delay i\<bar> > threshold then
            (let jb1 = info_update (cnt_delay_discont_update (\<lambda>n. n + 1)) jb
             in if cnt_delay_discont (info jb1) > 3 then
                  (let jb2 = (info_update (cnt_delay_discont_update (\<lambda>_. 0)) jb1)
                         \<lparr>hist_ptr := 0, hist_maxbuf_valid := False\<rparr>;
                       jb3 = info_update (\<lambda>i. i\<lparr>resync_offset := ts - now, last_delay := 0\<rparr>) jb2
                   in (0, history_store 0 jb3))
                else (- 1, jb1))
          else (0, history_store delay
                     (info_update (\<lambda>i. i\<lparr>last_delay := delay, cnt_delay_discont := 0\<rparr>) jb))
        else (0, history_store delay jb))"

text \<open>The window of the last \<open>JB_HISTORY_SZ\<close> delays, oldest first, as the loop of \<open>history_calc_maxbuf\<close> visits it.\<close>

definition history_window :: "'d jitterbuf \<Rightarrow> int list" where
  "history_window jb =
    map (\<lambda>i. history jb ! (i mod JB_HISTORY_SZ))
        [(if hist_ptr jb > JB_HISTORY_SZ then hist_ptr jb - JB_HISTORY_SZ else 0) ..< hist_ptr jb]"

definition calc_maxbuf_step :: "int list \<times> int list \<Rightarrow> int \<Rightarrow> int list \<times> int list" where
  "calc_maxbuf_step b toins =
    (let (maxb, minb) = b in
      (if toins > maxb ! (JB_HISTORY_MAXBUF_SZ - 1) then shift_in (>) toins maxb else maxb,
       if toins < minb ! (JB_HISTORY_MAXBUF_SZ - 1) then shift_in (<) toins minb else minb))"

definition history_calc_maxbuf :: "'d jitterbuf \<Rightarrow> 'd jitterbuf" where
  "history_calc_maxbuf jb =
    (if hist_ptr jb = 0 then jb
     else let (maxb, minb) =
                foldl calc_maxbuf_step
                  (replicate JB_HISTORY_MAXBUF_SZ JB_LONGMIN, replicate JB_HISTORY_MAXBUF_SZ JB_LONGMAX)
                  (history_window jb)
          in jb\<lparr>hist_maxbuf := maxb, hist_minbuf := minb, hist_maxbuf_valid := True\<rparr>)"

definition history_index :: "nat \<Rightarrow> int" where
  "history_index ptr =
    (let count = int (if ptr < JB_HISTORY_SZ then ptr else JB_HISTORY_SZ);
         index = (count * JB_HISTORY_DROPPCT) sdiv 100
     in if index > int (JB_HISTORY_MAXBUF_SZ - 1) then int (JB_HISTORY_MAXBUF_SZ - 1) else index)"

definition history_get :: "'d jitterbuf \<Rightarrow> 'd jitterbuf" where
  "history_get jb0 =
    (let jb = (if hist_maxbuf_valid jb0 then jb0 else history_calc_maxbuf jb0);
         index = history_index (hist_ptr jb)
     in if index < 0 then info_update (\<lambda>i. i\<lparr>jmin := 0, jitter := 0\<rparr>) jb
        else let mx = hist_maxbuf jb ! nat index; mn = hist_minbuf jb ! nat index
             in info_update (\<lambda>i. i\<lparr>jmin := mn, jitter := mx - mn\<rparr>) jb)"

section \<open>The frame queue\<close>

text \<open>
  The walk of \<open>queue_put\<close> back from the highest frame, on the queue in reverse: it stops
  in front of the first frame that is not later, and never passes the lowest one.
\<close>

fun walk_back :: "'d jb_frame \<Rightarrow> 'd jb_frame list \<Rightarrow> 'd jb_frame list" where
  "walk_back frame [] = [frame]"
| "walk_back frame [p] = [frame, p]"
| "walk_back frame (p # q # ps) =
    (if f_ts frame < f_ts p then p # walk_back frame (q # ps) else frame # p # q # ps)"

text \<open>
  \<open>queue_put\<close> returns whether the frame became the head. \<open>mem\<close> says whether an
  allocation succeeds when the free list is empty.
\<close>

definition queue_put :: "bool \<Rightarrow> 'd \<Rightarrow> jb_frame_type \<Rightarrow> int \<Rightarrow> int \<Rightarrow> 'd jitterbuf \<Rightarrow> bool \<times> 'd jitterbuf" where
  "queue_put mem data type ms ts jb =
    (if jb_free jb = 0 \<and> \<not> mem then (False, jb)
     else
       let resync_ts = ts - resync_offset (info jb);
           jb1 = info_update (frames_cur_update (\<lambda>n. n + 1)) (jb\<lparr>jb_free := jb_free jb - 1\<rparr>);
           frame = \<lparr>f_data = data, f_ts = resync_ts, f_ms = ms, f_type = type\<rparr>
       in case frames jb1 of
            [] \<Rightarrow> (True, jb1\<lparr>frames := [frame]\<rparr>)
          | p # ps \<Rightarrow>
             if resync_ts < f_ts p then
               (True, (info_update (frames_ooo_update (\<lambda>n. n + 1)) jb1)\<lparr>frames := frame # p # ps\<rparr>)
             else
               (let jb2 = (if resync_ts < f_ts (last (p # ps))
                           then info_update (frames_ooo_update (\<lambda>n. n + 1)) jb1 else jb1)
                in (False, jb2\<lparr>frames := rev (walk_back frame (rev (p # ps)))\<rparr>)))"

definition queue_next :: "'d jitterbuf \<Rightarrow> int" where
  "queue_next jb = (case frames jb of [] \<Rightarrow> - 1 | p # _ \<Rightarrow> f_ts p)"

definition queue_last :: "'d jitterbuf \<Rightarrow> int" where
  "queue_last jb = (case frames jb of [] \<Rightarrow> - 1 | p # ps \<Rightarrow> f_ts (last (p # ps)))"

definition queue_get0 :: "int \<Rightarrow> bool \<Rightarrow> 'd jitterbuf \<Rightarrow> 'd jb_frame option \<times> 'd jitterbuf" where
  "queue_get0 ts all jb =
    (case frames jb of
       [] \<Rightarrow> (None, jb)
     | frame # rest \<Rightarrow>
        if all \<or> ts \<ge> f_ts frame then
          (Some frame,
           info_update (frames_cur_update (\<lambda>n. n - 1)) (jb\<lparr>frames := rest, jb_free := jb_free jb + 1\<rparr>))
        else (None, jb))"

definition queue_get :: "int \<Rightarrow> 'd jitterbuf \<Rightarrow> 'd jb_frame option \<times> 'd jitterbuf" where
  "queue_get ts jb = queue_get0 ts False jb"

definition queue_getall :: "'d jitterbuf \<Rightarrow> 'd jb_frame option \<times> 'd jitterbuf" where
  "queue_getall jb = queue_get0 0 True jb"

section \<open>Putting and getting\<close>

definition jb_put ::
  "bool \<Rightarrow> 'd \<Rightarrow> jb_frame_type \<Rightarrow> int \<Rightarrow> int \<Rightarrow> int \<Rightarrow> 'd jitterbuf \<Rightarrow> jb_return_code \<times> 'd jitterbuf" where
  "jb_put mem data type ms ts now jb =
    (let numts = (if frames jb = [] then 0 else queue_last jb - queue_next jb)
     in if numts \<ge> max_jitterbuf (conf (info jb)) then
          (JB_DROP, info_update (frames_dropped_update (\<lambda>n. n + 1)) (jb\<lparr>dropem := True\<rparr>))
        else
          let jb1 = jb\<lparr>dropem := False\<rparr>;
              (bad, jb2) = (if type = JB_TYPE_VOICE then history_put ts now jb1 else (0, jb1))
          in if bad \<noteq> 0 then
               (JB_DROP, info_update (frames_dropped_update (\<lambda>n. n + 1)) jb2)
             else
               let (head, jb3) = queue_put mem data type ms ts
                                   (info_update (frames_in_update (\<lambda>n. n + 1)) jb2)
               in (if head then JB_SCHED else JB_OK, jb3))"

text \<open>The target delay, computed first by \<open>_jb_get\<close>.\<close>

definition jb_set_target :: "'d jitterbuf \<Rightarrow> 'd jitterbuf" where
  "jb_set_target jb0 =
    (let jb = info_update (\<lambda>i. i\<lparr>target := jitter i + jmin i + JB_TARGET_EXTRA\<rparr>) (history_get jb0);
         i = info jb; mx = max_jitterbuf (conf i)
     in if mx \<noteq> 0 \<and> target i - jmin i > mx
        then info_update (target_update (\<lambda>_. jmin i + mx)) jb else jb)"

text \<open>An interpolated frame: the counters, and the switch to silence after \<open>max_contig_interp\<close> in a row.\<close>

definition interp_count :: "'d jitterbuf \<Rightarrow> 'd jitterbuf" where
  "interp_count jb =
    (let jb1 = info_update (cnt_contig_interp_update (\<lambda>n. n + 1)) jb; i = info jb1
     in if max_contig_interp (conf i) \<noteq> 0 \<and> cnt_contig_interp i \<ge> max_contig_interp (conf i)
        then info_update (silence_begin_ts_update (\<lambda>_. next_voice_ts i - current i)) jb1 else jb1)"

definition frame_out :: "'d jitterbuf \<Rightarrow> 'd jitterbuf" where
  "frame_out = info_update (frames_out_update (\<lambda>n. n + 1))"

text \<open>\<open>_jb_get\<close> outside silence, after the target is set and the buffer did not grow.\<close>

definition jb_get_voice ::
  "int \<Rightarrow> int \<Rightarrow> int \<Rightarrow> 'd jb_frame \<Rightarrow> 'd jitterbuf \<Rightarrow> jb_return_code \<times> 'd jb_frame \<times> 'd jitterbuf" where
  "jb_get_voice diff now interpl frameout jb0 =
    (let (frame, jb1) = queue_get (next_voice_ts (info jb0) - current (info jb0)) jb0;
         i = info jb1
     in case frame of
          Some f \<Rightarrow>
            if f_type f \<noteq> JB_TYPE_VOICE then
              (let jb2 = (if f_type f = JB_TYPE_SILENCE
                     then info_update (\<lambda>i. i\<lparr>silence_begin_ts := f_ts f, cnt_contig_interp := 0\<rparr>) jb1
                     else jb1)
               in (JB_OK, f, frame_out jb2))
            else if f_ts f + current i < next_voice_ts i then
              if f_ts f + current i > next_voice_ts i - last_voice_ms i then
                (JB_OK, f,
                 info_update (cnt_contig_interp_update (\<lambda>_. 0)) (decrement_losspct (frame_out
                   (info_update (next_voice_ts_update (\<lambda>_. f_ts f + current i + f_ms f)) jb1))))
              else
                (JB_DROP, f,
                 info_update (\<lambda>i. i\<lparr>frames_late := frames_late i + 1, frames_lost := frames_lost i - 1\<rparr>)
                   (decrement_losspct (frame_out jb1)))
            else
              let jb2 = (if f_ms f > 0 then info_update (last_voice_ms_update (\<lambda>_. f_ms f)) jb1 else jb1)
              in if diff < - JB_TARGET_EXTRA \<and> last_adjustment (info jb2) + 500 < now then
                   (JB_DROP, f,
                    info_update (frames_dropped_update (\<lambda>n. n + 1)) (decrement_losspct (frame_out
                      (info_update (\<lambda>i. i\<lparr>last_adjustment := now, cnt_contig_interp := 0,
                                         current := current i - f_ms f\<rparr>) jb2))))
                 else
                   (JB_OK, f,
                    decrement_losspct (info_update (cnt_contig_interp_update (\<lambda>_. 0)) (frame_out
                      (info_update (next_voice_ts_update (\<lambda>t. t + f_ms f)) jb2))))
        | None \<Rightarrow>
            if diff < - JB_TARGET_EXTRA
               \<and> (last_adjustment i + 80 < now \<or> last_adjustment i + 500 < now) then
              (JB_NOFRAME, frameout,
               increment_losspct (info_update (\<lambda>i. i\<lparr>last_adjustment := now, cnt_contig_interp := 0,
                 current := current i - last_voice_ms i, frames_lost := frames_lost i + 1\<rparr>) jb1))
            else
              (JB_INTERP, frameout,
               interp_count (info_update (\<lambda>i. i\<lparr>next_voice_ts := next_voice_ts i + interpl,
                 last_voice_ms := interpl\<rparr>)
                 (increment_losspct (info_update (frames_lost_update (\<lambda>n. n + 1)) jb1)))))"

text \<open>\<open>_jb_get\<close> in silence: the delay shrinks by \<open>interpl\<close> every 10 ms, then a due frame is taken.\<close>

definition silence_shrink :: "int \<Rightarrow> int \<Rightarrow> int \<Rightarrow> 'd jitterbuf \<Rightarrow> 'd jitterbuf" where
  "silence_shrink diff now interpl jb =
    (if diff < - JB_TARGET_EXTRA \<and> last_adjustment (info jb) + 10 \<le> now
     then info_update (\<lambda>i. i\<lparr>current := current i - interpl, last_adjustment := now\<rparr>) jb
     else jb)"

definition jb_get_silence ::
  "int \<Rightarrow> int \<Rightarrow> int \<Rightarrow> 'd jb_frame \<Rightarrow> 'd jitterbuf \<Rightarrow> jb_return_code \<times> 'd jb_frame \<times> 'd jitterbuf" where
  "jb_get_silence diff now interpl frameout jb00 =
    (let jb0 = silence_shrink diff now interpl jb00;
         (frame, jb1) = queue_get (now - current (info jb0)) jb0
     in case frame of
          None \<Rightarrow> (JB_NOFRAME, frameout, jb1)
        | Some f \<Rightarrow>
            if f_type f \<noteq> JB_TYPE_VOICE then (JB_OK, f, frame_out jb1)
            else if f_ts f < silence_begin_ts (info jb1) then
              (JB_DROP, f,
               info_update (\<lambda>i. i\<lparr>frames_late := frames_late i + 1, frames_lost := frames_lost i - 1\<rparr>)
                 (decrement_losspct (frame_out jb1)))
            else
              (JB_OK, f,
               decrement_losspct (frame_out
                 (info_update (\<lambda>i. i\<lparr>current := target i, silence_begin_ts := 0,
                    next_voice_ts := f_ts f + target i + f_ms f, last_voice_ms := f_ms f\<rparr>) jb1))))"

definition jb_get0 ::
  "'d jb_frame \<Rightarrow> int \<Rightarrow> int \<Rightarrow> 'd jitterbuf \<Rightarrow> jb_return_code \<times> 'd jb_frame \<times> 'd jitterbuf" where
  "jb_get0 frameout now interpl jb0 =
    (let jb = jb_set_target jb0; i = info jb; diff = target i - current i
     in if silence_begin_ts i = 0 then
          if diff > 0 \<and> (last_adjustment i + JB_ADJUST_DELAY < now
                         \<or> diff > queue_last jb - queue_next jb) then
            (JB_INTERP, frameout,
             interp_count (info_update (\<lambda>i. i\<lparr>current := current i + interpl,
               next_voice_ts := next_voice_ts i + interpl, last_voice_ms := interpl,
               last_adjustment := now\<rparr>) jb))
          else jb_get_voice diff now interpl frameout jb
        else jb_get_silence diff now interpl frameout jb)"

definition jb_get ::
  "'d jb_frame \<Rightarrow> int \<Rightarrow> int \<Rightarrow> 'd jitterbuf \<Rightarrow> jb_return_code \<times> 'd jb_frame \<times> 'd jitterbuf" where
  "jb_get frameout now interpl jb =
    (let (ret, out, jb') = jb_get0 frameout now interpl jb
     in (ret, if ret = JB_INTERP then out\<lparr>f_ms := last_voice_ms (info jb')\<rparr> else out, jb'))"

definition jb_next :: "'d jitterbuf \<Rightarrow> int \<times> 'd jitterbuf" where
  "jb_next jb =
    (if silence_begin_ts (info jb) \<noteq> 0 then
       if frames jb \<noteq> [] then
         (let nxt = queue_next jb; jb' = history_get jb; i = info jb'
          in if target i - current i < - JB_TARGET_EXTRA then (last_adjustment i + 10, jb')
             else (nxt + target i, jb'))
       else (JB_LONGMAX, jb)
     else (next_voice_ts (info jb), jb))"

definition jb_getall :: "'d jb_frame \<Rightarrow> 'd jitterbuf \<Rightarrow> jb_return_code \<times> 'd jb_frame \<times> 'd jitterbuf" where
  "jb_getall frameout jb =
    (case queue_getall jb of
       (None, jb') \<Rightarrow> (JB_NOFRAME, frameout, jb')
     | (Some f, jb') \<Rightarrow> (JB_OK, f, jb'))"

definition jb_getinfo :: "'d jitterbuf \<Rightarrow> jb_return_code \<times> jb_info \<times> 'd jitterbuf" where
  "jb_getinfo jb = (let jb' = history_get jb in (JB_OK, info jb', jb'))"

definition jb_setconf :: "jb_conf \<Rightarrow> 'd jitterbuf \<Rightarrow> jb_return_code \<times> 'd jitterbuf" where
  "jb_setconf c jb =
    (JB_OK, info_update (conf_update (\<lambda>s. s\<lparr>max_jitterbuf := max_jitterbuf c,
       resync_threshold := resync_threshold c, max_contig_interp := max_contig_interp c\<rparr>)) jb)"

end
