(* ===== verification/JitterbufHistory.thy ===== *)
theory JitterbufHistory
  imports Jitterbuf
begin

text \<open>
  The delay history of the jitter buffer: what the cached extremes \<^verbatim>\<open>hist_maxbuf\<close> and
  \<^verbatim>\<open>hist_minbuf\<close> hold, that \<^verbatim>\<open>history_calc_maxbuf\<close> computes them, and that the short cut
  of \<^verbatim>\<open>history_put\<close>, which keeps them for most packets, never leaves them stale.
\<close>

section \<open>The abstract extremes of a window\<close>

definition window_max :: "int list \<Rightarrow> int list" where
  "window_max w = least JB_HISTORY_MAXBUF_SZ uminus (w @ replicate JB_HISTORY_MAXBUF_SZ JB_LONGMIN)"

definition window_min :: "int list \<Rightarrow> int list" where
  "window_min w = least JB_HISTORY_MAXBUF_SZ id (w @ replicate JB_HISTORY_MAXBUF_SZ JB_LONGMAX)"

text \<open>The buffers are right: they have their size, and where they are marked valid they hold the extremes of the window.\<close>

definition history_ok :: "'d jitterbuf \<Rightarrow> bool" where
  "history_ok jb \<longleftrightarrow>
     length (history jb) = JB_HISTORY_SZ
     \<and> length (hist_maxbuf jb) = JB_HISTORY_MAXBUF_SZ
     \<and> length (hist_minbuf jb) = JB_HISTORY_MAXBUF_SZ
     \<and> (hist_maxbuf_valid jb \<longrightarrow>
          hist_ptr jb \<noteq> 0
          \<and> hist_maxbuf jb = window_max (history_window jb)
          \<and> hist_minbuf jb = window_min (history_window jb))"

lemma inj_uminus_int: "inj (uminus :: int \<Rightarrow> int)"
  by simp

section \<open>Recomputing the extremes\<close>

lemma sort_key_replicate: "sort_key k (replicate n c) = replicate n c"
  by (induction n) (simp_all add: insort_is_Cons)

lemma window_max_Nil: "window_max [] = replicate 20 JB_LONGMIN"
  by (simp add: window_max_def least_def sort_key_replicate)

lemma window_min_Nil: "window_min [] = replicate 20 JB_LONGMAX"
  by (simp add: window_min_def least_def sort_key_replicate)

lemma length_window_max [simp]: "length (window_max w) = 20"
  by (simp add: window_max_def)

lemma length_window_min [simp]: "length (window_min w) = 20"
  by (simp add: window_min_def)

lemma window_max_mset: "mset v = mset w \<Longrightarrow> window_max v = window_max w"
  unfolding window_max_def by (rule least_mset) simp_all

lemma window_min_mset: "mset v = mset w \<Longrightarrow> window_min v = window_min w"
  unfolding window_min_def by (rule least_mset) simp_all

lemma window_max_shift: "shift_in (>) x (window_max w) = window_max (x # w)"
  unfolding window_max_def by (subst shift_in_least) simp_all

lemma window_min_shift: "shift_in (<) x (window_min w) = window_min (x # w)"
  unfolding window_min_def by (subst shift_in_least) simp_all

lemma window_max_low: "x \<le> window_max w ! 19 \<Longrightarrow> window_max (x # w) = window_max w"
  unfolding window_max_def append_Cons by (rule least_keeps_in) simp_all

lemma window_min_high: "window_min w ! 19 \<le> x \<Longrightarrow> window_min (x # w) = window_min w"
  unfolding window_min_def append_Cons by (rule least_keeps_in) simp_all

lemma window_max_drop: "x < window_max (x # w) ! 19 \<Longrightarrow> window_max w = window_max (x # w)"
  unfolding window_max_def append_Cons by (rule least_keeps_out) simp_all

lemma window_min_drop: "window_min (x # w) ! 19 < x \<Longrightarrow> window_min w = window_min (x # w)"
  unfolding window_min_def append_Cons by (rule least_keeps_out) simp_all

lemma calc_maxbuf_step_window:
  "calc_maxbuf_step (window_max w, window_min w) x = (window_max (x # w), window_min (x # w))"
  by (simp add: calc_maxbuf_step_def window_max_shift window_min_shift
      window_max_low window_min_high not_less)

lemma foldl_calc_maxbuf:
  "foldl calc_maxbuf_step (window_max v, window_min v) w
     = (window_max (rev w @ v), window_min (rev w @ v))"
  by (induction w arbitrary: v) (simp_all add: calc_maxbuf_step_window)

lemma history_calc_maxbuf_window:
  "hist_ptr jb \<noteq> 0 \<Longrightarrow>
   history_calc_maxbuf jb = jb\<lparr>hist_maxbuf := window_max (history_window jb),
     hist_minbuf := window_min (history_window jb), hist_maxbuf_valid := True\<rparr>"
  using foldl_calc_maxbuf [of "[]" "history_window jb"]
    window_max_mset [of "rev (history_window jb)" "history_window jb"]
    window_min_mset [of "rev (history_window jb)" "history_window jb"]
  by (simp add: history_calc_maxbuf_def window_max_Nil window_min_Nil)

section \<open>Storing a delay\<close>

lemma history_window_alt:
  "history_window jb = map (\<lambda>i. history jb ! (i mod 500)) [hist_ptr jb - 500 ..< hist_ptr jb]"
  by (auto simp: history_window_def)

lemma history_window_cong:
  "history jb' = history jb \<Longrightarrow> hist_ptr jb' = hist_ptr jb \<Longrightarrow> history_window jb' = history_window jb"
  by (simp add: history_window_alt)

lemma mod_neq_near:
  fixes i p :: nat assumes "i < p" and "p - i < 500" shows "i mod 500 \<noteq> p mod 500"
proof
  assume "i mod 500 = p mod 500"
  then have "500 dvd p - i" using assms(1) by (metis less_imp_le mod_eq_dvd_iff_nat)
  with assms show False by (auto dest: dvd_imp_le)
qed

lemma window_upd:
  assumes "length h = 500" and "p - a < 500"
  shows "map (\<lambda>i. (h[p mod 500 := d]) ! (i mod 500)) [a ..< p] = map (\<lambda>i. h ! (i mod 500)) [a ..< p]"
proof (intro map_cong refl)
  fix i assume "i \<in> set [a ..< p]"
  then have "i mod 500 \<noteq> p mod 500"
    using assms(2) by (intro mod_neq_near) auto
  then show "h[p mod 500 := d] ! (i mod 500) = h ! (i mod 500)" by simp
qed

lemma history_window_store_short:
  assumes "length (history jb) = 500" and "hist_ptr jb < 500"
  shows "history_window (jb\<lparr>history := (history jb)[hist_ptr jb mod 500 := d],
           hist_ptr := hist_ptr jb + 1\<rparr>) = history_window jb @ [d]"
  using assms window_upd [of "history jb" "hist_ptr jb" 0 d]
  by (simp add: history_window_alt upt_Suc_append)

lemma history_window_store_full:
  assumes "length (history jb) = 500" and "500 \<le> hist_ptr jb"
  shows "history_window (jb\<lparr>history := (history jb)[hist_ptr jb mod 500 := d],
           hist_ptr := hist_ptr jb + 1\<rparr>) = tl (history_window jb) @ [d]"
    and "history_window jb
           = history jb ! (hist_ptr jb mod 500) # tl (history_window jb)"
proof -
  let ?p = "hist_ptr jb"
  have upt: "[?p - 500 ..< ?p] = (?p - 500) # [?p - 499 ..< ?p]"
    using assms(2) upt_conv_Cons [of "?p - 500" ?p] Suc_diff_le [of 500 ?p]
    by (simp add: Suc_diff_Suc)
  have "?p mod 500 = (?p - 500) mod 500"
    using assms(2) by (simp add: le_mod_geq)
  then show win: "history_window jb = history jb ! (?p mod 500) # tl (history_window jb)"
    by (simp add: history_window_alt upt)
  have suc: "Suc ?p - 500 = ?p - 499" using assms(2) by simp
  show "history_window (jb\<lparr>history := (history jb)[?p mod 500 := d], hist_ptr := ?p + 1\<rparr>)
      = tl (history_window jb) @ [d]"
    using assms window_upd [of "history jb" ?p "?p - 499" d]
    by (simp add: history_window_alt upt suc upt_Suc_append)
qed

lemma history_store_ok:
  assumes "history_ok jb"
  shows "history_ok (history_store d jb)"
proof -
  let ?jb = "jb\<lparr>history := (history jb)[hist_ptr jb mod 500 := d], hist_ptr := hist_ptr jb + 1\<rparr>"
  let ?k = "history jb ! (hist_ptr jb mod 500)"
  have len: "length (history jb) = 500" using assms by (simp add: history_ok_def)
  have inval: "history_ok (hist_invalidate ?jb)"
    using assms by (simp add: history_ok_def hist_invalidate_def)
  have keep: "history_ok ?jb" if v: "hist_maxbuf_valid jb" and p: "\<not> hist_ptr jb + 1 < 500"
    and d1: "\<not> d < hist_minbuf jb ! 19" and d2: "\<not> d > hist_maxbuf jb ! 19"
    and k1: "\<not> ?k \<le> hist_minbuf jb ! 19" and k2: "\<not> ?k \<ge> hist_maxbuf jb ! 19"
  proof -
    let ?w = "history_window jb"
    have mx: "hist_maxbuf jb = window_max ?w" and mn: "hist_minbuf jb = window_min ?w"
      using assms v by (simp_all add: history_ok_def)
    have "window_max (history_window ?jb) = window_max ?w
        \<and> window_min (history_window ?jb) = window_min ?w"
    proof (cases "hist_ptr jb < 500")
      case True
      have "mset (history_window ?jb) = mset (d # ?w)"
        using history_window_store_short [OF len True] by simp
      then have "window_max (history_window ?jb) = window_max (d # ?w)"
        "window_min (history_window ?jb) = window_min (d # ?w)"
        by (blast intro: window_max_mset window_min_mset)+
      with d1 d2 mx mn show ?thesis by (simp add: window_max_low window_min_high)
    next
      case False
      then have f: "500 \<le> hist_ptr jb" by simp
      note win = history_window_store_full [OF len f]
      let ?r = "tl ?w"
      have w: "?w = ?k # ?r" by (rule win(2))
      have "window_max ?r = window_max ?w" "window_min ?r = window_min ?w"
        using k1 k2 mx mn window_max_drop [of ?k ?r] window_min_drop [of ?k ?r]
        unfolding w [symmetric] by simp_all
      moreover have "mset (history_window ?jb) = mset (d # ?r)"
        using win(1) [of d] by simp
      then have "window_max (history_window ?jb) = window_max (d # ?r)"
        "window_min (history_window ?jb) = window_min (d # ?r)"
        by (blast intro: window_max_mset window_min_mset)+
      ultimately show ?thesis
        using d1 d2 mx mn by (simp add: window_max_low window_min_high)
    qed
    with mx mn len assms show ?thesis by (simp add: history_ok_def)
  qed
  show ?thesis
  proof (cases "hist_maxbuf_valid jb")
    case False
    then show ?thesis using assms by (simp add: history_store_def history_ok_def)
  next
    case True
    then show ?thesis using keep inval
      by (simp add: history_store_def Let_def del: mod_less)
  qed
qed

section \<open>The operations on the history\<close>

lemma history_ok_info [simp]: "history_ok (info_update f jb) = history_ok jb"
  by (simp add: history_ok_def history_window_alt)

lemma history_ok_frames [simp]: "history_ok (jb\<lparr>frames := q, jb_free := n\<rparr>) = history_ok jb"
  "history_ok (jb\<lparr>frames := q\<rparr>) = history_ok jb"
  "history_ok (jb\<lparr>jb_free := n\<rparr>) = history_ok jb"
  "history_ok (jb\<lparr>dropem := b\<rparr>) = history_ok jb"
  by (simp_all add: history_ok_def history_window_alt)

lemma history_ok_restart:
  "history_ok jb \<Longrightarrow> history_ok (jb\<lparr>hist_ptr := 0, hist_maxbuf_valid := False\<rparr>)"
  by (simp add: history_ok_def)

lemma history_ok_reset: "history_ok (jb_reset jb)"
  by (simp add: history_ok_def jb_reset_def)

lemma history_ok_put: "history_ok jb \<Longrightarrow> history_ok (snd (history_put ts now jb))"
  by (auto simp: history_put_def Let_def intro!: history_store_ok history_ok_restart)

lemma history_store_frame [simp]:
  "info (history_store d jb) = info jb" "frames (history_store d jb) = frames jb"
  "jb_free (history_store d jb) = jb_free jb" "dropem (history_store d jb) = dropem jb"
  by (simp_all add: history_store_def Let_def hist_invalidate_def)

lemma history_put_frame [simp]:
  "frames (snd (history_put ts now jb)) = frames jb"
  "jb_free (snd (history_put ts now jb)) = jb_free jb"
  "conf (info (snd (history_put ts now jb))) = conf (info jb)"
  "frames_in (info (snd (history_put ts now jb))) = frames_in (info jb)"
  "frames_out (info (snd (history_put ts now jb))) = frames_out (info jb)"
  "frames_cur (info (snd (history_put ts now jb))) = frames_cur (info jb)"
  "losspct (info (snd (history_put ts now jb))) = losspct (info jb)"
  by (auto simp: history_put_def Let_def)

lemma history_index_nat: "history_index p = int (min 500 p * 3 div 100)" "min 500 p * 3 div 100 < 20"
  by (auto simp: history_index_def Let_def sdiv_nonneg min_def zdiv_int)

lemma history_calc_maxbuf_frame [simp]:
  "info (history_calc_maxbuf jb) = info jb" "frames (history_calc_maxbuf jb) = frames jb"
  "jb_free (history_calc_maxbuf jb) = jb_free jb" "dropem (history_calc_maxbuf jb) = dropem jb"
  "hist_ptr (history_calc_maxbuf jb) = hist_ptr jb" "history (history_calc_maxbuf jb) = history jb"
  by (simp_all add: history_calc_maxbuf_def split: prod.split)

lemma history_calc_maxbuf_ok:
  assumes "history_ok jb" shows "history_ok (history_calc_maxbuf jb)"
proof (cases "hist_ptr jb = 0")
  case True
  with assms show ?thesis by (simp add: history_calc_maxbuf_def)
next
  case False
  with assms show ?thesis
    by (simp add: history_calc_maxbuf_window history_ok_def history_window_alt)
qed

definition history_fill :: "'d jitterbuf \<Rightarrow> 'd jitterbuf" where
  "history_fill jb = (if hist_maxbuf_valid jb then jb else history_calc_maxbuf jb)"

lemma history_get_fill:
  "history_get jb = (let jb' = history_fill jb; ix = min 500 (hist_ptr jb) * 3 div 100
     in info_update (\<lambda>i. i\<lparr>jmin := hist_minbuf jb' ! ix,
          jitter := hist_maxbuf jb' ! ix - hist_minbuf jb' ! ix\<rparr>) jb')"
  by (simp add: history_get_def history_fill_def history_index_nat Let_def)

lemma history_fill_frame [simp]:
  "info (history_fill jb) = info jb" "frames (history_fill jb) = frames jb"
  "jb_free (history_fill jb) = jb_free jb" "dropem (history_fill jb) = dropem jb"
  "hist_ptr (history_fill jb) = hist_ptr jb" "history (history_fill jb) = history jb"
  by (simp_all add: history_fill_def)

lemma history_fill_ok: "history_ok jb \<Longrightarrow> history_ok (history_fill jb)"
  by (simp add: history_fill_def history_calc_maxbuf_ok)

lemma history_fill_valid: "hist_ptr jb \<noteq> 0 \<Longrightarrow> hist_maxbuf_valid (history_fill jb)"
  by (simp add: history_fill_def history_calc_maxbuf_window)

lemma history_get_ok: "history_ok jb \<Longrightarrow> history_ok (history_get jb)"
  by (simp add: history_get_fill Let_def history_fill_ok)

lemma history_get_frame [simp]:
  "frames (history_get jb) = frames jb" "jb_free (history_get jb) = jb_free jb"
  "hist_ptr (history_get jb) = hist_ptr jb"
  "conf (info (history_get jb)) = conf (info jb)"
  "frames_in (info (history_get jb)) = frames_in (info jb)"
  "frames_out (info (history_get jb)) = frames_out (info jb)"
  "frames_cur (info (history_get jb)) = frames_cur (info jb)"
  "losspct (info (history_get jb)) = losspct (info jb)"
  "silence_begin_ts (info (history_get jb)) = silence_begin_ts (info jb)"
  "cnt_contig_interp (info (history_get jb)) = cnt_contig_interp (info jb)"
  "current (info (history_get jb)) = current (info jb)"
  "target (info (history_get jb)) = target (info jb)"
  "next_voice_ts (info (history_get jb)) = next_voice_ts (info jb)"
  "last_adjustment (info (history_get jb)) = last_adjustment (info jb)"
  by (auto simp: history_get_fill Let_def)

text \<open>The reported minimum and jitter are order statistics of the window, whatever was cached.\<close>

lemma history_get_window:
  assumes "history_ok jb" and "hist_ptr jb \<noteq> 0"
  shows "jmin (info (history_get jb)) = window_min (history_window jb) ! (min 500 (hist_ptr jb) * 3 div 100)"
    and "jmin (info (history_get jb)) + jitter (info (history_get jb))
      = window_max (history_window jb) ! (min 500 (hist_ptr jb) * 3 div 100)"
proof -
  have "history_ok (history_fill jb)" "hist_maxbuf_valid (history_fill jb)"
    using assms by (simp_all add: history_fill_ok history_fill_valid)
  moreover have "history_window (history_fill jb) = history_window jb"
    by (rule history_window_cong) simp_all
  ultimately have "hist_maxbuf (history_fill jb) = window_max (history_window jb)"
    "hist_minbuf (history_fill jb) = window_min (history_window jb)"
    by (simp_all add: history_ok_def)
  then show "jmin (info (history_get jb)) = window_min (history_window jb) ! (min 500 (hist_ptr jb) * 3 div 100)"
    and "jmin (info (history_get jb)) + jitter (info (history_get jb))
      = window_max (history_window jb) ! (min 500 (hist_ptr jb) * 3 div 100)"
    by (simp_all add: history_get_fill Let_def)
qed

text \<open>The padding of the buffers plays no part as long as the delays fit a 32-bit \<^verbatim>\<open>long\<close>.\<close>

lemma length_history_window [simp]: "length (history_window jb) = min 500 (hist_ptr jb)"
  by (auto simp: history_window_alt)

lemma sort_append_high:
  assumes "\<forall>x\<in>set xs. k x \<le> k c" and "inj k"
  shows "sort_key k (xs @ replicate n c) = sort_key k xs @ replicate n c"
  using assms by (intro sort_key_injI) (auto simp: sorted_append map_replicate_const)

lemma sort_key_uminus: "sort_key uminus w = rev (sort w)" for w :: "int list"
proof (rule sort_key_injI)
  have "sorted (map uminus (rev ys))" if "sorted ys" for ys :: "int list"
    using that by (induction ys) (auto simp: sorted_append)
  then show "sorted (map uminus (rev (sort w)))" by simp
qed simp_all

lemma window_min_sort:
  assumes "\<forall>x\<in>set w. x \<le> JB_LONGMAX" and "i < length w" and "i < 20"
  shows "window_min w ! i = sort w ! i"
  using assms sort_append_high [of w id JB_LONGMAX 20]
  by (simp add: window_min_def least_def nth_append id_def)

lemma window_max_sort:
  assumes "\<forall>x\<in>set w. JB_LONGMIN \<le> x" and "i < length w" and "i < 20"
  shows "window_max w ! i = sort w ! (length w - 1 - i)"
proof -
  have "\<forall>x\<in>set w. - x \<le> - JB_LONGMIN"
    using assms(1) by auto
  from sort_append_high [OF this inj_uminus_int, of 20]
  have "window_max w ! i = (sort_key uminus w @ replicate 20 JB_LONGMIN) ! i"
    using assms(3) by (simp add: window_max_def least_def del: take_append)
  also have "\<dots> = rev (sort w) ! i"
    using assms(2) by (simp add: nth_append sort_key_uminus)
  finally show ?thesis using assms(2) by (simp add: rev_nth)
qed

end
