(* ===== verification/JitterbufCorrect.thy ===== *)
theory JitterbufCorrect
  imports JitterbufHistory
begin

text \<open>
  The correctness of the jitter buffer: the frame queue is a stable ordered queue, every
  operation keeps the state well formed, no frame is lost, made up or delivered twice, and
  the delay that \<^verbatim>\<open>jb_get\<close> aims at is the one the history asks for.
\<close>

section \<open>The frame queue\<close>

lemma walk_back_place:
  "sorted (map f_ts (rev ps)) \<Longrightarrow> ps \<noteq> [] \<Longrightarrow> f_ts (last ps) \<le> f_ts frame \<Longrightarrow>
   rev (walk_back frame ps) = place_after f_ts frame (rev ps)"
proof (induction frame ps rule: walk_back.induct)
  case (3 frame p q ps)
  have s: "sorted (map f_ts (rev (q # ps) @ [p]))" using "3.prems" by simp
  show ?case
  proof (cases "f_ts frame < f_ts p")
    case True
    have "sorted (map f_ts (rev (q # ps)))" using s by (simp add: sorted_append)
    moreover have "f_ts (last (q # ps)) \<le> f_ts frame" using "3.prems" by simp
    ultimately have IH: "rev (walk_back frame (q # ps)) = place_after f_ts frame (rev (q # ps))"
      using "3.IH" [OF True] by simp
    have "place_after f_ts frame (xs @ [p]) = place_after f_ts frame xs @ [p]" for xs
      using True by (induction xs) auto
    from this [of "rev ps @ [q]"] IH True show ?thesis by simp
  next
    case False
    have "\<forall>y\<in>set (rev (q # ps) @ [p]). f_ts y \<le> f_ts frame"
      using s False by (force simp: sorted_append)
    from place_after_last [OF this] False show ?thesis by simp
  qed
qed simp_all

text \<open>What \<open>queue_put\<close> does to the queue of frames, as a function of the queue alone.\<close>

definition queue_insert :: "'d jb_frame \<Rightarrow> 'd jb_frame list \<Rightarrow> 'd jb_frame list" where
  "queue_insert frame q =
    (case q of [] \<Rightarrow> [frame]
     | p # ps \<Rightarrow> if f_ts frame < f_ts p then frame # p # ps
                else rev (walk_back frame (rev (p # ps))))"

lemma queue_insert_place:
  "sorted (map f_ts q) \<Longrightarrow> queue_insert frame q = place_after f_ts frame q"
proof (cases q)
  case (Cons p ps)
  assume "sorted (map f_ts q)"
  with Cons show ?thesis
    using walk_back_place [of "rev q" frame] by (simp add: queue_insert_def)
qed (simp add: queue_insert_def)

interpretation jbq: timed_queue f_ts queue_insert
  by unfold_locales (simp_all add: queue_insert_place sorted_place_after filter_place_after)

definition queue_frame :: "'d \<Rightarrow> jb_frame_type \<Rightarrow> int \<Rightarrow> int \<Rightarrow> 'd jitterbuf \<Rightarrow> 'd jb_frame" where
  "queue_frame data type ms ts jb =
     \<lparr>f_data = data, f_ts = ts - resync_offset (info jb), f_ms = ms, f_type = type\<rparr>"

lemma queue_put_frames:
  "frames (snd (queue_put mem data type ms ts jb)) =
     (if jb_free jb = 0 \<and> \<not> mem then frames jb
      else queue_insert (queue_frame data type ms ts jb) (frames jb))"
  by (auto simp: queue_put_def Let_def queue_insert_def queue_frame_def split: list.split)

lemma queue_put_frame [simp]:
  "conf (info (snd (queue_put mem data type ms ts jb))) = conf (info jb)"
  "frames_in (info (snd (queue_put mem data type ms ts jb))) = frames_in (info jb)"
  "frames_out (info (snd (queue_put mem data type ms ts jb))) = frames_out (info jb)"
  "losspct (info (snd (queue_put mem data type ms ts jb))) = losspct (info jb)"
  "history_ok (snd (queue_put mem data type ms ts jb)) = history_ok jb"
  "frames_cur (info (snd (queue_put mem data type ms ts jb))) =
     (if jb_free jb = 0 \<and> \<not> mem then frames_cur (info jb) else frames_cur (info jb) + 1)"
  by (auto simp: queue_put_def Let_def split: list.split)

lemma queue_put_head:
  "fst (queue_put mem data type ms ts jb) \<longleftrightarrow>
     \<not> (jb_free jb = 0 \<and> \<not> mem)
     \<and> (frames jb = [] \<or> f_ts (queue_frame data type ms ts jb) < f_ts (hd (frames jb)))"
  by (auto simp: queue_put_def Let_def queue_frame_def split: list.split)

section \<open>Well-formed buffers\<close>

definition jb_inv :: "'d jitterbuf \<Rightarrow> bool" where
  "jb_inv jb \<longleftrightarrow>
     history_ok jb
     \<and> sorted (map f_ts (frames jb))
     \<and> frames_cur (info jb) = int (length (frames jb))
     \<and> 0 \<le> losspct (info jb) \<and> losspct (info jb) \<le> 100000"

text \<open>The part of the invariant an update of the statistics can touch.\<close>

lemma jb_inv_info:
  "jb_inv jb \<Longrightarrow> frames_cur (f (info jb)) = frames_cur (info jb) \<Longrightarrow>
   losspct (f (info jb)) = losspct (info jb) \<Longrightarrow> jb_inv (info_update f jb)"
  by (simp add: jb_inv_def)

lemma jb_inv_reset: "jb_inv (jb_reset jb)"
  by (simp add: jb_inv_def history_ok_reset) (simp add: jb_reset_def jb_reset_info_def)

lemma jb_inv_losspct:
  assumes "jb_inv jb"
  shows "jb_inv (increment_losspct jb)" "jb_inv (decrement_losspct jb)"
proof -
  have "0 \<le> losspct (info jb)" "losspct (info jb) \<le> 100000" using assms by (simp_all add: jb_inv_def)
  then have "0 \<le> (100000 + 499 * losspct (info jb)) div 500"
    "(100000 + 499 * losspct (info jb)) div 500 \<le> 100000"
    "0 \<le> (499 * losspct (info jb)) div 500" "(499 * losspct (info jb)) div 500 \<le> 100000"
    by linarith+
  with assms \<open>0 \<le> losspct (info jb)\<close> show "jb_inv (increment_losspct jb)" "jb_inv (decrement_losspct jb)"
    by (simp_all add: jb_inv_def increment_losspct_def decrement_losspct_def sdiv_nonneg)
qed

lemma jb_inv_queue_get0:
  assumes "jb_inv jb" shows "jb_inv (snd (queue_get0 ts all jb))"
  using assms by (cases "frames jb") (auto simp: queue_get0_def jb_inv_def)

lemma queue_get0_None [simp]: "queue_get0 ts all jb = (None, jb') \<Longrightarrow> jb' = jb"
  by (cases "frames jb") (auto simp: queue_get0_def split: if_splits)

lemma queue_get0_Some:
  "queue_get0 ts all jb = (Some f, jb') \<Longrightarrow>
   frames jb = f # frames jb' \<and> (all \<or> f_ts f \<le> ts)
   \<and> info jb' = (info jb)\<lparr>frames_cur := frames_cur (info jb) - 1\<rparr>"
  by (cases "frames jb") (auto simp: queue_get0_def split: if_splits)

lemma jb_inv_history_get: "jb_inv jb \<Longrightarrow> jb_inv (history_get jb)"
  by (simp add: jb_inv_def history_get_ok)

lemma jb_inv_set_target: "jb_inv jb \<Longrightarrow> jb_inv (jb_set_target jb)"
  by (simp add: jb_set_target_def Let_def jb_inv_info jb_inv_history_get)

lemma jb_inv_interp_count: "jb_inv jb \<Longrightarrow> jb_inv (interp_count jb)"
  by (simp add: interp_count_def Let_def jb_inv_info)

lemma jb_inv_frame_out: "jb_inv jb \<Longrightarrow> jb_inv (frame_out jb)"
  by (simp add: frame_out_def jb_inv_info)

lemmas jb_inv_steps = jb_inv_info jb_inv_losspct jb_inv_interp_count jb_inv_frame_out

lemma jb_inv_get_voice:
  assumes "jb_inv jb" shows "jb_inv (snd (snd (jb_get_voice diff now interpl out jb)))"
proof -
  obtain fr jb1 where q: "queue_get0 (next_voice_ts (info jb) - current (info jb)) False jb = (fr, jb1)"
    by (metis surj_pair)
  then have "jb_inv jb1" using jb_inv_queue_get0 [OF assms] by (metis snd_conv)
  then show ?thesis
    by (cases fr) (simp_all add: jb_get_voice_def queue_get_def q Let_def jb_inv_steps)
qed

lemma jb_inv_silence_shrink: "jb_inv jb \<Longrightarrow> jb_inv (silence_shrink diff now interpl jb)"
  by (simp add: silence_shrink_def jb_inv_info)

lemma jb_inv_get_silence:
  assumes "jb_inv jb00" shows "jb_inv (snd (snd (jb_get_silence diff now interpl out jb00)))"
proof -
  define jb where "jb = silence_shrink diff now interpl jb00"
  obtain fr jb1 where q: "queue_get0 (now - current (info jb)) False jb = (fr, jb1)"
    by (metis surj_pair)
  have "jb_inv jb" using assms by (simp add: jb_def jb_inv_silence_shrink)
  then have "jb_inv jb1" using jb_inv_queue_get0 [of jb] q by (metis snd_conv)
  then show ?thesis
    by (cases fr) (simp_all add: jb_get_silence_def queue_get_def Let_def q jb_inv_steps flip: jb_def)
qed

lemma jb_inv_get0: "jb_inv jb \<Longrightarrow> jb_inv (snd (snd (jb_get0 out now interpl jb)))"
  by (simp add: jb_get0_def Let_def jb_inv_set_target jb_inv_get_voice jb_inv_get_silence jb_inv_steps)

lemma jb_inv_get: "jb_inv jb \<Longrightarrow> jb_inv (snd (snd (jb_get out now interpl jb)))"
  using jb_inv_get0 [of jb out now interpl] by (simp add: jb_get_def split_beta)

lemma jb_inv_getall: "jb_inv jb \<Longrightarrow> jb_inv (snd (snd (jb_getall out jb)))"
  using jb_inv_queue_get0 [of jb 0 True]
  by (auto simp: jb_getall_def queue_getall_def split: prod.split option.split)

lemma jb_inv_next: "jb_inv jb \<Longrightarrow> jb_inv (snd (jb_next jb))"
  by (simp add: jb_next_def Let_def jb_inv_history_get)

lemma jb_inv_queue_put: "jb_inv jb \<Longrightarrow> jb_inv (snd (queue_put mem data type ms ts jb))"
  unfolding jb_inv_def
  by (auto simp: queue_put_frames jbq.put_sorted jbq.put_length)

lemma jb_inv_history_put: "jb_inv jb \<Longrightarrow> jb_inv (snd (history_put ts now jb))"
  by (simp add: jb_inv_def history_ok_put)

lemma jb_inv_flags: "jb_inv (jb\<lparr>dropem := b\<rparr>) = jb_inv jb"
  by (simp add: jb_inv_def)

lemma jb_inv_put: "jb_inv jb \<Longrightarrow> jb_inv (snd (jb_put mem data type ms ts now jb))"
  by (auto simp: jb_put_def Let_def split_beta jb_inv_flags
      intro!: jb_inv_queue_put jb_inv_info jb_inv_history_put)

section \<open>Reachable buffers\<close>

text \<open>The states a buffer goes through: reset, then any operations in any order.\<close>

inductive jb_reach :: "'d jitterbuf \<Rightarrow> bool" where
  reset: "jb_reach (jb_reset jb)"
| put: "jb_reach jb \<Longrightarrow> jb_reach (snd (jb_put mem data type ms ts now jb))"
| get: "jb_reach jb \<Longrightarrow> jb_reach (snd (snd (jb_get out now interpl jb)))"
| getall: "jb_reach jb \<Longrightarrow> jb_reach (snd (snd (jb_getall out jb)))"
| nxt: "jb_reach jb \<Longrightarrow> jb_reach (snd (jb_next jb))"
| getinfo: "jb_reach jb \<Longrightarrow> jb_reach (snd (snd (jb_getinfo jb)))"
| setconf: "jb_reach jb \<Longrightarrow> jb_reach (snd (jb_setconf c jb))"

lemma jb_reach_inv: "jb_reach jb \<Longrightarrow> jb_inv jb"
proof (induction rule: jb_reach.induct)
  case (getinfo jb)
  then show ?case by (simp add: jb_getinfo_def Let_def jb_inv_history_get)
next
  case (setconf jb c)
  then show ?case by (simp add: jb_setconf_def jb_inv_info)
qed (simp_all add: jb_inv_reset jb_inv_put jb_inv_get jb_inv_getall jb_inv_next)

section \<open>What a get delivers\<close>

lemma frames_stats [simp]:
  "frames (increment_losspct jb) = frames jb" "frames (decrement_losspct jb) = frames jb"
  "frames (interp_count jb) = frames jb" "frames (frame_out jb) = frames jb"
  "frames (jb_set_target jb) = frames jb" "frames (silence_shrink diff now interpl jb) = frames jb"
  by (simp_all add: increment_losspct_def decrement_losspct_def interp_count_def frame_out_def
      jb_set_target_def silence_shrink_def Let_def)

text \<open>
  A get either hands out the lowest frame of the queue and removes it (\<^verbatim>\<open>JB_OK\<close>: play it,
  \<^verbatim>\<open>JB_DROP\<close>: throw it away) or leaves the queue alone.
\<close>

definition delivers :: "'d jb_frame list \<Rightarrow> jb_return_code \<times> 'd jb_frame \<times> 'd jitterbuf \<Rightarrow> bool" where
  "delivers q r = (case r of (ret, out, jb') \<Rightarrow>
     if ret \<in> {JB_OK, JB_DROP} then q = out # frames jb'
     else ret \<in> {JB_NOFRAME, JB_INTERP} \<and> frames jb' = q)"

lemma jb_get_voice_delivers:
  "delivers (frames jb) (jb_get_voice diff now interpl out jb)"
proof -
  obtain fr jb1 where q: "queue_get0 (next_voice_ts (info jb) - current (info jb)) False jb = (fr, jb1)"
    by (metis surj_pair)
  show ?thesis
  proof (cases fr)
    case None
    with q have "jb1 = jb" by simp
    with None q show ?thesis
      by (simp add: jb_get_voice_def queue_get_def Let_def delivers_def)
  next
    case (Some f)
    with q have "frames jb = f # frames jb1" using queue_get0_Some by metis
    with Some q show ?thesis
      by (simp add: jb_get_voice_def queue_get_def Let_def delivers_def)
  qed
qed

lemma jb_get_silence_delivers:
  "delivers (frames jb00) (jb_get_silence diff now interpl out jb00)"
proof -
  define jb where "jb = silence_shrink diff now interpl jb00"
  have fr0: "frames jb = frames jb00" by (simp add: jb_def)
  obtain fr jb1 where q: "queue_get0 (now - current (info jb)) False jb = (fr, jb1)"
    by (metis surj_pair)
  show ?thesis
  proof (cases fr)
    case None
    with q have "jb1 = jb" by simp
    with None q fr0 show ?thesis
      by (simp add: jb_get_silence_def queue_get_def Let_def delivers_def flip: jb_def)
  next
    case (Some f)
    with q have "frames jb = f # frames jb1" using queue_get0_Some by metis
    with Some q fr0 show ?thesis
      by (simp add: jb_get_silence_def queue_get_def Let_def delivers_def flip: jb_def)
  qed
qed

lemma jb_get0_delivers: "delivers (frames jb) (jb_get0 out now interpl jb)"
  using jb_get_voice_delivers [of "jb_set_target jb"] jb_get_silence_delivers [of "jb_set_target jb"]
  by (simp add: jb_get0_def Let_def) (simp add: delivers_def)

lemma jb_get_delivers: "delivers (frames jb) (jb_get out now interpl jb)"
  using jb_get0_delivers [of jb out now interpl]
  by (auto simp: jb_get_def delivers_def split: prod.splits if_splits)

lemma jb_getall_delivers: "delivers (frames jb) (jb_getall out jb)"
proof -
  obtain fr jb1 where q: "queue_get0 0 True jb = (fr, jb1)" by (metis surj_pair)
  show ?thesis
  proof (cases fr)
    case None
    with q have "jb1 = jb" by simp
    with None q show ?thesis by (simp add: jb_getall_def queue_getall_def delivers_def)
  next
    case (Some f)
    with q have "frames jb = f # frames jb1" using queue_get0_Some by metis
    with Some q show ?thesis by (simp add: jb_getall_def queue_getall_def delivers_def)
  qed
qed

text \<open>A put accepts its frame unless it answers \<^verbatim>\<open>JB_DROP\<close> or no memory is left for it.\<close>

definition accepts :: "bool \<Rightarrow> 'd jitterbuf \<Rightarrow> jb_return_code \<Rightarrow> bool" where
  "accepts mem jb ret \<longleftrightarrow> ret \<noteq> JB_DROP \<and> (jb_free jb \<noteq> 0 \<or> mem)"

text \<open>The queue part of a put that is not dropped.\<close>

lemma jb_put_queue:
  assumes "jb_put mem data type ms ts now jb = (ret, jb')" and "ret \<noteq> JB_DROP"
  shows "\<exists>j. frames j = frames jb \<and> jb_free j = jb_free jb
    \<and> queue_put mem data type ms ts j = (ret = JB_SCHED, jb')"
proof -
  define r where "r = (if type = JB_TYPE_VOICE then history_put ts now (jb\<lparr>dropem := False\<rparr>)
    else (0, jb\<lparr>dropem := False\<rparr>))"
  define j where "j = info_update (frames_in_update (\<lambda>n. n + 1)) (snd r)"
  obtain h jb3 where q: "queue_put mem data type ms ts j = (h, jb3)" by (metis surj_pair)
  have "(ret, jb') = (if h then JB_SCHED else JB_OK, jb3)"
    using assms unfolding jb_put_def Let_def r_def [symmetric]
    by (cases r) (use q in \<open>simp add: j_def split: if_splits\<close>)
  then have "queue_put mem data type ms ts j = (ret = JB_SCHED, jb')"
    using q by (cases h) simp_all
  moreover have "frames j = frames jb" "jb_free j = jb_free jb" by (simp_all add: j_def r_def)
  ultimately show ?thesis by blast
qed

lemma jb_put_frames:
  assumes "sorted (map f_ts (frames jb))" and "jb_put mem data type ms ts now jb = (ret, jb')"
  shows "mset (map f_data (frames jb')) =
    (if accepts mem jb ret then {#data#} else {#}) + mset (map f_data (frames jb))"
proof -
  have "mset (map f_data (queue_insert (queue_frame data type ms ts j) (frames jb)))
      = add_mset data (mset (map f_data (frames jb)))" for j :: "'a jitterbuf"
    using assms(1) by (simp add: queue_insert_place queue_frame_def)
  with assms show ?thesis
    by (auto simp: jb_put_def Let_def split_beta accepts_def queue_put_frames
        split: if_splits)
qed

lemma jb_next_frames [simp]: "frames (snd (jb_next jb)) = frames jb"
  by (simp add: jb_next_def Let_def)

section \<open>Runs\<close>

datatype 'd jb_op =
    Put bool 'd jb_frame_type int int int
  | Get int int
  | GetAll
  | Next
  | GetInfo
  | SetConf jb_conf

text \<open>
  One operation: the data of the frame it accepted, the data of the frame it handed out
  (\<open>blank\<close> is the caller's frame variable), and the new state.
\<close>

fun jb_do :: "'d jb_frame \<Rightarrow> 'd jb_op \<Rightarrow> 'd jitterbuf \<Rightarrow> 'd list \<times> 'd list \<times> 'd jitterbuf" where
  "jb_do blank (Put mem data type ms ts now) jb =
     (let (ret, jb') = jb_put mem data type ms ts now jb
      in (if accepts mem jb ret then [data] else [], [], jb'))"
| "jb_do blank (Get now interpl) jb =
     (let (ret, out, jb') = jb_get blank now interpl jb
      in ([], if ret \<in> {JB_OK, JB_DROP} then [f_data out] else [], jb'))"
| "jb_do blank GetAll jb =
     (let (ret, out, jb') = jb_getall blank jb
      in ([], if ret \<in> {JB_OK, JB_DROP} then [f_data out] else [], jb'))"
| "jb_do blank Next jb = ([], [], snd (jb_next jb))"
| "jb_do blank GetInfo jb = ([], [], snd (snd (jb_getinfo jb)))"
| "jb_do blank (SetConf c) jb = ([], [], snd (jb_setconf c jb))"

fun jb_run :: "'d jb_frame \<Rightarrow> 'd jb_op list \<Rightarrow> 'd jitterbuf \<Rightarrow> 'd list \<times> 'd list \<times> 'd jitterbuf" where
  "jb_run blank [] jb = ([], [], jb)"
| "jb_run blank (p # ps) jb =
     (let (acc, out, jb') = jb_do blank p jb; (accs, outs, jb'') = jb_run blank ps jb'
      in (acc @ accs, out @ outs, jb''))"

lemma jb_do_inv: "jb_inv jb \<Longrightarrow> jb_inv (snd (snd (jb_do blank p jb)))"
proof (cases p)
  case (SetConf c)
  moreover assume "jb_inv jb"
  ultimately show ?thesis by (simp add: jb_setconf_def jb_inv_info)
qed (simp_all add: Let_def split_beta jb_inv_put jb_inv_get jb_inv_getall jb_inv_next
    jb_getinfo_def jb_inv_history_get)

lemma delivers_mset:
  "delivers q (ret, out, jb') \<Longrightarrow>
   mset (map f_data q) =
     mset (if ret \<in> {JB_OK, JB_DROP} then [f_data out] else []) + mset (map f_data (frames jb'))"
  by (auto simp: delivers_def split: if_splits)

lemma jb_do_balance:
  assumes "jb_inv jb" and "jb_do blank p jb = (acc, out, jb')"
  shows "mset acc + mset (map f_data (frames jb)) = mset out + mset (map f_data (frames jb'))"
proof (cases p)
  case (Put mem data type ms ts now)
  have "sorted (map f_ts (frames jb))" using assms(1) by (simp add: jb_inv_def)
  then show ?thesis
    using assms(2) Put jb_put_frames [of jb mem data type ms ts now] by (auto split: prod.splits)
next
  case (Get now interpl)
  then show ?thesis
    using assms(2) jb_get_delivers [of jb blank now interpl] delivers_mset
    by (auto split: prod.splits simp del: insert_iff)
next
  case GetAll
  then show ?thesis
    using assms(2) jb_getall_delivers [of jb blank] delivers_mset
    by (auto split: prod.splits simp del: insert_iff)
next
  case (SetConf c)
  then show ?thesis using assms(2) by (auto simp: jb_setconf_def)
qed (use assms(2) in \<open>auto simp: jb_getinfo_def Let_def\<close>)

lemma mset_chain:
  "a + f = b + f1 \<Longrightarrow> a1 + f1 = b1 + f2 \<Longrightarrow> (a + a1) + f = (b + b1) + f2" for a :: "'a multiset"
  by (metis add.assoc add.commute)

lemma jb_run_balance:
  "jb_inv jb \<Longrightarrow> jb_run blank ps jb = (accs, outs, jb') \<Longrightarrow>
   mset accs + mset (map f_data (frames jb)) = mset outs + mset (map f_data (frames jb'))"
proof (induction ps arbitrary: jb accs outs jb')
  case Nil
  then show ?case by simp
next
  case (Cons p ps)
  obtain acc out jb1 where p: "jb_do blank p jb = (acc, out, jb1)" by (metis surj_pair)
  obtain accs1 outs1 jb2 where ps: "jb_run blank ps jb1 = (accs1, outs1, jb2)" by (metis surj_pair)
  have "jb_inv jb1" using jb_do_inv [OF Cons.prems(1), of blank p] p by simp
  from Cons.prems(2) p ps have eqs: "jb2 = jb'" "accs = acc @ accs1" "outs = out @ outs1" by auto
  show ?case
    unfolding eqs mset_append using jb_do_balance [OF Cons.prems(1) p]
      Cons.IH [OF \<open>jb_inv jb1\<close> ps [unfolded eqs]] by (rule mset_chain)
qed

lemma jb_run_reach: "jb_reach jb \<Longrightarrow> jb_reach (snd (snd (jb_run blank ps jb)))"
proof (induction ps arbitrary: jb)
  case Nil
  then show ?case by simp
next
  case (Cons p ps)
  have "jb_reach (snd (snd (jb_do blank p jb)))"
    using Cons.prems by (cases p) (simp_all add: Let_def split_beta jb_reach.intros)
  from Cons.IH [OF this] show ?case by (simp add: Let_def split_beta)
qed

section \<open>The target delay\<close>

lemma jb_set_target_target:
  assumes "history_ok jb" and "hist_ptr jb \<noteq> 0"
  shows "target (info (jb_set_target jb)) =
    (let w = history_window jb; ix = min 500 (hist_ptr jb) * 3 div 100;
         lo = window_min w ! ix; hi = window_max w ! ix; mx = max_jitterbuf (conf (info jb))
     in if mx \<noteq> 0 \<and> hi + 40 - lo > mx then lo + mx else hi + 40)"
  using history_get_window [OF assms]
  by (simp add: jb_set_target_def Let_def algebra_simps)

lemma jb_get_target [simp]:
  "target (info (snd (snd (jb_get out now interpl jb)))) = target (info (jb_set_target jb))"
proof -
  have stats: "target (info (increment_losspct j)) = target (info j)"
    "target (info (decrement_losspct j)) = target (info j)"
    "target (info (interp_count j)) = target (info j)" "target (info (frame_out j)) = target (info j)"
    "target (info (silence_shrink diff now interpl j)) = target (info j)"
    "target (info (snd (queue_get ts j))) = target (info j)" for j :: "'a jitterbuf" and diff ts
    by (auto simp: increment_losspct_def decrement_losspct_def interp_count_def frame_out_def
        silence_shrink_def Let_def queue_get_def queue_get0_def split: list.split)
  have "target (info (snd (snd (jb_get_voice diff now interpl out j)))) = target (info j)" for diff j
    by (auto simp: jb_get_voice_def Let_def stats split_beta split: option.split)
  moreover have "target (info (snd (snd (jb_get_silence diff now interpl out j)))) = target (info j)" for diff j
    by (auto simp: jb_get_silence_def Let_def stats split_beta split: option.split)
  ultimately show ?thesis
    by (simp add: jb_get_def jb_get0_def Let_def stats split_beta)
qed

section \<open>Interpolation\<close>

lemma jb_get_silence_no_interp: "fst (jb_get_silence diff now interpl out jb) \<noteq> JB_INTERP"
  by (simp add: jb_get_silence_def Let_def split_beta split: option.split)

lemma jb_set_target_info [simp]:
  "silence_begin_ts (info (jb_set_target jb)) = silence_begin_ts (info jb)"
  "conf (info (jb_set_target jb)) = conf (info jb)"
  "cnt_contig_interp (info (jb_set_target jb)) = cnt_contig_interp (info jb)"
  by (simp_all add: jb_set_target_def Let_def)

lemma jb_get_interp_not_silent:
  "fst (jb_get out now interpl jb) = JB_INTERP \<Longrightarrow> silence_begin_ts (info jb) = 0"
  using jb_get_silence_no_interp
  by (fastforce simp: jb_get_def jb_get0_def Let_def split_beta split: if_splits)

lemma interp_count_effect:
  "conf (info (interp_count jb)) = conf (info jb)"
  "cnt_contig_interp (info (interp_count jb)) = cnt_contig_interp (info jb) + 1"
  "silence_begin_ts (info (interp_count jb)) =
    (if max_contig_interp (conf (info jb)) \<noteq> 0
        \<and> max_contig_interp (conf (info jb)) \<le> cnt_contig_interp (info (interp_count jb))
     then next_voice_ts (info (interp_count jb)) - current (info (interp_count jb)) else silence_begin_ts (info jb))"
  by (auto simp: interp_count_def Let_def)

lemma jb_get_voice_interp:
  assumes "jb_get_voice diff now interpl out jb = (JB_INTERP, out', jb')"
  shows "\<exists>j. jb' = interp_count j \<and> conf (info j) = conf (info jb)
    \<and> cnt_contig_interp (info j) = cnt_contig_interp (info jb)
    \<and> silence_begin_ts (info j) = silence_begin_ts (info jb)"
proof -
  obtain fr jb1 where q: "queue_get0 (next_voice_ts (info jb) - current (info jb)) False jb = (fr, jb1)"
    by (metis surj_pair)
  show ?thesis
  proof (cases fr)
    case None
    with q have "jb1 = jb" by simp
    with None q assms show ?thesis
      by (auto simp: jb_get_voice_def queue_get_def Let_def increment_losspct_def split: if_splits)
  next
    case (Some f)
    with q assms show ?thesis
      by (auto simp: jb_get_voice_def queue_get_def Let_def split: if_splits)
  qed
qed

lemma jb_get_interp:
  assumes "jb_get out0 now interpl jb = (JB_INTERP, out, jb')"
  shows "\<exists>j. jb' = interp_count j \<and> conf (info j) = conf (info jb)
    \<and> cnt_contig_interp (info j) = cnt_contig_interp (info jb)
    \<and> silence_begin_ts (info j) = silence_begin_ts (info jb)"
proof -
  let ?j = "jb_set_target jb"
  have "silence_begin_ts (info jb) = 0"
    using jb_get_interp_not_silent [of out0 now interpl jb] assms by simp
  with assms obtain out' where g: "jb_get0 out0 now interpl jb = (JB_INTERP, out', jb')"
    by (auto simp: jb_get_def split: prod.splits)
  show ?thesis
    using g \<open>silence_begin_ts (info jb) = 0\<close>
      jb_get_voice_interp [of "target (info ?j) - current (info ?j)" now interpl out0 ?j out' jb']
    by (auto simp: jb_get0_def Let_def split: if_splits)
qed

end
