(* ===== verification/JitterbufProps.thy ===== *)
theory JitterbufProps
  imports JitterbufCorrect
begin

text \<open>
  The properties of the jitter buffer, each over the operations of \<^verbatim>\<open>main/jitterbuf.c\<close> as
  theory \<^verbatim>\<open>Jitterbuf\<close> models them, with a concrete run for those that have hypotheses.
\<close>

section \<open>A concrete buffer\<close>

definition ex_conf :: jb_conf where
  "ex_conf = \<lparr>max_jitterbuf = 200, resync_threshold = 1000, max_contig_interp = 2\<rparr>"

definition ex_start :: "nat jitterbuf" where
  "ex_start = jb_reset \<lparr>info = jb_reset_info ex_conf, history = [], hist_ptr = 0,
     hist_maxbuf = [], hist_minbuf = [], hist_maxbuf_valid = True, dropem = True,
     frames = [], jb_free = 0\<rparr>"

definition ex_blank :: "nat jb_frame" where
  "ex_blank = \<lparr>f_data = 0, f_ts = 0, f_ms = 0, f_type = JB_TYPE_CONTROL\<rparr>"

text \<open>Two voice frames, the second out of order, with delays 60 and 90.\<close>

definition ex_jb1 :: "nat jitterbuf" where
  "ex_jb1 = snd (jb_put True 1 JB_TYPE_VOICE 20 120 180 ex_start)"

definition ex_jb2 :: "nat jitterbuf" where
  "ex_jb2 = snd (jb_put True 2 JB_TYPE_VOICE 20 100 190 ex_jb1)"

lemmas ex_defs = ex_conf_def ex_start_def ex_blank_def ex_jb1_def ex_jb2_def

lemmas jb_eval = jb_put_def history_put_def history_store_def jb_reset_def jb_reset_info_def
  queue_put_def queue_next_def queue_last_def Let_def

lemma ex_jb2_reach: "jb_reach ex_jb2"
  unfolding ex_jb2_def ex_jb1_def ex_start_def by (intro jb_reach.intros)

lemma ex_jb2_window: "history_window ex_jb2 = [60, 90]" "hist_ptr ex_jb2 = 2"
  by (simp_all add: history_window_alt ex_defs jb_eval)

lemma ex_jb2_frames:
  "map f_data (frames ex_jb2) = [2, 1]" "map f_ts (frames ex_jb2) = [100, 120]"
  "conf (info ex_jb2) = ex_conf"
  by (simp_all add: ex_defs jb_eval)

section \<open>Properties\<close>

text \<open>C1. Nothing is lost, made up or delivered twice: after any sequence of operations on a
  fresh buffer, the frames it accepted are exactly the frames it handed out (to play or to
  throw away) together with the frames still queued.\<close>

theorem jb_run_conserves_frames:
  "case jb_run blank ps (jb_reset jb0) of (accepted, delivered, jb) \<Rightarrow>
     mset accepted = mset delivered + mset (map f_data (frames jb))"
proof (cases "jb_run blank ps (jb_reset jb0)")
  case (fields accs outs jb)
  have "frames (jb_reset jb0) = []" by (simp add: jb_reset_def)
  with jb_run_balance [OF jb_inv_reset fields] fields show ?thesis by simp
qed

text \<open>C2. In every reachable buffer the queue is in the order of the time stamps, the frame
  counter is the length of the queue, the loss percentage is between 0 and 100000, and cached
  extremes of the delay history, where marked valid, are the extremes of the current window.\<close>

theorem jb_reachable_well_formed:
  assumes "jb_reach jb"
  shows "sorted (map f_ts (frames jb)) \<and> frames_cur (info jb) = int (length (frames jb))
    \<and> 0 \<le> losspct (info jb) \<and> losspct (info jb) \<le> 100000
    \<and> (hist_maxbuf_valid jb \<longrightarrow>
         hist_maxbuf jb = window_max (history_window jb)
         \<and> hist_minbuf jb = window_min (history_window jb))"
  using jb_reach_inv [OF assms] by (simp add: jb_inv_def history_ok_def)

theorem jb_reachable_well_formed_witness:
  "jb_reach ex_jb2 \<and> sorted (map f_ts (frames ex_jb2)) \<and> length (frames ex_jb2) = 2"
proof -
  have "length (map f_ts (frames ex_jb2)) = 2" by (simp only: ex_jb2_frames) simp
  then show ?thesis
    using jb_reachable_well_formed [OF ex_jb2_reach] ex_jb2_reach by simp
qed

text \<open>C6. The delay a get aims at is taken from the last 500 packet delays: leaving out the
  highest and the lowest 3 percent, it is the highest delay plus 40 ms, and never more than
  the configured maximum above the lowest delay.\<close>

theorem jb_get_target_from_history:
  assumes "jb_reach jb" and "hist_ptr jb \<noteq> 0"
    and "\<forall>d\<in>set (history_window jb). JB_LONGMIN \<le> d \<and> d \<le> JB_LONGMAX"
  shows "target (info (snd (snd (jb_get out now interpl jb)))) =
    (let w = sort (history_window jb); n = length w; ix = n * 3 div 100;
         lo = w ! ix; hi = w ! (n - 1 - ix); mx = max_jitterbuf (conf (info jb))
     in if mx \<noteq> 0 \<and> hi + 40 - lo > mx then lo + mx else hi + 40)"
proof -
  let ?w = "history_window jb" and ?ix = "min 500 (hist_ptr jb) * 3 div 100"
  have ok: "history_ok jb" using jb_reach_inv [OF assms(1)] by (simp add: jb_inv_def)
  have ix: "?ix < length ?w" "?ix < 20"
    using assms(2) history_index_nat(2) [of "hist_ptr jb"] by (auto simp: min_def)
  have "window_min ?w ! ?ix = sort ?w ! ?ix"
    "window_max ?w ! ?ix = sort ?w ! (length ?w - 1 - ?ix)"
    using window_min_sort [of ?w ?ix] window_max_sort [of ?w ?ix] assms(3) ix by blast+
  then show ?thesis
    using jb_set_target_target [OF ok assms(2)] by (simp add: Let_def)
qed

theorem jb_get_target_from_history_witness:
  "target (info (snd (snd (jb_get ex_blank 200 20 ex_jb2)))) = 130"
  using jb_get_target_from_history [OF ex_jb2_reach, of ex_blank 200 20]
  by (simp add: ex_jb2_window ex_jb2_frames) (simp add: ex_conf_def)

text \<open>C11. A frame that a put does not drop is placed behind every queued frame that is not
  later than it, and in front of the later ones; the answer \<^verbatim>\<open>JB_SCHED\<close> tells the caller
  exactly that it became the next frame to deliver.\<close>

theorem jb_put_places_frame:
  assumes "jb_reach jb" and "jb_put mem data type ms ts now jb = (ret, jb')" and "accepts mem jb ret"
  shows "frames jb' = place_after f_ts
      \<lparr>f_data = data, f_ts = ts - resync_offset (info jb'), f_ms = ms, f_type = type\<rparr> (frames jb)
    \<and> (ret = JB_SCHED \<longleftrightarrow>
        (\<forall>f\<in>set (frames jb). ts - resync_offset (info jb') < f_ts f))"
proof -
  have srt: "sorted (map f_ts (frames jb))"
    using jb_reach_inv [OF assms(1)] by (simp add: jb_inv_def)
  from jb_put_queue [OF assms(2)] assms(3) obtain j where fr: "frames j = frames jb" "jb_free j = jb_free jb"
    and q: "queue_put mem data type ms ts j = (ret = JB_SCHED, jb')"
    by (auto simp: accepts_def)
  have off: "resync_offset (info (snd (queue_put mem data type ms ts k))) = resync_offset (info k)"
    for k :: "'a jitterbuf"
    by (auto simp: queue_put_def Let_def split: list.split)
  have "resync_offset (info jb') = resync_offset (info j)" using off [of j] q by simp
  moreover have "frames jb' = queue_insert (queue_frame data type ms ts j) (frames jb)"
    using queue_put_frames [of mem data type ms ts j] q assms(3) fr by (auto simp: accepts_def)
  moreover have "ret = JB_SCHED \<longleftrightarrow>
      (frames jb = [] \<or> f_ts (queue_frame data type ms ts j) < f_ts (hd (frames jb)))"
    using queue_put_head [of mem data type ms ts j] q assms(3) fr by (auto simp: accepts_def)
  ultimately show ?thesis
    using srt by (cases "frames jb") (auto simp: queue_insert_place queue_frame_def)
qed

theorem jb_put_places_frame_witness:
  "map f_data (frames (snd (jb_put True 3 JB_TYPE_CONTROL 0 110 200 ex_jb2))) = [2, 3, 1]"
proof -
  obtain ret jb' where p: "jb_put True 3 JB_TYPE_CONTROL 0 110 200 ex_jb2 = (ret, jb')"
    by (metis surj_pair)
  have "accepts True ex_jb2 ret \<and> resync_offset (info jb') = 0"
    using p by (auto simp: ex_defs jb_eval accepts_def)
  with jb_put_places_frame [OF ex_jb2_reach p] p show ?thesis
    by (auto simp: place_after_def ex_defs jb_eval)
qed

text \<open>C12. A get hands out the queued frame with the lowest time stamp, the one that came
  first among equals, and removes exactly that frame; the other answers leave the queue alone.\<close>

theorem jb_get_hands_out_lowest:
  assumes "jb_reach jb" and "jb_get out0 now interpl jb = (ret, out, jb')"
  shows "(ret \<in> {JB_OK, JB_DROP} \<and> frames jb = out # frames jb'
           \<and> (\<forall>f\<in>set (frames jb'). f_ts out \<le> f_ts f))
       \<or> (ret \<in> {JB_NOFRAME, JB_INTERP} \<and> frames jb' = frames jb)"
proof -
  have "sorted (map f_ts (frames jb))"
    using jb_reach_inv [OF assms(1)] by (simp add: jb_inv_def)
  with jb_get_delivers [of jb out0 now interpl] assms(2) show ?thesis
    by (auto simp: delivers_def split: if_splits)
qed

theorem jb_get_hands_out_lowest_witness:
  "case jb_get ex_blank 400 20 ex_jb2 of (ret, out, jb') \<Rightarrow>
     ret = JB_OK \<and> f_data out = 2 \<and> map f_data (frames jb') = [1]"
proof -
  obtain ret out jb' where p: "jb_get ex_blank 400 20 ex_jb2 = (ret, out, jb')" by (metis surj_pair)
  have "ret = JB_OK"
  proof -
    have "fst (jb_get ex_blank 400 20 ex_jb2) = JB_OK" by code_simp
    with p show ?thesis by simp
  qed
  with jb_get_hands_out_lowest [OF ex_jb2_reach p] ex_jb2_frames(1) p show ?thesis by auto
qed

text \<open>C13. Interpolation is bounded: a get in silence never asks for an interpolated frame, and every
  interpolated frame is counted. When a limit is configured and the count reaches it, silence begins at the
  playing position \<^verbatim>\<open>next_voice_ts - current\<close>, and the next get asks for no further
  interpolated frame, unless that position is 0: \<^verbatim>\<open>silence_begin_ts\<close> = 0 is the code's mark for
  not being in silence. Without a limit, or below it, silence does not begin.\<close>

theorem jb_get_interp_bounded:
  assumes "jb_get out0 now interpl jb = (JB_INTERP, out, jb')" and "m = max_contig_interp (conf (info jb))"
  shows "silence_begin_ts (info jb) = 0
    \<and> cnt_contig_interp (info jb') = cnt_contig_interp (info jb) + 1
    \<and> silence_begin_ts (info jb') = (if m \<noteq> 0 \<and> m \<le> cnt_contig_interp (info jb')
        then next_voice_ts (info jb') - current (info jb') else 0)
    \<and> (m \<noteq> 0 \<and> m \<le> cnt_contig_interp (info jb') \<and> next_voice_ts (info jb') \<noteq> current (info jb')
        \<longrightarrow> fst (jb_get out1 now1 interpl1 jb') \<noteq> JB_INTERP)"
proof -
  have s: "silence_begin_ts (info jb) = 0"
    using jb_get_interp_not_silent [of out0 now interpl jb] assms(1) by simp
  obtain j where "jb' = interp_count j" "conf (info j) = conf (info jb)"
    "cnt_contig_interp (info j) = cnt_contig_interp (info jb)" "silence_begin_ts (info j) = silence_begin_ts (info jb)"
    using jb_get_interp [OF assms(1)] by blast
  then show ?thesis
    using s assms(2) jb_get_interp_not_silent [of out1 now1 interpl1 jb'] interp_count_effect [of j] by auto
qed

text \<open>The buffer after its two frames were played (at 400 and 420) and one frame was interpolated.\<close>

definition ex_jb5 :: "nat jitterbuf" where
  "ex_jb5 = snd (snd (jb_get ex_blank 440 20 (snd (snd (jb_get ex_blank 420 20
     (snd (snd (jb_get ex_blank 400 20 ex_jb2))))))))"

theorem jb_get_interp_bounded_witness:
  "case jb_get ex_blank 460 20 ex_jb5 of (ret, out, jb') \<Rightarrow>
     ret = JB_INTERP \<and> silence_begin_ts (info jb') = next_voice_ts (info jb') - current (info jb')
     \<and> fst (jb_get ex_blank 480 20 jb') \<noteq> JB_INTERP"
proof -
  let ?r = "jb_get ex_blank 460 20 ex_jb5"
  obtain ret out jb' where p: "?r = (ret, out, jb')" by (metis surj_pair)
  have "fst ?r = JB_INTERP \<and> max_contig_interp (conf (info ex_jb5)) = 2
      \<and> cnt_contig_interp (info (snd (snd ?r))) = 2
      \<and> next_voice_ts (info (snd (snd ?r))) \<noteq> current (info (snd (snd ?r)))"
    by code_simp
  then have e: "ret = JB_INTERP" "max_contig_interp (conf (info ex_jb5)) = 2"
    "cnt_contig_interp (info jb') = 2" "next_voice_ts (info jb') \<noteq> current (info jb')"
    using p by simp_all
  with jb_get_interp_bounded [of ex_blank 460 20 ex_jb5 out jb' 2 ex_blank 480 20] p show ?thesis by simp
qed

end
