(* ===== verification/JbQueue.thy ===== *)
theory JbQueue
  imports JitterbufCorrect "HOL-Library.While_Combinator"
begin

text \<open>
  The frame queue of \<^verbatim>\<open>main/jitterbuf.c\<close> with its pointers: the circular doubly linked list
  \<^verbatim>\<open>jb->frames\<close> and the singly linked list \<^verbatim>\<open>jb->free\<close>, over a heap that maps addresses to
  the fields of \<^verbatim>\<open>struct jb_frame\<close>. The operations follow \<^verbatim>\<open>queue_put\<close> and \<^verbatim>\<open>_queue_get\<close>
  assignment by assignment; the lemmas show that they keep the two lists apart and well
  linked, and that on the abstract list they are \<open>queue_insert\<close> and the removal of the head.
\<close>

section \<open>The heap and the two operations\<close>

type_synonym addr = nat

abbreviation NULL :: addr where "NULL \<equiv> 0"

record 'd qheap =
  hnext :: "addr \<Rightarrow> addr"
  hprev :: "addr \<Rightarrow> addr"
  hframe :: "addr \<Rightarrow> 'd jb_frame"
  q_frames :: addr
  q_free :: addr

definition set_next :: "addr \<Rightarrow> addr \<Rightarrow> 'd qheap \<Rightarrow> 'd qheap" where
  "set_next a v = hnext_update (\<lambda>n. n(a := v))"

definition set_prev :: "addr \<Rightarrow> addr \<Rightarrow> 'd qheap \<Rightarrow> 'd qheap" where
  "set_prev a v = hprev_update (\<lambda>n. n(a := v))"

definition set_frame :: "addr \<Rightarrow> 'd jb_frame \<Rightarrow> 'd qheap \<Rightarrow> 'd qheap" where
  "set_frame a v = hframe_update (\<lambda>n. n(a := v))"

text \<open>\<open>Option\<close> because the walk over a broken ring need not end.\<close>

partial_function (option) qwalk :: "'d qheap \<Rightarrow> int \<Rightarrow> addr \<Rightarrow> addr option" where
  "qwalk h ts p =
     (if ts < f_ts (hframe h (hprev h p)) \<and> hprev h p \<noteq> q_frames h
      then qwalk h ts (hprev h p) else Some p)"

definition link_before :: "addr \<Rightarrow> addr \<Rightarrow> 'd qheap \<Rightarrow> 'd qheap" where
  "link_before frame p h0 =
    (let h1 = set_next frame p h0;
         h2 = set_prev frame (hprev h1 p) h1;
         h3 = set_prev (hnext h2 frame) frame h2
     in set_next (hprev h3 frame) frame h3)"

text \<open>\<open>fresh\<close> is what \<^verbatim>\<open>ast_malloc\<close> returns if it is called.\<close>

definition qp_put :: "addr \<Rightarrow> 'd jb_frame \<Rightarrow> 'd qheap \<Rightarrow> (bool \<times> 'd qheap) option" where
  "qp_put fresh v h =
    (let (frame, h1) = (if q_free h \<noteq> NULL then (q_free h, h\<lparr>q_free := hnext h (q_free h)\<rparr>)
                        else (fresh, h))
     in if frame = NULL then Some (False, h)
        else
          let h2 = set_frame frame v h1
          in if q_frames h2 = NULL then
               Some (True, set_prev frame frame (set_next frame frame (h2\<lparr>q_frames := frame\<rparr>)))
             else if f_ts v < f_ts (hframe h2 (q_frames h2)) then
               Some (True, (link_before frame (q_frames h2) h2)\<lparr>q_frames := frame\<rparr>)
             else
               (case qwalk h2 (f_ts v) (q_frames h2) of
                  None \<Rightarrow> None
                | Some p \<Rightarrow> Some (False, link_before frame p h2)))"

definition qp_get :: "int \<Rightarrow> bool \<Rightarrow> 'd qheap \<Rightarrow> addr \<times> 'd qheap" where
  "qp_get ts all h =
    (let frame = q_frames h
     in if frame = NULL then (NULL, h)
        else if all \<or> ts \<ge> f_ts (hframe h frame) then
          let h1 = set_next (hprev h frame) (hnext h frame) h;
              h2 = set_prev (hnext h1 frame) (hprev h1 frame) h1;
              h3 = (if hnext h2 frame = frame then h2\<lparr>q_frames := NULL\<rparr>
                    else h2\<lparr>q_frames := hnext h2 frame\<rparr>);
              h4 = set_next frame (q_free h3) h3
          in (frame, h4\<lparr>q_free := frame\<rparr>)
        else (NULL, h))"

lemmas heap_defs = set_next_def set_prev_def set_frame_def link_before_def Let_def

section \<open>Linked segments\<close>

fun seg :: "'d qheap \<Rightarrow> addr list \<Rightarrow> bool" where
  "seg h (x # y # zs) = (hnext h x = y \<and> hprev h y = x \<and> seg h (y # zs))"
| "seg h _ = True"

text \<open>A ring: every cell is linked to the next, the last one to the first.\<close>

definition ring :: "'d qheap \<Rightarrow> addr list \<Rightarrow> bool" where
  "ring h as \<longleftrightarrow> distinct as \<and> NULL \<notin> set as \<and>
     (case as of [] \<Rightarrow> q_frames h = NULL | a # _ \<Rightarrow> q_frames h = a \<and> seg h (as @ [a]))"

fun free_chain :: "'d qheap \<Rightarrow> addr \<Rightarrow> addr list \<Rightarrow> bool" where
  "free_chain h p [] = (p = NULL)"
| "free_chain h p (x # xs) = (p = x \<and> x \<noteq> NULL \<and> free_chain h (hnext h x) xs)"

definition heap_ok :: "'d qheap \<Rightarrow> addr list \<Rightarrow> addr list \<Rightarrow> bool" where
  "heap_ok h as fs \<longleftrightarrow>
     ring h as \<and> free_chain h (q_free h) fs \<and> distinct fs \<and> set as \<inter> set fs = {}"

definition frames_of :: "'d qheap \<Rightarrow> addr list \<Rightarrow> 'd jb_frame list" where
  "frames_of h as = map (hframe h) as"

lemma seg_append: "seg h (xs @ y # zs) \<longleftrightarrow> seg h (xs @ [y]) \<and> seg h (y # zs)"
  by (induction h xs rule: seg.induct) simp_all

lemma in_set_tlD: "x \<in> set (tl xs) \<Longrightarrow> x \<in> set xs"
  by (cases xs) auto

lemma seg_cong:
  "(\<And>x. x \<in> set (butlast xs) \<Longrightarrow> hnext h' x = hnext h x) \<Longrightarrow>
   (\<And>x. x \<in> set (tl xs) \<Longrightarrow> hprev h' x = hprev h x) \<Longrightarrow> seg h' xs = seg h xs"
  by (induction h xs rule: seg.induct) auto

lemma free_chain_cong:
  "(\<And>x. x \<in> set xs \<Longrightarrow> hnext h' x = hnext h x) \<Longrightarrow> free_chain h' p xs = free_chain h p xs"
  by (induction xs arbitrary: p) auto

lemma free_chain_distinct_head: "free_chain h p (x # xs) \<Longrightarrow> p = x"
  by simp

section \<open>Linking a cell into a ring\<close>

lemma link_before_fields:
  assumes "frame \<noteq> p" and "hprev h p \<noteq> frame"
  shows "hnext (link_before frame p h) = (hnext h)(frame := p, hprev h p := frame)"
    and "hprev (link_before frame p h) = (hprev h)(frame := hprev h p, p := frame)"
    and "hframe (link_before frame p h) = hframe h"
    and "q_frames (link_before frame p h) = q_frames h"
    and "q_free (link_before frame p h) = q_free h"
  using assms by (auto simp: heap_defs)

lemma seg_link_before:
  assumes "seg h (us @ [a, p] @ vs)" and "frame \<notin> set (us @ [a, p] @ vs)"
    and "a \<notin> set us" and "p \<notin> set vs" and "a \<notin> set (butlast (p # vs))" and "p \<notin> set (tl (us @ [a]))"
  shows "seg (link_before frame p h) (us @ [a, frame, p] @ vs)"
proof -
  have s: "seg h (us @ [a])" "hprev h p = a" "seg h (p # vs)"
    using assms(1) seg_append [of h us a "p # vs"] by auto
  let ?h = "link_before frame p h"
  have f: "frame \<noteq> p" "hprev h p \<noteq> frame" using assms(2) s(2) by auto
  note fields = link_before_fields [OF f]
  have "seg ?h (us @ [a]) = seg h (us @ [a])"
    using assms(2-6) by (intro seg_cong) (auto simp: fields s(2) butlast_append dest: in_set_tlD in_set_butlastD)
  moreover have "seg ?h (p # vs) = seg h (p # vs)"
    using assms(2-6) by (intro seg_cong) (auto simp: fields s(2) split: if_splits dest: in_set_butlastD)
  ultimately show ?thesis
    using s f seg_append [of ?h us a "frame # p # vs"] assms(2) by (auto simp: fields)
qed

lemma ring_prev:
  assumes "ring h (xs @ [x] @ ys)"
  shows "hprev h (hd (ys @ [q_frames h])) = x"
proof -
  let ?a = "hd (xs @ [x])"
  have a: "q_frames h = ?a" and "seg h ((xs @ [x] @ ys) @ [?a])"
    using assms by (cases xs; simp add: ring_def)+
  then have "seg h (xs @ x # (ys @ [?a]))" by simp
  then have "seg h (x # (ys @ [?a]))" using seg_append [of h xs x "ys @ [?a]"] by blast
  then show ?thesis using a by (cases ys) auto
qed

text \<open>A cell linked in front of the first cell of \<open>ys\<close>, or of the head if \<open>ys\<close> is empty.\<close>

lemma ring_link_before:
  assumes r: "ring h (xs @ ys)" and xs: "xs \<noteq> []" and f: "frame \<notin> set (xs @ ys)" "frame \<noteq> NULL"
  shows "ring (link_before frame (hd (ys @ [q_frames h])) h) (xs @ frame # ys)"
    and "\<And>z. z \<notin> set (xs @ ys) \<Longrightarrow> z \<noteq> frame \<Longrightarrow>
      hnext (link_before frame (hd (ys @ [q_frames h])) h) z = hnext h z"
    and "hframe (link_before frame (hd (ys @ [q_frames h])) h) = hframe h"
    and "q_frames (link_before frame (hd (ys @ [q_frames h])) h) = q_frames h"
    and "q_free (link_before frame (hd (ys @ [q_frames h])) h) = q_free h"
proof -
  obtain us a where us: "xs = us @ [a]" using xs by (cases xs rule: rev_cases) auto
  let ?a0 = "hd xs" and ?p = "hd (ys @ [q_frames h])"
  let ?h = "link_before frame ?p h"
  have dist: "distinct (us @ a # ys)" and q: "q_frames h = ?a0" and sg: "seg h ((us @ a # ys) @ [?a0])"
    using r xs by (auto simp: ring_def us split: list.splits) (cases us; auto)+
  have hp: "hprev h ?p = a" using ring_prev [of h us a ys] r us by simp
  have p: "?p \<in> set (xs @ ys)" using xs q by (cases ys) auto
  have ne: "frame \<noteq> ?p" "hprev h ?p \<noteq> frame" using f p hp us by auto
  note fields = link_before_fields [OF ne]
  show "\<And>z. z \<notin> set (xs @ ys) \<Longrightarrow> z \<noteq> frame \<Longrightarrow> hnext ?h z = hnext h z"
    using hp us by (auto simp: fields)
  show "hframe ?h = hframe h" "q_frames ?h = q_frames h" "q_free ?h = q_free h"
    by (simp_all add: fields)
  obtain vs where vs: "ys @ [?a0] = ?p # vs" using q by (cases ys) auto
  have "seg ?h (us @ [a, frame, ?p] @ vs)"
  proof (rule seg_link_before)
    show "seg h (us @ [a, ?p] @ vs)" using sg vs by simp
    have sv: "set (us @ [a, ?p] @ vs) = set (xs @ ys)"
      using vs q by (cases ys; cases us) (auto simp: us)
    show "frame \<notin> set (us @ [a, ?p] @ vs)" using f(1) sv by simp
    show "a \<notin> set us" using dist by simp
    show "?p \<notin> set vs"
      using vs dist by (cases ys) (auto simp: us hd_append split: if_splits)
    show "a \<notin> set (butlast (?p # vs))"
      using dist vs by (metis butlast_snoc distinct.simps(2) distinct_append)
    show "?p \<notin> set (tl (us @ [a]))"
      using dist q by (cases ys; cases us) (auto simp: us)
  qed
  moreover have "us @ [a, frame, ?p] @ vs = (xs @ frame # ys) @ [?a0]"
    using vs us by simp
  ultimately have "seg ?h ((xs @ frame # ys) @ [?a0])" by simp
  moreover obtain b rest where "xs = b # rest" using xs by (cases xs) auto
  ultimately show "ring ?h (xs @ frame # ys)"
    using f r q fields(4) by (simp add: ring_def)
qed

section \<open>The walk\<close>

lemma qwalk_ring:
  assumes "ring h (xs @ ys)" and "xs \<noteq> []"
  shows "\<exists>xs' zs. xs = xs' @ zs \<and> xs' \<noteq> []
    \<and> qwalk h (f_ts v) (hd (ys @ [q_frames h])) = Some (hd ((zs @ ys) @ [q_frames h]))
    \<and> rev (walk_back v (rev (frames_of h xs))) = frames_of h xs' @ v # frames_of h zs"
  using assms
proof (induction xs arbitrary: ys rule: rev_induct)
  case Nil
  then show ?case by simp
next
  case (snoc x xs)
  let ?p = "hd (ys @ [q_frames h])"
  have hp: "hprev h ?p = x" using ring_prev [of h xs x ys] snoc.prems(1) by simp
  have head: "x = q_frames h \<longleftrightarrow> xs = []"
    using snoc.prems(1) by (cases xs) (auto simp: ring_def)
  show ?case
  proof (cases "f_ts v < f_ts (hframe h x) \<and> xs \<noteq> []")
    case True
    have "ring h (xs @ x # ys)" using snoc.prems(1) by simp
    from snoc.IH [OF this] True obtain xs' zs where IH: "xs = xs' @ zs" "xs' \<noteq> []"
      "qwalk h (f_ts v) (hd ((x # ys) @ [q_frames h])) = Some (hd ((zs @ x # ys) @ [q_frames h]))"
      "rev (walk_back v (rev (frames_of h xs))) = frames_of h xs' @ v # frames_of h zs" by blast
    have "qwalk h (f_ts v) ?p = qwalk h (f_ts v) x"
      using True hp head by (simp add: qwalk.simps [of h "f_ts v" ?p])
    moreover have "walk_back v (rev (frames_of h (xs @ [x]))) = hframe h x # walk_back v (rev (frames_of h xs))"
      using True by (cases "rev (frames_of h xs)") (auto simp: frames_of_def)
    ultimately show ?thesis
      using IH by (intro exI [of _ xs'] exI [of _ "zs @ [x]"]) (simp add: frames_of_def)
  next
    case False
    have "qwalk h (f_ts v) ?p = Some ?p"
      using False hp head by (auto simp: qwalk.simps [of h "f_ts v" ?p])
    moreover have "walk_back v (rev (frames_of h (xs @ [x]))) = v # rev (frames_of h (xs @ [x]))"
      using False by (cases "rev (frames_of h xs)") (auto simp: frames_of_def)
    ultimately show ?thesis
      by (intro exI [of _ "xs @ [x]"] exI [of _ "[]"]) (simp add: frames_of_def)
  qed
qed

section \<open>Refinement\<close>

lemma ring_frames_head:
  "ring h as \<Longrightarrow> q_frames h = (if as = [] then NULL else hd as)"
  "ring h as \<Longrightarrow> q_frames h = NULL \<longleftrightarrow> as = []"
  by (cases as; auto simp: ring_def)+

lemma ring_cong_fields:
  "hnext h' = hnext h \<Longrightarrow> hprev h' = hprev h \<Longrightarrow> q_frames h' = q_frames h \<Longrightarrow> ring h' as = ring h as"
proof -
  assume e: "hnext h' = hnext h" "hprev h' = hprev h" "q_frames h' = q_frames h"
  have "seg h' xs = seg h xs" for xs using e by (intro seg_cong) simp_all
  with e(3) show ?thesis by (simp add: ring_def split: list.split)
qed

lemma free_chain_fields: "hnext h' = hnext h \<Longrightarrow> free_chain h' p xs = free_chain h p xs"
  by (rule free_chain_cong) simp

text \<open>Linking the new cell, wherever it came from, in a ring that does not hold it.\<close>

lemma qp_link:
  assumes r: "ring h as" and f: "frame \<notin> set as" "frame \<noteq> NULL" and v: "hframe h frame = v"
    and fc: "free_chain h (q_free h) fs" "frame \<notin> set fs" "set as \<inter> set fs = {}"
  shows "\<exists>h' as'.
    (if q_frames h = NULL then
       Some (True, set_prev frame frame (set_next frame frame (h\<lparr>q_frames := frame\<rparr>)))
     else if f_ts v < f_ts (hframe h (q_frames h)) then
       Some (True, (link_before frame (q_frames h) h)\<lparr>q_frames := frame\<rparr>)
     else (case qwalk h (f_ts v) (q_frames h) of None \<Rightarrow> None
           | Some p \<Rightarrow> Some (False, link_before frame p h)))
      = Some (as = [] \<or> f_ts v < f_ts (hd (frames_of h as)), h')
    \<and> ring h' as' \<and> set as' = insert frame (set as) \<and> free_chain h' (q_free h') fs
    \<and> frames_of h' as' = queue_insert v (frames_of h as)"
proof (cases as)
  case Nil
  let ?h = "set_prev frame frame (set_next frame frame (h\<lparr>q_frames := frame\<rparr>))"
  have "free_chain ?h (q_free h) fs = free_chain h (q_free h) fs"
    using fc(2) by (intro free_chain_cong) (auto simp: heap_defs)
  then have "ring ?h [frame] \<and> free_chain ?h (q_free ?h) fs"
    using f fc(1) by (simp add: ring_def heap_defs)
  with Nil r v show ?thesis
    by (intro exI [of _ ?h] exI [of _ "[frame]"])
      (simp add: ring_frames_head frames_of_def queue_insert_def heap_defs)
next
  case (Cons a as0)
  have q: "q_frames h = a" "a \<noteq> NULL" using r Cons by (auto simp: ring_def)
  have keep: "free_chain h' (q_free h) fs"
    if "\<And>z. z \<notin> set as \<Longrightarrow> z \<noteq> frame \<Longrightarrow> hnext h' z = hnext h z" for h' :: "'a qheap"
    using fc that free_chain_cong [of fs h' h "q_free h"] by blast
  show ?thesis
  proof (cases "f_ts v < f_ts (hframe h a)")
    case True
    let ?h = "link_before frame a h"
    have "ring h (as @ [])" "as \<noteq> []" "frame \<notin> set (as @ [])" using r f Cons by simp_all
    note ins = ring_link_before [OF this f(2)]
    have "seg ?h (as @ frame # [a])" using ins(1) q Cons by (simp add: ring_def)
    then have "seg ?h [frame, a]" and sg: "seg ?h (as @ [frame])"
      using seg_append [of ?h as frame "[a]"] by blast+
    then have l: "hnext ?h frame = a" "hprev ?h a = frame" by simp_all
    with sg l f ins(1) q Cons have "ring (?h\<lparr>q_frames := frame\<rparr>) (frame # as)"
      using seg_cong [of "frame # as @ [frame]" "?h\<lparr>q_frames := frame\<rparr>" ?h] by (auto simp: ring_def)
    moreover have "free_chain (?h\<lparr>q_frames := frame\<rparr>) (q_free (?h\<lparr>q_frames := frame\<rparr>)) fs"
      using keep [of ?h] ins(2,5) q free_chain_fields [of "?h\<lparr>q_frames := frame\<rparr>" ?h] by simp
    moreover have "frames_of (?h\<lparr>q_frames := frame\<rparr>) (frame # as) = queue_insert v (frames_of h as)"
      using ins(3) q v True Cons by (simp add: frames_of_def queue_insert_def)
    ultimately show ?thesis
      using True q Cons by (intro exI [of _ "?h\<lparr>q_frames := frame\<rparr>"] exI [of _ "frame # as"])
        (simp add: frames_of_def)
  next
    case False
    from qwalk_ring [of h as "[]" v] r Cons obtain xs zs where w: "as = xs @ zs" "xs \<noteq> []"
      "qwalk h (f_ts v) a = Some (hd (zs @ [a]))"
      "rev (walk_back v (rev (frames_of h as))) = frames_of h xs @ v # frames_of h zs"
      using q by auto
    let ?h = "link_before frame (hd (zs @ [a])) h"
    note ins = ring_link_before [of h xs zs frame, unfolded q(1), OF r [unfolded w(1)] w(2) f [unfolded w(1)]]
    have "free_chain ?h (q_free ?h) fs" using keep [of ?h] ins(2,5) w(1) by simp
    moreover have "frames_of ?h (xs @ frame # zs) = queue_insert v (frames_of h as)"
      using ins(3) v w(4) False Cons by (simp add: frames_of_def queue_insert_def)
    moreover have "set (xs @ frame # zs) = insert frame (set as)" using w(1) by auto
    moreover have "\<not> f_ts v < f_ts (hd (frames_of h as))" using False Cons by (simp add: frames_of_def)
    ultimately show ?thesis
      using False q ins(1) w(3) \<open>as = a # as0\<close> by (intro exI [of _ ?h] exI [of _ "xs @ frame # zs"]) simp
  qed
qed

text \<open>A ring of one cell, for the examples.\<close>

definition JF :: "'d \<Rightarrow> int \<Rightarrow> int \<Rightarrow> 'd jb_frame" where
  "JF d ts ms = \<lparr>f_data = d, f_ts = ts, f_ms = ms, f_type = JB_TYPE_VOICE\<rparr>"

definition ex_ring :: "int qheap" where
  "ex_ring = \<lparr>hnext = (\<lambda>_. 0)(8 := 8), hprev = (\<lambda>_. 0)(8 := 8), hframe = (\<lambda>_. JF 7 10 20),
     q_frames = 8, q_free = 0\<rparr>"

lemma ex_ring_ok: "heap_ok ex_ring [8] []"
  by (simp add: heap_ok_def ring_def ex_ring_def)

text \<open>C4. The pointer manipulations of \<^verbatim>\<open>queue_put\<close> implement the ordered insertion: on a heap whose ring
  is well linked and kept apart from the free list, the walk ends, the new cell comes from the
  free list if it has one and from the allocator otherwise, the ring afterwards is well linked,
  it holds the frames of \<open>queue_insert\<close>, and the result says whether the frame became the head.
  If the allocator fails nothing changes.\<close>

theorem qp_put_refines:
  assumes ok: "heap_ok h as fs" and fresh: "fs = [] \<Longrightarrow> fresh \<notin> set as"
  shows "if fs = [] \<and> fresh = NULL then qp_put fresh v h = Some (False, h)
    else \<exists>h' as'. qp_put fresh v h
           = Some (as = [] \<or> f_ts v < f_ts (hd (frames_of h as)), h')
         \<and> heap_ok h' as' (tl fs) \<and> frames_of h' as' = queue_insert v (frames_of h as)"
proof (cases "fs = [] \<and> fresh = NULL")
  case True
  with ok show ?thesis by (simp add: qp_put_def heap_ok_def)
next
  case False
  define frame where "frame = (if fs = [] then fresh else hd fs)"
  define h1 where "h1 = (if fs = [] then h else h\<lparr>q_free := hnext h (q_free h)\<rparr>)"
  let ?h2 = "set_frame frame v h1"
  have alloc: "(if q_free h \<noteq> NULL then (q_free h, h\<lparr>q_free := hnext h (q_free h)\<rparr>) else (fresh, h))
      = (frame, h1)"
    using ok by (cases fs) (auto simp: heap_ok_def frame_def h1_def)
  have f: "frame \<notin> set as" "frame \<noteq> NULL" "frame \<notin> set (tl fs)"
    using ok fresh False by (cases fs; auto simp: heap_ok_def frame_def)+
  have "ring ?h2 as"
    using ok ring_cong_fields [of ?h2 h as] by (simp add: heap_ok_def h1_def set_frame_def)
  moreover have "free_chain ?h2 (q_free ?h2) (tl fs)"
    using ok free_chain_fields [of ?h2 h] by (cases fs) (auto simp: heap_ok_def h1_def set_frame_def)
  moreover have "set as \<inter> set (tl fs) = {}" "distinct (tl fs)"
    using ok by (cases fs; auto simp: heap_ok_def)+
  moreover have "frames_of ?h2 as = frames_of h as"
    using f(1) by (auto simp: frames_of_def set_frame_def h1_def)
  moreover have "hframe ?h2 frame = v" by (simp add: set_frame_def)
  ultimately obtain h' as' where l: "qp_put fresh v h
      = Some (as = [] \<or> f_ts v < f_ts (hd (frames_of h as)), h')"
    "ring h' as'" "set as' = insert frame (set as)" "free_chain h' (q_free h') (tl fs)"
    "frames_of h' as' = queue_insert v (frames_of h as)" and "distinct (tl fs)" "set as \<inter> set (tl fs) = {}"
    using qp_link [of ?h2 as frame v "tl fs"] f
    unfolding qp_put_def alloc by (auto simp: Let_def)
  then have "heap_ok h' as' (tl fs)" using f by (simp add: heap_ok_def)
  with l(1,5) False show ?thesis by auto
qed

theorem qp_put_refines_witness:
  "\<exists>h' as'. qp_put 5 (JF 1 20 20) ex_ring = Some (False, h') \<and> heap_ok h' as' []
     \<and> frames_of h' as' = [JF 7 10 20, JF 1 20 20]"
proof -
  have f: "frames_of ex_ring [8] = [JF 7 10 20]" by (simp add: frames_of_def ex_ring_def)
  have "queue_insert (JF 1 20 20) [JF 7 10 20] = [JF 7 10 20, JF (1::int) 20 20]"
    by (simp add: queue_insert_def place_after_def JF_def)
  with qp_put_refines [OF ex_ring_ok, of 5 "JF 1 20 20"] show ?thesis
    by (auto simp: f JF_def)
qed

text \<open>C14. The pointer manipulations of \<^verbatim>\<open>_queue_get\<close> implement the removal of the head: the first cell is
  handed out if it is due, or in any case if all are asked for; the rest of the ring stays well
  linked in the same order, the cell goes to the front of the free list with its frame still in it;
  otherwise, and on an empty ring, the heap is left alone.\<close>

theorem qp_get_refines:
  assumes ok: "heap_ok h as fs"
  shows "case as of
      [] \<Rightarrow> qp_get ts all h = (NULL, h)
    | a # as' \<Rightarrow>
        if all \<or> f_ts (hframe h a) \<le> ts then
          \<exists>h'. qp_get ts all h = (a, h') \<and> heap_ok h' as' (a # fs) \<and> hframe h' = hframe h
        else qp_get ts all h = (NULL, h)"
proof (cases as)
  case Nil
  with ok show ?thesis by (simp add: qp_get_def heap_ok_def ring_def)
next
  case (Cons a as')
  have q: "q_frames h = a" "a \<noteq> NULL" "distinct (a # as')" "NULL \<notin> set as'" "seg h (a # as' @ [a])"
    using ok Cons by (auto simp: heap_ok_def ring_def)
  show ?thesis
  proof (cases "all \<or> f_ts (hframe h a) \<le> ts")
    case False
    with q Cons show ?thesis by (auto simp: qp_get_def Let_def)
  next
    case due: True
    show ?thesis
    proof (cases as')
      case Nil
      with q have one: "hnext h a = a" "hprev h a = a" by simp_all
      let ?h = "set_next a (q_free h) (set_prev a a (set_next a a h))\<lparr>q_frames := NULL, q_free := a\<rparr>"
      have "qp_get ts all h = (a, ?h)"
        using q due one by (simp add: qp_get_def heap_defs)
      moreover have "free_chain ?h (q_free h) fs = free_chain h (q_free h) fs"
        using ok Cons by (intro free_chain_cong) (auto simp: heap_defs heap_ok_def)
      then have "heap_ok ?h as' (a # fs)"
        using ok Cons Nil by (auto simp: heap_ok_def ring_def heap_defs)
      ultimately show ?thesis
        using due Cons by (auto simp: heap_defs)
    next
      case (Cons b rest)
      obtain us l where l: "as' = us @ [l]" using Cons by (metis list.discI rev_exhaust)
      have seg': "seg h (us @ [l])" "hprev h a = l" "hnext h a = b"
        using q(5) l Cons seg_append [of h "a # us" l "[a]"] seg_append [of h "[a]" b "rest @ [a]"]
          seg_append [of h "[]" a "us @ [l]"] by (auto simp: Cons_eq_append_conv)
      have "b \<in> set as'" "l \<in> set as'" by (simp add: Cons, simp add: l)
      then have neq: "a \<noteq> b" "l \<noteq> a" using q(3) by auto
      let ?h = "set_next a (q_free h) (set_prev b l (set_next l b h))\<lparr>q_frames := b, q_free := a\<rparr>"
      have "qp_get ts all h = (a, ?h)"
        using q due seg' neq by (simp add: qp_get_def heap_defs fun_upd_twist)
      moreover have "free_chain ?h (q_free h) fs = free_chain h (q_free h) fs"
        using ok \<open>as = a # as'\<close> l by (intro free_chain_cong) (auto simp: heap_defs heap_ok_def)
      moreover have "a \<notin> set as'" "b \<notin> set (tl as')" "l \<notin> set (butlast as')"
        using q(3) by (simp, simp add: Cons, simp add: l)
      then have "seg ?h as' = seg h as'"
        using neq by (intro seg_cong) (auto simp: heap_defs dest: in_set_tlD in_set_butlastD)
      then have "seg ?h (as' @ [b])"
        using seg' l neq seg_append [of ?h us l "[b]"] by (auto simp: heap_defs)
      ultimately show ?thesis
        using ok due q Cons \<open>as = a # as'\<close> by (auto simp: heap_ok_def ring_def heap_defs)
    qed
  qed
qed

theorem qp_get_refines_witness:
  "\<exists>h'. qp_get 10 False ex_ring = (8, h') \<and> heap_ok h' [] [8]"
  using qp_get_refines [OF ex_ring_ok, of 10 False] by (auto simp: ex_ring_def JF_def)

section \<open>Destruction\<close>

text \<open>\<^verbatim>\<open>jb_destroy\<close>: the addresses handed to \<^verbatim>\<open>free\<close>, before the buffer itself.\<close>

partial_function (option) qp_destroy :: "'d qheap \<Rightarrow> addr \<Rightarrow> addr list option" where
  "qp_destroy h frame =
     (if frame \<noteq> NULL then
        Option.bind (qp_destroy h (hnext h frame)) (\<lambda>fs. Some (frame # fs))
      else Some [])"

lemma qp_destroy_frees:
  "free_chain h p fs \<Longrightarrow> qp_destroy h p = Some fs"
proof (induction fs arbitrary: p)
  case Nil
  then show ?case by (simp add: qp_destroy.simps)
next
  case (Cons a fs)
  then show ?case by (subst qp_destroy.simps) auto
qed

text \<open>Destruction releases each cell of the free list once and no cell of the queue: what is still
  queued is not freed, so the caller has to drain the queue before.\<close>

lemma destroy_frees_free_list:
  assumes "heap_ok h as fs"
  shows "qp_destroy h (q_free h) = Some fs \<and> distinct fs \<and> set fs \<inter> set as = {}"
  using assms qp_destroy_frees by (auto simp: heap_ok_def)

end
