(* ===== verification/FixedJb.thy ===== *)
theory FixedJb
  imports Prelude
begin

text \<open>
  The jitter buffer of constant delay of main/fixedjitterbuf.c. The doubly linked frames are a list in the order
  of the chain, the tail its last entry; \<open>long\<close> is \<open>int\<close>. The data of a frame is not NULL, and allocations
  succeed (the code does not check the one of a frame). A failed assertion is the outcome Aborted.
  The functions \<open>fixed_jb_put\<close>, \<open>resynch_jb\<close> and \<open>fixed_jb_put_first\<close> call each other; fuel bounds the calls.
\<close>

datatype fixed_code = FIXED_JB_OK | FIXED_JB_DROP | FIXED_JB_INTERP | FIXED_JB_NOFRAME

abbreviation (input) FIXED_JB_SIZE_DEFAULT :: int where "FIXED_JB_SIZE_DEFAULT \<equiv> 200"
abbreviation (input) FIXED_JB_RESYNCH_THRESHOLD_DEFAULT :: int where "FIXED_JB_RESYNCH_THRESHOLD_DEFAULT \<equiv> 1000"

record fixed_jb_conf =
  jbsize :: int
  resync_threshold :: int

record 'd fixed_jb_frame =
  fx_data :: 'd
  fx_ts :: int
  fx_ms :: int
  fx_delivery :: int

record 'd fixed_jb =
  fx_frames :: "'d fixed_jb_frame list"
  fx_conf :: fixed_jb_conf
  rxcore :: int
  fx_delay :: int
  next_delivery :: int
  force_resynch :: bool

datatype 'a attempt = OutOfFuel | Aborted | Done 'a

section \<open>Making and destroying a buffer\<close>

definition fixed_jb_new :: "fixed_jb_conf \<Rightarrow> 'd fixed_jb" where
  "fixed_jb_new c =
    (let c1 = (if jbsize c < 1 then c\<lparr>jbsize := FIXED_JB_SIZE_DEFAULT\<rparr> else c);
         c2 = (if resync_threshold c1 < 1 then c1\<lparr>resync_threshold := FIXED_JB_RESYNCH_THRESHOLD_DEFAULT\<rparr> else c1)
     in \<lparr>fx_frames = [], fx_conf = c2, rxcore = 0, fx_delay = jbsize c2, next_delivery = 0, force_resynch = False\<rparr>)"

definition fixed_jb_destroy :: "'d fixed_jb \<Rightarrow> unit attempt" where
  "fixed_jb_destroy jb = (if fx_frames jb = [] then Done () else Aborted)"

definition fixed_jb_set_force_resynch :: "'d fixed_jb \<Rightarrow> 'd fixed_jb" where
  "fixed_jb_set_force_resynch jb = jb\<lparr>force_resynch := True\<rparr>"

section \<open>Putting a frame\<close>

text \<open>The walk from the tail: the frames up to the first one that is not later, last first, and those behind it.\<close>

fun fx_walk :: "int \<Rightarrow> 'd fixed_jb_frame list \<Rightarrow> 'd fixed_jb_frame list
    \<Rightarrow> 'd fixed_jb_frame list \<times> 'd fixed_jb_frame list" where
  "fx_walk d [] later = ([], later)"
| "fx_walk d (frame # prev) later =
    (if fx_delivery frame > d then fx_walk d prev (frame # later) else (frame # prev, later))"

definition fx_covered :: "int \<Rightarrow> int \<Rightarrow> 'd fixed_jb_frame list \<times> 'd fixed_jb_frame list \<Rightarrow> bool" where
  "fx_covered d ms place =
    (case fst place of [] \<Rightarrow> False
     | frame # _ \<Rightarrow> fx_delivery frame = d \<or> d < fx_delivery frame + fx_ms frame
         \<or> (case snd place of [] \<Rightarrow> False | next_frame # _ \<Rightarrow> d + ms > fx_delivery next_frame))"

text \<open>What \<open>resynch_jb\<close> does to the buffer.\<close>

definition fx_shift :: "int \<Rightarrow> 'd fixed_jb \<Rightarrow> 'd fixed_jb" where
  "fx_shift off jb = jb\<lparr>force_resynch := False, rxcore := rxcore jb - off,
     fx_frames := map (\<lambda>f. f\<lparr>fx_ts := fx_ts f + off\<rparr>) (fx_frames jb)\<rparr>"

function fixed_jb_put :: "nat \<Rightarrow> 'd \<Rightarrow> int \<Rightarrow> int \<Rightarrow> int \<Rightarrow> 'd fixed_jb \<Rightarrow> (fixed_code \<times> 'd fixed_jb) attempt"
  and resynch_jb :: "nat \<Rightarrow> 'd \<Rightarrow> int \<Rightarrow> int \<Rightarrow> int \<Rightarrow> 'd fixed_jb \<Rightarrow> (fixed_code \<times> 'd fixed_jb) attempt"
  and fixed_jb_put_first :: "nat \<Rightarrow> 'd \<Rightarrow> int \<Rightarrow> int \<Rightarrow> int \<Rightarrow> 'd fixed_jb \<Rightarrow> (fixed_code \<times> 'd fixed_jb) attempt"
where
  "fixed_jb_put 0 data ms ts now jb = OutOfFuel"
| "fixed_jb_put (Suc n) data ms ts now jb =
    (if ms < 2 \<or> ts < 0 \<or> now < 0 then Aborted
     else
       (let delivery = rxcore jb + fx_delay jb + ts
        in if delivery < next_delivery jb then resynch_jb n data ms ts now jb
           else if delivery > next_delivery jb + fx_delay jb + resync_threshold (fx_conf jb)
           then resynch_jb n data ms ts now jb
           else
             (let place = fx_walk delivery (rev (fx_frames jb)) []
              in if fx_covered delivery ms place then resynch_jb n data ms ts now jb
                 else Done (FIXED_JB_OK,
                   jb\<lparr>force_resynch := False,
                      fx_frames := rev (fst place)
                        @ \<lparr>fx_data = data, fx_ts = ts, fx_ms = ms, fx_delivery = delivery\<rparr> # snd place\<rparr>))))"
| "resynch_jb n data ms ts now jb =
    (if fx_frames jb = [] then fixed_jb_put_first n data ms ts now jb
     else
       (let tail = last (fx_frames jb); off = (ts - fx_ts tail) - fx_ms tail
        in if \<not> force_resynch jb \<and> off < resync_threshold (fx_conf jb) \<and> off > - resync_threshold (fx_conf jb)
           then Done (FIXED_JB_DROP, jb)
           else fixed_jb_put n data ms ts now (fx_shift off jb)))"
| "fixed_jb_put_first n data ms ts now jb =
    fixed_jb_put n data ms ts now (jb\<lparr>rxcore := now - ts, next_delivery := now + fx_delay jb\<rparr>)"
  by pat_completeness auto

termination
  by (relation "measure (case_sum (\<lambda>(n, _). 3 * n) (case_sum (\<lambda>(n, _). 3 * n + 2) (\<lambda>(n, _). 3 * n + 1)))") auto

declare fixed_jb_put.simps [simp del] resynch_jb.simps [simp del] fixed_jb_put_first.simps [simp del]

section \<open>Taking a frame\<close>

definition get_jb_head :: "'d fixed_jb \<Rightarrow> 'd fixed_jb_frame \<times> 'd fixed_jb" where
  "get_jb_head jb =
    (let fr = hd (fx_frames jb)
     in (fr, jb\<lparr>fx_frames := tl (fx_frames jb), next_delivery := fx_delivery fr + fx_ms fr\<rparr>))"

text \<open>The second component is the frame that is copied out, if one is.\<close>

definition fixed_jb_get ::
  "int \<Rightarrow> int \<Rightarrow> 'd fixed_jb \<Rightarrow> (fixed_code \<times> 'd fixed_jb_frame option \<times> 'd fixed_jb) attempt" where
  "fixed_jb_get now interpl jb =
    (if now < 0 \<or> interpl < 2 then Aborted
     else if now < next_delivery jb then Done (FIXED_JB_NOFRAME, None, jb)
     else
       (case fx_frames jb of
          [] \<Rightarrow> Done (FIXED_JB_INTERP, None, jb\<lparr>next_delivery := next_delivery jb + interpl\<rparr>)
        | fr # _ \<Rightarrow>
           if now > fx_delivery fr + fx_ms fr
           then (case get_jb_head jb of (f, jb') \<Rightarrow> Done (FIXED_JB_DROP, Some f, jb'))
           else if now < fx_delivery fr
           then Done (FIXED_JB_INTERP, None, jb\<lparr>next_delivery := next_delivery jb + interpl\<rparr>)
           else (case get_jb_head jb of (f, jb') \<Rightarrow> Done (FIXED_JB_OK, Some f, jb'))))"

definition fixed_jb_next :: "'d fixed_jb \<Rightarrow> int" where
  "fixed_jb_next jb = next_delivery jb"

definition fixed_jb_remove :: "'d fixed_jb \<Rightarrow> fixed_code \<times> 'd fixed_jb_frame option \<times> 'd fixed_jb" where
  "fixed_jb_remove jb =
    (if fx_frames jb = [] then (FIXED_JB_NOFRAME, None, jb)
     else case get_jb_head jb of (f, jb') \<Rightarrow> (FIXED_JB_OK, Some f, jb'))"

end
