(* ===== verification/FixedJbProps.thy ===== *)
theory FixedJbProps
  imports FixedJb
begin

text \<open>
  The jitter buffer of constant delay: its invariant, \<open>fixed_jb_put\<close> as a function without recursion, and what
  becomes of the frames over a run of operations.
\<close>

section \<open>The invariant\<close>

text \<open>
  The frames are in the order of their delivery, which is the constant delay behind the receiver's time of their
  stamp. (The times the frames cover may overlap: a frame in front of the first one is not compared with it.)
\<close>

definition fx_inv :: "'d fixed_jb \<Rightarrow> bool" where
  "fx_inv jb \<longleftrightarrow> 1 \<le> resync_threshold (fx_conf jb) \<and> 1 \<le> fx_delay jb
    \<and> sorted_wrt (<) (map fx_delivery (fx_frames jb))
    \<and> (\<forall>f \<in> set (fx_frames jb). fx_delivery f = rxcore jb + fx_delay jb + fx_ts f \<and> 2 \<le> fx_ms f)"

definition fx_free :: "int \<Rightarrow> int \<Rightarrow> 'd fixed_jb_frame list \<Rightarrow> bool" where
  "fx_free d ms fs \<longleftrightarrow>
    (let before = filter (\<lambda>f. fx_delivery f \<le> d) fs; after = filter (\<lambda>f. fx_delivery f > d) fs
     in before = [] \<or> fx_delivery (last before) + fx_ms (last before) \<le> d
          \<and> (after = [] \<or> d + ms \<le> fx_delivery (hd after)))"

definition fx_accepts :: "int \<Rightarrow> int \<Rightarrow> 'd fixed_jb \<Rightarrow> bool" where
  "fx_accepts d ms jb \<longleftrightarrow> next_delivery jb \<le> d \<and> d \<le> next_delivery jb + fx_delay jb + resync_threshold (fx_conf jb)
    \<and> fx_free d ms (fx_frames jb)"

definition fx_insert :: "'d \<Rightarrow> int \<Rightarrow> int \<Rightarrow> int \<Rightarrow> 'd fixed_jb \<Rightarrow> 'd fixed_jb" where
  "fx_insert data ms ts d jb = jb\<lparr>force_resynch := False,
     fx_frames := place_after fx_delivery \<lparr>fx_data = data, fx_ts = ts, fx_ms = ms, fx_delivery = d\<rparr> (fx_frames jb)\<rparr>"

lemma last_latest: "sorted_wrt (<) (map k fs) \<Longrightarrow> f \<in> set fs \<Longrightarrow> k f \<le> (k (last fs) :: int)"
  by (induction fs) (auto split: if_splits dest: less_imp_le)

lemma walk_sorted:
  "sorted_wrt (<) (map fx_delivery fs) \<Longrightarrow>
    fx_walk d (rev fs) later = (rev (filter (\<lambda>f. fx_delivery f \<le> d) fs), filter (\<lambda>f. fx_delivery f > d) fs @ later)"
proof (induction fs arbitrary: later rule: rev_induct)
  case (snoc f fs)
  show ?case
  proof (cases "fx_delivery f > d")
    case True
    then show ?thesis using snoc by (simp add: sorted_wrt_append)
  next
    case False
    then have "\<forall>g \<in> set fs. fx_delivery g \<le> d" using snoc.prems by (fastforce simp: sorted_wrt_append)
    then have "filter (\<lambda>f. fx_delivery f \<le> d) fs = fs" "filter (\<lambda>f. fx_delivery f > d) fs = []"
      by (auto simp: filter_empty_conv)
    then show ?thesis using False by simp
  qed
qed simp

lemma place_sorted:
  "sorted_wrt (<) (map k fs) \<Longrightarrow>
    place_after k x fs = filter (\<lambda>f. k f \<le> k x) fs @ x # filter (\<lambda>f. k f > k x) fs"
  for k :: "'a \<Rightarrow> int"
proof (induction fs)
  case (Cons f fs)
  show ?case
  proof (cases "k f \<le> k x")
    case False
    then have "\<forall>g \<in> set fs. k x < k g" using Cons.prems by auto
    then have "filter (\<lambda>f. k f \<le> k x) fs = []" "filter (\<lambda>f. k f > k x) fs = fs" by (auto simp: filter_empty_conv)
    then show ?thesis using False by simp
  qed (use Cons in simp)
qed simp

lemma covered_free:
  assumes "\<forall>f \<in> set fs. 2 \<le> fx_ms f"
  shows "fx_covered d ms (rev (filter (\<lambda>f. fx_delivery f \<le> d) fs), filter (\<lambda>f. fx_delivery f > d) fs) \<longleftrightarrow>
    \<not> fx_free d ms fs"
proof (cases "filter (\<lambda>f. fx_delivery f \<le> d) fs" rule: rev_cases)
  case (snoc before f)
  have "f \<in> set (filter (\<lambda>f. fx_delivery f \<le> d) fs)" unfolding snoc by simp
  then have "2 \<le> fx_ms f" using assms by simp
  then show ?thesis using snoc by (auto simp: fx_covered_def fx_free_def split: list.split)
qed (simp add: fx_covered_def fx_free_def)

lemma put_step:
  assumes "fx_inv jb" "2 \<le> ms" "0 \<le> ts" "0 \<le> now"
  shows "fixed_jb_put (Suc n) data ms ts now jb =
    (let d = rxcore jb + fx_delay jb + ts
     in if fx_accepts d ms jb then Done (FIXED_JB_OK, fx_insert data ms ts d jb) else resynch_jb n data ms ts now jb)"
proof -
  have s: "sorted_wrt (<) (map fx_delivery (fx_frames jb))" "\<forall>f \<in> set (fx_frames jb). 2 \<le> fx_ms f"
    using assms(1) by (auto simp: fx_inv_def)
  show ?thesis
    using assms(2-)
    by (auto simp: Let_def fx_accepts_def fx_insert_def walk_sorted [OF s(1)] covered_free [OF s(2)] place_sorted [OF s(1)]
        fixed_jb_put.simps)
qed

section \<open>Putting, without recursion\<close>

text \<open>
  A frame that is not accepted starts the buffer anew when it is empty. Otherwise it is dropped, unless
  its stamp is far from where the last frame ends or a resynchronisation was asked for: then the stamps are
  shifted so that it follows the last frame, and it is looked at once more.
\<close>

definition fx_put :: "'d \<Rightarrow> int \<Rightarrow> int \<Rightarrow> int \<Rightarrow> 'd fixed_jb \<Rightarrow> fixed_code \<times> 'd fixed_jb" where
  "fx_put data ms ts now jb =
    (let d = rxcore jb + fx_delay jb + ts; tail = last (fx_frames jb);
         off = ts - (fx_ts tail + fx_ms tail); behind = fx_delivery tail + fx_ms tail
     in if fx_accepts d ms jb then (FIXED_JB_OK, fx_insert data ms ts d jb)
        else if fx_frames jb = []
        then (FIXED_JB_OK, fx_insert data ms ts (now + fx_delay jb)
                (jb\<lparr>rxcore := now - ts, next_delivery := now + fx_delay jb\<rparr>))
        else if \<not> force_resynch jb \<and> \<bar>off\<bar> < resync_threshold (fx_conf jb) then (FIXED_JB_DROP, jb)
        else if next_delivery jb \<le> behind \<and> behind \<le> next_delivery jb + fx_delay jb + resync_threshold (fx_conf jb)
        then (FIXED_JB_OK, fx_insert data ms ts behind (fx_shift off jb))
        else (FIXED_JB_DROP, fx_shift off jb))"

lemma inv_insert:
  assumes "fx_inv jb" "2 \<le> ms" "d = rxcore jb + fx_delay jb + ts" "fx_free d ms (fx_frames jb)"
  shows "fx_inv (fx_insert data ms ts d jb)"
proof -
  have s: "sorted_wrt (<) (map fx_delivery (fx_frames jb))" using assms(1) by (simp add: fx_inv_def)
  have apart: "fx_delivery f \<noteq> d" if "f \<in> set (fx_frames jb)" for f
  proof
    assume d: "fx_delivery f = d"
    let ?before = "filter (\<lambda>f. fx_delivery f \<le> d) (fx_frames jb)"
    have f: "f \<in> set ?before" using that d by simp
    then have ne: "?before \<noteq> []" by (metis empty_iff empty_set)
    then have "last ?before \<in> set ?before" by (rule last_in_set)
    then have "2 \<le> fx_ms (last ?before)" using assms(1) by (auto simp: fx_inv_def)
    moreover have "d \<le> fx_delivery (last ?before)"
      using last_latest [OF _ f, of fx_delivery] s d by (simp add: sorted_wrt_map sorted_wrt_filter)
    moreover have "fx_delivery (last ?before) + fx_ms (last ?before) \<le> d"
      using assms(4) ne unfolding fx_free_def Let_def by blast
    ultimately show False by simp
  qed
  have "sorted_wrt (<) (map fx_delivery (place_after fx_delivery
      \<lparr>fx_data = data, fx_ts = ts, fx_ms = ms, fx_delivery = d\<rparr> (fx_frames jb)))"
    using s apart by (fastforce simp: place_sorted [OF s] sorted_wrt_map sorted_wrt_append sorted_wrt_filter)
  then show ?thesis using assms(1-3) by (simp add: fx_inv_def fx_insert_def)
qed

lemma inv_shift: "fx_inv jb \<Longrightarrow> fx_inv (fx_shift off jb)"
  by (simp add: fx_inv_def fx_shift_def comp_def)

lemma inv_base: "fx_inv jb \<Longrightarrow> fx_frames jb = [] \<Longrightarrow> fx_inv (jb\<lparr>rxcore := r, next_delivery := n\<rparr>)"
  by (simp add: fx_inv_def)

lemma free_behind:
  assumes "fx_inv jb" "fx_frames jb \<noteq> []" "tail = last (fx_frames jb)"
  shows "fx_free (fx_delivery tail + fx_ms tail) ms (fx_frames jb)"
proof -
  have "fx_delivery f \<le> fx_delivery tail" if "f \<in> set (fx_frames jb)" for f
    using last_latest [OF _ that, of fx_delivery] assms unfolding fx_inv_def by blast
  moreover have "2 \<le> fx_ms tail" using assms by (simp add: fx_inv_def)
  ultimately have "filter (\<lambda>f. fx_delivery f \<le> fx_delivery tail + fx_ms tail) (fx_frames jb) = fx_frames jb"
    "filter (\<lambda>f. fx_delivery f > fx_delivery tail + fx_ms tail) (fx_frames jb) = []"
    by (force simp: filter_empty_conv intro!: filter_True)+
  then show ?thesis using assms(3) by (simp add: fx_free_def)
qed

text \<open>The first frame of an empty buffer is always accepted, the delay from now on.\<close>

lemma first_accepted:
  assumes "fx_inv jb" "fx_frames jb = []" "2 \<le> ms" "0 \<le> ts" "0 \<le> now"
  shows "fixed_jb_put_first (Suc n) data ms ts now jb =
      Done (FIXED_JB_OK, fx_insert data ms ts (now + fx_delay jb) (jb\<lparr>rxcore := now - ts, next_delivery := now + fx_delay jb\<rparr>))
    \<and> fx_inv (fx_insert data ms ts (now + fx_delay jb) (jb\<lparr>rxcore := now - ts, next_delivery := now + fx_delay jb\<rparr>))"
proof -
  let ?jb = "jb\<lparr>rxcore := now - ts, next_delivery := now + fx_delay jb\<rparr>"
  have inv: "fx_inv ?jb" by (rule inv_base [OF assms(1,2)])
  have acc: "fx_accepts (now + fx_delay jb) ms ?jb" using assms(1,2) by (simp add: fx_accepts_def fx_free_def fx_inv_def)
  show ?thesis
    using put_step [OF inv assms(3-), of n data] inv_insert [OF inv assms(3), of "now + fx_delay jb" ts data] acc
    by (simp add: Let_def fx_accepts_def fixed_jb_put_first.simps)
qed

text \<open>C28. Putting a frame ends: although the three functions call each other, two rounds are enough for every
  buffer that keeps the invariant, and the result is that of \<open>fx_put\<close>, which also keeps it.\<close>

theorem fixed_jb_put_ends:
  assumes "fx_inv jb" "2 \<le> ms" "0 \<le> ts" "0 \<le> now" "2 \<le> n"
  shows "fixed_jb_put n data ms ts now jb = Done (fx_put data ms ts now jb) \<and> fx_inv (snd (fx_put data ms ts now jb))"
proof -
  obtain k where n: "n = Suc (Suc k)" using assms(5) by (metis add_2_eq_Suc le_Suc_ex)
  let ?d = "rxcore jb + fx_delay jb + ts" and ?tail = "last (fx_frames jb)"
  let ?off = "ts - (fx_ts ?tail + fx_ms ?tail)" and ?behind = "fx_delivery ?tail + fx_ms ?tail"
  note step = put_step [OF assms(1-4)]
  consider (ok) "fx_accepts ?d ms jb" | (first) "\<not> fx_accepts ?d ms jb" "fx_frames jb = []"
    | (drop) "\<not> fx_accepts ?d ms jb" "fx_frames jb \<noteq> []" "\<not> force_resynch jb" "\<bar>?off\<bar> < resync_threshold (fx_conf jb)"
    | (shift) "\<not> fx_accepts ?d ms jb" "fx_frames jb \<noteq> []" "force_resynch jb \<or> \<not> \<bar>?off\<bar> < resync_threshold (fx_conf jb)"
    by blast
  then show ?thesis
  proof cases
    case ok
    then show ?thesis using inv_insert [OF assms(1,2) refl] by (simp add: n step fx_put_def fx_accepts_def Let_def)
  next
    case first
    show ?thesis
      using first first_accepted [OF assms(1) first(2) assms(2-4), of k data]
      by (simp add: n step resynch_jb.simps fx_put_def Let_def)
  next
    case drop
    then show ?thesis using assms(1) by (simp add: n step fx_put_def resynch_jb.simps Let_def diff_diff_eq abs_less_iff)
  next
    case shift
    note inv = inv_shift [OF assms(1), of ?off]
    have tail: "last (fx_frames (fx_shift ?off jb)) = ?tail\<lparr>fx_ts := fx_ts ?tail + ?off\<rparr>"
      using shift(2) by (simp add: fx_shift_def last_map)
    have "fx_free ?behind ms (fx_frames (fx_shift ?off jb))"
      using free_behind [OF inv _ refl, of ms] shift(2) tail by (simp add: fx_shift_def)
    then have acc: "fx_accepts ?behind ms (fx_shift ?off jb) \<longleftrightarrow>
        next_delivery jb \<le> ?behind \<and> ?behind \<le> next_delivery jb + fx_delay jb + resync_threshold (fx_conf jb)"
      by (simp add: fx_accepts_def fx_shift_def)
    have d: "rxcore (fx_shift ?off jb) + fx_delay (fx_shift ?off jb) + ts = ?behind"
      using assms(1) shift(2) by (simp add: fx_inv_def fx_shift_def)
    have again: "resynch_jb k data ms ts now (fx_shift ?off jb) = Done (FIXED_JB_DROP, fx_shift ?off jb)"
      using assms(1) shift(2) tail by (simp add: fx_inv_def resynch_jb.simps) (simp add: fx_shift_def)
    have first: "fixed_jb_put n data ms ts now jb = fixed_jb_put (Suc k) data ms ts now (fx_shift ?off jb)"
      using shift step by (auto simp: n resynch_jb.simps Let_def diff_diff_eq abs_less_iff)
    show ?thesis
      using shift inv inv_insert [OF inv assms(2) d [symmetric]] acc d again first put_step [OF inv assms(2-4), of k data]
      by (auto simp: fx_put_def Let_def fx_accepts_def)
  qed
qed

text \<open>A buffer of 60 ms with two frames; a stamp that jumps ahead by three seconds makes it resynchronise.\<close>

definition ex_fx :: "nat fixed_jb" where
  "ex_fx = snd (fx_put 2 20 20 25 (snd (fx_put 1 20 0 0 (fixed_jb_new \<lparr>jbsize = 60, resync_threshold = 0\<rparr>))))"

theorem fixed_jb_put_ends_witness:
  "fixed_jb_put 2 3 20 3000 50 ex_fx = Done (fx_put 3 20 3000 50 ex_fx)
    \<and> map fx_ts (fx_frames (snd (fx_put 3 20 3000 50 ex_fx))) = [2960, 2980, 3000]"
proof -
  have ex: "map fx_ts (fx_frames (snd (fx_put 3 20 3000 50 ex_fx))) = [2960, 2980, 3000]"
    "resync_threshold (fx_conf ex_fx) = 1000" "fx_delay ex_fx = 60"
    "map (\<lambda>f. (fx_ts f, fx_ms f, fx_delivery f)) (fx_frames ex_fx) = [(0, 20, 60), (20, 20, 80)]" "rxcore ex_fx = 0"
    by code_simp+
  then have "fx_inv ex_fx" by (auto simp: fx_inv_def map_eq_Cons_conv)
  then show ?thesis using fixed_jb_put_ends [of ex_fx 20 3000 50 2 3] ex(1) by simp
qed

section \<open>Runs\<close>

datatype 'd fx_op = FxPut 'd int int int | FxGet int int | FxRemove | FxForce

definition fx_valid :: "'d fx_op \<Rightarrow> bool" where
  "fx_valid oper \<longleftrightarrow> (case oper of FxPut data ms ts now \<Rightarrow> 2 \<le> ms \<and> 0 \<le> ts \<and> 0 \<le> now
     | FxGet now interpl \<Rightarrow> 0 \<le> now \<and> 2 \<le> interpl | _ \<Rightarrow> True)"

text \<open>One operation: the data of a frame that was queued, the data of one handed out (played or dropped), the buffer.\<close>

definition fx_do :: "'d fx_op \<Rightarrow> 'd fixed_jb \<Rightarrow> ('d list \<times> 'd list \<times> 'd fixed_jb) attempt" where
  "fx_do oper jb =
    (case oper of
       FxPut data ms ts now \<Rightarrow>
         (case fixed_jb_put 2 data ms ts now jb of
            OutOfFuel \<Rightarrow> OutOfFuel | Aborted \<Rightarrow> Aborted
          | Done (c, jb') \<Rightarrow> Done (if c = FIXED_JB_OK then [data] else [], [], jb'))
     | FxGet now interpl \<Rightarrow>
         (case fixed_jb_get now interpl jb of
            OutOfFuel \<Rightarrow> OutOfFuel | Aborted \<Rightarrow> Aborted
          | Done (c, out, jb') \<Rightarrow> Done ([], case out of None \<Rightarrow> [] | Some f \<Rightarrow> [fx_data f], jb'))
     | FxRemove \<Rightarrow>
         (case fixed_jb_remove jb of (c, out, jb') \<Rightarrow> Done ([], case out of None \<Rightarrow> [] | Some f \<Rightarrow> [fx_data f], jb'))
     | FxForce \<Rightarrow> Done ([], [], fixed_jb_set_force_resynch jb))"

fun fx_run :: "'d fx_op list \<Rightarrow> 'd fixed_jb \<Rightarrow> ('d list \<times> 'd list \<times> 'd fixed_jb) attempt" where
  "fx_run [] jb = Done ([], [], jb)"
| "fx_run (oper # opers) jb =
    (case fx_do oper jb of
       OutOfFuel \<Rightarrow> OutOfFuel | Aborted \<Rightarrow> Aborted
     | Done (ins, outs, jb') \<Rightarrow>
        (case fx_run opers jb' of
           OutOfFuel \<Rightarrow> OutOfFuel | Aborted \<Rightarrow> Aborted
         | Done (ins', outs', jb'') \<Rightarrow> Done (ins @ ins', outs @ outs', jb'')))"

abbreviation fx_held :: "'d fixed_jb \<Rightarrow> 'd multiset" where
  "fx_held jb \<equiv> mset (map fx_data (fx_frames jb))"

lemma held [simp]:
  "image_mset fx_data (mset (fx_frames (fx_insert data ms ts d jb))) = add_mset data (image_mset fx_data (mset (fx_frames jb)))"
  "image_mset fx_data (mset (fx_frames (fx_shift off jb))) = image_mset fx_data (mset (fx_frames jb))"
  by (simp_all add: fx_insert_def fx_shift_def image_mset.compositionality comp_def)

lemma held_put:
  "fx_held (snd (fx_put data ms ts now jb)) =
    (if fst (fx_put data ms ts now jb) = FIXED_JB_OK then add_mset data (fx_held jb) else fx_held jb)"
  by (simp add: fx_put_def Let_def)

lemma head_taken:
  assumes "fx_inv jb" "fx_frames jb \<noteq> []" "get_jb_head jb = (f, jb')"
  shows "fx_inv jb' \<and> fx_held jb = add_mset (fx_data f) (fx_held jb') \<and> (\<forall>g \<in> set (fx_frames jb'). fx_delivery f < fx_delivery g)"
  using assms by (cases "fx_frames jb") (auto simp: get_jb_head_def fx_inv_def)

lemma do_conserves:
  assumes "fx_inv jb" "fx_valid oper"
  shows "\<exists>ins outs jb'. fx_do oper jb = Done (ins, outs, jb') \<and> fx_inv jb'
    \<and> mset ins + fx_held jb = mset outs + fx_held jb'"
proof (cases oper)
  case (FxPut data ms ts now)
  obtain c jb' where put: "fx_put data ms ts now jb = (c, jb')" by fastforce
  show ?thesis
    using assms FxPut put fixed_jb_put_ends [OF assms(1), of ms ts now 2 data] held_put [of data ms ts now jb]
    by (simp add: fx_do_def fx_valid_def)
next
  case (FxGet now interpl)
  obtain f jb' where head: "get_jb_head jb = (f, jb')" by fastforce
  have later: "fx_inv (jb\<lparr>next_delivery := x\<rparr>)" for x using assms(1) by (simp add: fx_inv_def)
  show ?thesis
    using assms(2) FxGet head head_taken [OF assms(1) _ head] later assms(1)
    by (auto simp: fx_do_def fx_valid_def fixed_jb_get_def split: list.split)
next
  case FxRemove
  obtain f jb' where head: "get_jb_head jb = (f, jb')" by fastforce
  show ?thesis
    using FxRemove head head_taken [OF assms(1) _ head] assms(1) by (auto simp: fx_do_def fixed_jb_remove_def)
next
  case FxForce
  then show ?thesis using assms(1) by (simp add: fx_do_def fixed_jb_set_force_resynch_def fx_inv_def)
qed

lemma run_conserves:
  assumes "fx_inv jb" "list_all fx_valid opers"
  shows "\<exists>ins outs jb'. fx_run opers jb = Done (ins, outs, jb') \<and> fx_inv jb'
    \<and> mset ins + fx_held jb = mset outs + fx_held jb'"
  using assms
proof (induction opers arbitrary: jb)
  case (Cons oper opers)
  then obtain ins outs jb1 where one: "fx_do oper jb = Done (ins, outs, jb1)" "fx_inv jb1"
    "mset ins + fx_held jb = mset outs + fx_held jb1" using do_conserves [of jb oper] by auto
  obtain ins' outs' jb2 where rest: "fx_run opers jb1 = Done (ins', outs', jb2)" "fx_inv jb2"
    "mset ins' + fx_held jb1 = mset outs' + fx_held jb2" using Cons.IH [of jb1] Cons.prems one(2) by auto
  have "mset (ins @ ins') + fx_held jb = mset (outs @ outs') + fx_held jb2"
    using one(3) rest(3) by (simp add: ac_simps)
  then show ?case using one(1) rest(1,2) by simp
qed simp

text \<open>C27. A buffer that is new gets its first frame, to be played the constant delay from then, and keeps its
  invariant over every run of operations with valid arguments: no call runs forever or aborts, the frames stay
  in the order of delivery, each the constant delay behind its stamp, and every frame that was queued has been
  handed out once or is still held.\<close>

theorem fixed_jb_run_conserves:
  assumes "fx_valid (FxPut data ms ts now)" "list_all fx_valid opers"
  shows "\<exists>jb0 ins outs jb. fixed_jb_put_first 2 data ms ts now (fixed_jb_new c) = Done (FIXED_JB_OK, jb0)
    \<and> map fx_delivery (fx_frames jb0) = [now + fx_delay jb0] \<and> next_delivery jb0 = now + fx_delay jb0
    \<and> fx_run opers jb0 = Done (ins, outs, jb) \<and> fx_inv jb \<and> add_mset data (mset ins) = mset outs + fx_held jb"
proof -
  let ?new = "fixed_jb_new c :: 'a fixed_jb"
  let ?jb = "fx_insert data ms ts (now + fx_delay ?new) (?new\<lparr>rxcore := now - ts, next_delivery := now + fx_delay ?new\<rparr>)"
  have new: "fx_inv ?new" "fx_frames ?new = []" by (simp_all add: fixed_jb_new_def fx_inv_def Let_def)
  have first: "fixed_jb_put_first 2 data ms ts now ?new = Done (FIXED_JB_OK, ?jb)" "fx_inv ?jb"
    using first_accepted [OF new, of ms ts now 1 data] assms(1) by (simp_all add: fx_valid_def numeral_2_eq_2)
  have "map fx_delivery (fx_frames ?jb) = [now + fx_delay ?jb]" "next_delivery ?jb = now + fx_delay ?jb"
    "fx_held ?jb = {#data#}" using new(2) by (simp_all add: fx_insert_def)
  then show ?thesis using first run_conserves [OF first(2) assms(2)] by auto
qed

theorem fixed_jb_run_conserves_witness:
  "\<exists>ins outs jb0 jb. fixed_jb_put_first 2 (1 :: nat) 20 0 1000 (fixed_jb_new \<lparr>jbsize = 60, resync_threshold = 0\<rparr>) = Done (FIXED_JB_OK, jb0)
    \<and> fx_run [FxPut 2 20 20 1005, FxGet 1060 20, FxForce, FxPut 3 20 5000 1070] jb0 = Done (ins, outs, jb)
    \<and> add_mset 1 (mset ins) = mset outs + fx_held jb"
  using fixed_jb_run_conserves [of "1 :: nat" 20 0 1000 "[FxPut 2 20 20 1005, FxGet 1060 20, FxForce, FxPut 3 20 5000 1070]"
      "\<lparr>jbsize = 60, resync_threshold = 0\<rparr>"]
  by (auto simp: fx_valid_def)

end
