(* ===== verification/Mdc.thy ===== *)
theory Mdc
  imports Prelude
begin

unbundle bit_operations_syntax

text \<open>
  The MDC-1200 data burst of \<^verbatim>\<open>allstar/mdc_encode.c\<close> and \<^verbatim>\<open>allstar/mdc_decode.c\<close>: building the
  frame (leader, checksum, parity bytes, interleaving) and, on the other side, hunting for the
  sync word, collecting 112 bits, deinterleaving and checking. Bytes are \<open>8 word\<close>, the
  decoder's \<^verbatim>\<open>unsigned int\<close> is \<open>32 word\<close>, the encoder's \<^verbatim>\<open>unsigned long\<close> is \<open>64 word\<close>. The
  tone synthesis and the phase clocks are floating point and are left out: whether a clock passed
  a full turn at a sample is an argument of the definitions.
\<close>

type_synonym byte = "8 word"

section \<open>The checksum\<close>

text \<open>\<open>_flip\<close>: the loop runs the mask \<open>i\<close> down and \<open>j\<close> up.\<close>

function flip_loop :: "'w::len word \<Rightarrow> 'w word \<Rightarrow> 'w word \<Rightarrow> 'w word \<Rightarrow> 'w word" where
  "flip_loop crc i j crcout =
     (if i = 0 then crcout
      else flip_loop crc (drop_bit 1 i) (push_bit 1 j) (if crc AND i \<noteq> 0 then crcout OR j else crcout))"
  by pat_completeness auto

lemma unat_drop_bit_1: "unat (drop_bit (Suc 0) i) = unat i div 2" for i :: "'w::len word"
  by (subst unsigned_drop_bit_eq) (simp add: drop_bit_Suc take_bit_nat_eq_self unsigned_less)

lemma drop_bit_1_less: "i \<noteq> 0 \<Longrightarrow> unat (drop_bit (Suc 0) i) < unat i" for i :: "'w::len word"
  by (simp add: unat_drop_bit_1 unat_gt_0 del: drop_bit_Suc)

termination flip_loop
  by (relation "measure (\<lambda>(crc, i, j, out). unat i)") (simp_all add: drop_bit_1_less)

declare flip_loop.simps [simp del]

definition flip :: "'w::len word \<Rightarrow> nat \<Rightarrow> 'w word" where
  "flip crc bitnum = flip_loop crc (push_bit (bitnum - 1) 1) 1 0"

text \<open>One step of the division by the generator: \<open>c\<close> is the byte, \<open>j\<close> the mask of its bit.\<close>

definition crc_step :: "'w::len word \<Rightarrow> 'w word \<Rightarrow> 'w word \<Rightarrow> 'w word" where
  "crc_step c j crc =
    (let bt = crc AND 0x8000;
         crc' = push_bit 1 crc;
         bt' = (if c AND j \<noteq> 0 then bt XOR 0x8000 else bt)
     in if bt' \<noteq> 0 then crc' XOR 0x1021 else crc')"

function crc_bits :: "'w::len word \<Rightarrow> 'w word \<Rightarrow> 'w word \<Rightarrow> 'w word" where
  "crc_bits c j crc = (if j = 0 then crc else crc_bits c (drop_bit 1 j) (crc_step c j crc))"
  by pat_completeness auto

termination crc_bits
  by (relation "measure (\<lambda>(c, j, crc). unat j)") (simp_all add: drop_bit_1_less)

declare crc_bits.simps [simp del]

definition crc_byte :: "'w::len word \<Rightarrow> byte \<Rightarrow> 'w word" where
  "crc_byte crc p = crc_bits (flip (ucast p) 8) 0x80 crc"

definition docrc :: "byte list \<Rightarrow> 'w::len word" where
  "docrc ps = (flip (foldl crc_byte 0 ps) 16 XOR 0xFFFF) AND 0xFFFF"

text \<open>The two copies of the function: \<^verbatim>\<open>unsigned long\<close> in the encoder, \<^verbatim>\<open>unsigned int\<close> in the decoder.\<close>

definition enc_docrc :: "byte list \<Rightarrow> 64 word" where
  "enc_docrc ps = docrc ps"

definition dec_docrc :: "byte list \<Rightarrow> 32 word" where
  "dec_docrc ps = docrc ps"

section \<open>The encoder\<close>

record mdc_encoder =
  e_loaded :: nat
  e_bpos :: nat
  e_ipos :: nat
  e_state :: nat
  e_lb :: bool
  e_xorb :: bool
  e_data :: "byte list"

definition enc_leader :: "byte list" where
  "enc_leader = [0x55, 0x55, 0x55, 0x55, 0x55, 0x55, 0x55, 0x07, 0x09, 0x2a, 0x44, 0x6f]"

text \<open>The parity bytes: a shift register of seven bits over the bits of the seven data bytes, lowest bit first.\<close>

definition csr_shift :: "nat list \<Rightarrow> byte \<Rightarrow> nat \<Rightarrow> nat list" where
  "csr_shift csr d j = (if bit d j then 1 else 0) # butlast csr"

fun parity_byte :: "nat list \<Rightarrow> byte \<Rightarrow> nat \<Rightarrow> nat \<Rightarrow> byte \<Rightarrow> nat list \<times> byte" where
  "parity_byte csr d j 0 out = (csr, out)"
| "parity_byte csr d j (Suc n) out =
     (let csr' = csr_shift csr d j;
          b = csr' ! 0 + csr' ! 2 + csr' ! 5 + csr' ! 6
      in parity_byte csr' d (j + 1) n (out OR push_bit j (of_nat (b mod 2))))"

fun parity_bytes :: "nat list \<Rightarrow> byte list \<Rightarrow> byte list" where
  "parity_bytes csr [] = []"
| "parity_bytes csr (d # ds) =
     (let (csr', out) = parity_byte csr d 0 8 0 in out # parity_bytes csr' ds)"

text \<open>The interleaver: bit after bit is stored 16 places further on.\<close>

definition bits_lsb :: "byte \<Rightarrow> bool list" where
  "bits_lsb d = map (\<lambda>j. bit d j) [0..<8]"

fun interleave :: "nat \<Rightarrow> nat \<Rightarrow> bool list \<Rightarrow> bool list \<Rightarrow> bool list" where
  "interleave k m [] lbits = lbits"
| "interleave k m (b # bs) lbits =
     (if k + 16 > 111 then interleave (m + 1) (m + 1) bs (lbits[k := b])
      else interleave (k + 16) m bs (lbits[k := b]))"

text \<open>A byte from eight bits, the first one highest.\<close>

definition byte_msb :: "bool list \<Rightarrow> byte" where
  "byte_msb bs = foldl (\<lambda>d j. if bs ! (7 - j) then d OR push_bit j 1 else d) 0 (rev [0..<8])"

definition pack_bits :: "bool list \<Rightarrow> byte list" where
  "pack_bits lbits = map (\<lambda>i. byte_msb (take 8 (drop (8 * i) lbits))) [0..<14]"

text \<open>\<open>_enc_str\<close>: the four payload bytes become the fourteen bytes on the air.\<close>

definition enc_data :: "byte list \<Rightarrow> byte list" where
  "enc_data d =
    (let ccrc = enc_docrc (take 4 d);
         head = take 4 d @ [ucast (ccrc AND 0xFF), ucast (drop_bit 8 ccrc AND 0xFF), 0]
     in head @ parity_bytes (replicate 7 0) head)"

definition enc_str :: "byte list \<Rightarrow> byte list" where
  "enc_str d = pack_bits (interleave 0 0 (concat (map bits_lsb (enc_data d))) (replicate 112 False))"

definition unit_hi :: "16 word \<Rightarrow> byte" where
  "unit_hi u = ucast (drop_bit 8 u AND 0xFF)"

definition unit_lo :: "16 word \<Rightarrow> byte" where
  "unit_lo u = ucast (u AND 0xFF)"

definition mdc_encoder_set_packet ::
  "mdc_encoder option \<Rightarrow> byte \<Rightarrow> byte \<Rightarrow> 16 word \<Rightarrow> int \<times> mdc_encoder option" where
  "mdc_encoder_set_packet enc op arg unitID =
    (case enc of None \<Rightarrow> (- 1, None)
     | Some e \<Rightarrow>
        if e_loaded e \<noteq> 0 then (- 1, Some e)
        else (0, Some (e\<lparr>e_state := 0,
               e_data := enc_leader @ enc_str [op, arg, unit_hi unitID, unit_lo unitID]
                         @ drop 26 (e_data e),
               e_loaded := 26\<rparr>)))"

definition mdc_encoder_set_double_packet ::
  "mdc_encoder option \<Rightarrow> byte \<Rightarrow> byte \<Rightarrow> 16 word \<Rightarrow> byte \<Rightarrow> byte \<Rightarrow> byte \<Rightarrow> byte
     \<Rightarrow> int \<times> mdc_encoder option" where
  "mdc_encoder_set_double_packet enc op arg unitID extra0 extra1 extra2 extra3 =
    (case enc of None \<Rightarrow> (- 1, None)
     | Some e \<Rightarrow>
        if e_loaded e \<noteq> 0 then (- 1, Some e)
        else (0, Some (e\<lparr>e_state := 0,
               e_data := enc_leader @ enc_str [op, arg, unit_hi unitID, unit_lo unitID]
                         @ enc_str [extra0, extra1, extra2, extra3] @ drop 40 (e_data e),
               e_loaded := 40\<rparr>)))"

text \<open>
  The keying of \<^verbatim>\<open>_enc_get_samp\<close>. The argument \<open>w\<close> says whether the floating point phase \<^verbatim>\<open>th\<close>
  passed \<^verbatim>\<open>TWOPI\<close> at this sample, that is, whether a bit time ended. The sample value is left
  out. \<open>None\<close> is a read outside the array \<^verbatim>\<open>data\<close>.
\<close>

definition enc_key :: "mdc_encoder \<Rightarrow> mdc_encoder option" where
  "enc_key e =
    (if e_bpos e < length (e_data e) then
       let b = bit (e_data e ! e_bpos e) (7 - e_ipos e)
       in Some (if b \<noteq> e_lb e then e\<lparr>e_xorb := True, e_lb := b\<rparr> else e\<lparr>e_xorb := False\<rparr>)
     else None)"

definition enc_get_samp :: "bool \<Rightarrow> mdc_encoder \<Rightarrow> mdc_encoder option" where
  "enc_get_samp w e =
    (if w then
       let ipos = e_ipos e + 1
       in if ipos > 7 then
            let e' = e\<lparr>e_ipos := 0, e_bpos := e_bpos e + 1\<rparr>
            in if e_bpos e' > e_loaded e' then Some (e'\<lparr>e_state := 0\<rparr>) else enc_key e'
          else enc_key (e\<lparr>e_ipos := ipos\<rparr>)
     else Some e)"

definition enc_start :: "mdc_encoder \<Rightarrow> mdc_encoder" where
  "enc_start e = (if e_state e = 0
     then e\<lparr>e_bpos := 0, e_ipos := 0, e_state := 1, e_xorb := True, e_lb := False\<rparr> else e)"

text \<open>The loop of \<^verbatim>\<open>mdc_encoder_get_samples\<close>: one element of \<open>ws\<close> for each place of the buffer.\<close>

fun enc_samples :: "bool list \<Rightarrow> nat \<Rightarrow> mdc_encoder \<Rightarrow> (nat \<times> mdc_encoder) option" where
  "enc_samples [] i e = Some (i, e)"
| "enc_samples (w # ws) i e =
     (if e_state e \<noteq> 0 then
        (case enc_get_samp w e of None \<Rightarrow> None | Some e' \<Rightarrow> enc_samples ws (i + 1) e')
      else Some (i, e))"

definition mdc_encoder_get_samples ::
  "bool list \<Rightarrow> mdc_encoder option \<Rightarrow> (int \<times> mdc_encoder option) option" where
  "mdc_encoder_get_samples ws enc =
    (case enc of None \<Rightarrow> Some (- 1, None)
     | Some e \<Rightarrow>
        if e_loaded e = 0 then Some (0, Some e)
        else case enc_samples ws 0 (enc_start e) of
          None \<Rightarrow> None
        | Some (i, e') \<Rightarrow> Some (int i, Some (if e_state e' = 0 then e'\<lparr>e_loaded := 0\<rparr> else e')))"

text \<open>The bits of a byte in the order in which they are keyed: bit \<open>7 - ipos\<close> for \<open>ipos\<close> from 0 to 7.\<close>

definition tx_bits :: "byte list \<Rightarrow> bool list" where
  "tx_bits ds = concat (map (\<lambda>d. map (\<lambda>ipos. bit d (7 - ipos)) [0..<8]) ds)"

section \<open>The decoder\<close>

record mdc_decoder =
  d_hyst :: int
  d_level :: nat
  d_lastv :: int
  zc :: "nat list"
  xorb :: "bool list"
  synclow :: "32 word list"
  synchigh :: "32 word list"
  shstate :: "nat list"
  shcount :: "nat list"
  bits :: "bool list list"
  good :: nat
  d_op :: byte
  d_arg :: byte
  d_unitID :: "16 word"
  d_crc :: "16 word"
  extra0 :: byte
  extra1 :: byte
  extra2 :: byte
  extra3 :: byte

abbreviation MDC_ND :: nat where "MDC_ND \<equiv> 4"
abbreviation MDC_GDTHRESH :: nat where "MDC_GDTHRESH \<equiv> 5"

definition clearbits :: "nat \<Rightarrow> mdc_decoder \<Rightarrow> mdc_decoder" where
  "clearbits x dec = dec\<lparr>bits := (bits dec)[x := replicate 112 False]\<rparr>"

text \<open>Deinterleaving and packing, lowest bit first.\<close>

definition deinterleave :: "bool list \<Rightarrow> bool list" where
  "deinterleave bs = concat (map (\<lambda>i. map (\<lambda>j. bs ! (j * 16 + i)) [0..<7]) [0..<16])"

definition byte_lsb :: "bool list \<Rightarrow> byte" where
  "byte_lsb bs = foldl (\<lambda>d j. if bs ! j then d OR push_bit j 1 else d) 0 [0..<8]"

definition unpack_bits :: "bool list \<Rightarrow> byte list" where
  "unpack_bits lbits = map (\<lambda>i. byte_lsb (take 8 (drop (8 * i) lbits))) [0..<14]"

definition procbits :: "nat \<Rightarrow> mdc_decoder \<Rightarrow> mdc_decoder" where
  "procbits x dec =
    (let data = unpack_bits (deinterleave (bits dec ! x));
         ccrc = dec_docrc (take 4 data);
         rcrc = (push_bit 8 (ucast (data ! 5)) OR ucast (data ! 4) :: 32 word)
     in if ccrc = rcrc then
          if shstate dec ! x = 2 then
            dec\<lparr>extra0 := data ! 0, extra1 := data ! 1, extra2 := data ! 2, extra3 := data ! 3,
                shstate := replicate MDC_ND 0, good := 2\<rparr>
          else
            let dec' = dec\<lparr>good := 1, d_op := data ! 0, d_arg := data ! 1,
                  d_unitID := push_bit 8 (ucast (data ! 2)) OR ucast (data ! 3),
                  d_crc := push_bit 8 (ucast (data ! 4)) OR ucast (data ! 5),
                  shstate := replicate MDC_ND 0\<rparr>
            in if data ! 0 = 0x35 \<or> data ! 0 = 0x55 then
                 clearbits x (dec'\<lparr>good := 0, shstate := (shstate dec')[x := 2],
                                   shcount := (shcount dec')[x := 0]\<rparr>)
               else dec'
        else dec\<lparr>shstate := (shstate dec)[x := 0]\<rparr>)"

text \<open>\<open>_onebits\<close> clears the lowest set bit until none is left.\<close>

function onebits_loop :: "32 word \<Rightarrow> nat \<Rightarrow> nat" where
  "onebits_loop n i = (if n = 0 then i else onebits_loop (n AND (n - 1)) (i + 1))"
  by pat_completeness auto

lemma and_pred_less: "n \<noteq> 0 \<Longrightarrow> unat (n AND (n - 1)) < unat n" for n :: "'w::len word"
proof -
  assume n: "n \<noteq> 0"
  have "n AND (n - 1) \<le> n - 1" by (rule word_and_le1)
  also have "n - 1 < n" using n by (simp add: word_less_1 word_gt_0 measure_unat word_less_nat_alt)
  finally show ?thesis by (simp add: word_less_nat_alt)
qed

termination onebits_loop
  by (relation "measure (\<lambda>(n, i). unat n)") (simp_all add: and_pred_less)

declare onebits_loop.simps [simp del]

definition onebits :: "32 word \<Rightarrow> nat" where
  "onebits n = onebits_loop n 0"

text \<open>The hunt for the sync word in \<open>_shiftin\<close>.\<close>

definition sync_shift :: "bool \<Rightarrow> 32 word \<times> 32 word \<Rightarrow> 32 word \<times> 32 word" where
  "sync_shift b hl =
    (let (high, low) = hl
     in (if low AND 0x80000000 \<noteq> 0 then push_bit 1 high OR 1 else push_bit 1 high,
         if b then push_bit 1 low OR 1 else push_bit 1 low))"

definition sync_count :: "32 word \<times> 32 word \<Rightarrow> nat" where
  "sync_count hl = (let (high, low) = hl
     in onebits (0xFF AND (0x07 XOR high)) + onebits (0x092a446f XOR low))"

definition shiftin :: "nat \<Rightarrow> mdc_decoder \<Rightarrow> mdc_decoder" where
  "shiftin x dec =
    (let b = xorb dec ! x; st = shstate dec ! x
     in if st = 0 then
          let (high, low) = sync_shift b (synchigh dec ! x, synclow dec ! x);
              dec' = dec\<lparr>synchigh := (synchigh dec)[x := high], synclow := (synclow dec)[x := low]\<rparr>;
              gcount = sync_count (high, low)
          in if gcount \<le> MDC_GDTHRESH then
               clearbits x (dec'\<lparr>shstate := (shstate dec')[x := 1], shcount := (shcount dec')[x := 0]\<rparr>)
             else if gcount \<ge> 40 - MDC_GDTHRESH then
               clearbits x (dec'\<lparr>shstate := (shstate dec')[x := 1], shcount := (shcount dec')[x := 0],
                                 xorb := (xorb dec')[x := \<not> b]\<rparr>)
             else dec'
        else if st = 1 \<or> st = 2 then
          let n = shcount dec ! x;
              dec' = dec\<lparr>bits := (bits dec)[x := (bits dec ! x)[n := b]], shcount := (shcount dec)[x := n + 1]\<rparr>
          in if n + 1 > 111 then procbits x dec' else dec'
        else dec)"

definition zcproc :: "nat \<Rightarrow> mdc_decoder \<Rightarrow> mdc_decoder" where
  "zcproc x dec =
    (if zc dec ! x = 2 \<or> zc dec ! x = 4 then shiftin x dec
     else if zc dec ! x = 3 then shiftin x (dec\<lparr>xorb := (xorb dec)[x := \<not> xorb dec ! x]\<rparr>)
     else dec)"

text \<open>The end of a bit time in \<^verbatim>\<open>mdc_decoder_process_samples\<close>: the bit is processed and the zero crossing count starts anew.\<close>

definition bit_time :: "nat \<Rightarrow> mdc_decoder \<Rightarrow> mdc_decoder" where
  "bit_time x dec = (let dec' = zcproc x dec in dec'\<lparr>zc := (zc dec')[x := 0]\<rparr>)"

text \<open>
  One sample of \<^verbatim>\<open>mdc_decoder_process_samples\<close> (the \<^verbatim>\<open>DIFFERENTIATOR\<close> variant, the one compiled).
  The list \<open>ws\<close> says for each of the four phases whether its floating point clock passed \<^verbatim>\<open>TWOPI\<close>.
\<close>

definition count_crossing :: "int \<Rightarrow> mdc_decoder \<Rightarrow> mdc_decoder" where
  "count_crossing v dec =
    (let d = v - d_lastv dec; dec' = dec\<lparr>d_lastv := v\<rparr>
     in if d_level dec = 0 then
          if d > d_hyst dec then dec'\<lparr>zc := map Suc (zc dec), d_level := 1\<rparr> else dec'
        else
          if d < - 1 * d_hyst dec then dec'\<lparr>zc := map Suc (zc dec), d_level := 0\<rparr> else dec')"

definition process_sample :: "byte \<times> bool list \<Rightarrow> mdc_decoder \<Rightarrow> mdc_decoder" where
  "process_sample sw dec =
    (let (s, ws) = sw
     in foldl (\<lambda>d j. if ws ! j then bit_time j d else d) (count_crossing (uint s) dec) [0..<MDC_ND])"

definition mdc_decoder_process_samples ::
  "(byte \<times> bool list) list \<Rightarrow> mdc_decoder option \<Rightarrow> int \<times> mdc_decoder option" where
  "mdc_decoder_process_samples samples dec =
    (case dec of None \<Rightarrow> (- 1, None)
     | Some d \<Rightarrow> let d' = foldl (\<lambda>d s. process_sample s d) d samples in (int (good d'), Some d'))"

definition mdc_decoder_get_packet ::
  "mdc_decoder option \<Rightarrow> int \<times> (byte \<times> byte \<times> 16 word) option \<times> mdc_decoder option" where
  "mdc_decoder_get_packet dec =
    (case dec of None \<Rightarrow> (- 1, None, None)
     | Some d \<Rightarrow>
        if good d \<noteq> 1 then (- 1, None, Some d)
        else (0, Some (d_op d, d_arg d, d_unitID d), Some (d\<lparr>good := 0\<rparr>)))"

definition mdc_decoder_get_double_packet ::
  "mdc_decoder option \<Rightarrow> int \<times> (byte \<times> byte \<times> 16 word \<times> byte \<times> byte \<times> byte \<times> byte) option
     \<times> mdc_decoder option" where
  "mdc_decoder_get_double_packet dec =
    (case dec of None \<Rightarrow> (- 1, None, None)
     | Some d \<Rightarrow>
        if good d \<noteq> 2 then (- 1, None, Some d)
        else (0, Some (d_op d, d_arg d, d_unitID d, extra0 d, extra1 d, extra2 d, extra3 d),
              Some (d\<lparr>good := 0\<rparr>)))"

section \<open>New objects\<close>

text \<open>
  The argument is what \<^verbatim>\<open>malloc\<close> returns: \<open>None\<close>, or memory with arbitrary contents. The fields that
  the functions do not set keep those contents.
\<close>

definition mdc_encoder_new :: "mdc_encoder option \<Rightarrow> mdc_encoder option" where
  "mdc_encoder_new mem = (case mem of None \<Rightarrow> None | Some e \<Rightarrow> Some (e\<lparr>e_loaded := 0\<rparr>))"

definition mdc_decoder_new :: "mdc_decoder option \<Rightarrow> mdc_decoder option" where
  "mdc_decoder_new mem =
    (case mem of None \<Rightarrow> None
     | Some d \<Rightarrow> Some (d\<lparr>d_hyst := 3, good := 0, d_level := 0, zc := replicate MDC_ND 0,
         xorb := replicate MDC_ND False, shstate := replicate MDC_ND 0, shcount := replicate MDC_ND 0\<rparr>))"

end
