(* ===== verification/MdcCodec.thy ===== *)
theory MdcCodec
  imports Mdc
begin

unbundle bit_operations_syntax

text \<open>
  The codec lemmas of the MDC-1200 burst: the checksum is a 16-bit division whatever the width
  of the C type it is computed in, packing and unpacking are inverse, and so are the interleaver
  of the encoder and the deinterleaver of the decoder.
\<close>

section \<open>The checksum as a 16-bit division\<close>

lemma flip_loop_bit:
  fixes crc :: "'w::len word"
  assumes "m < LENGTH('w)"
  shows "bit (flip_loop crc (2 ^ m) (2 ^ k) out) i \<longleftrightarrow>
    bit out i \<or> (k \<le> i \<and> i \<le> k + m \<and> i < LENGTH('w) \<and> bit crc (m - (i - k)))"
  using assms
proof (induction m arbitrary: k out)
  case 0
  have "drop_bit (Suc 0) (1 :: 'w word) = 0" by (simp add: drop_bit_Suc)
  with 0 show ?case
    by (auto simp: flip_loop.simps [of crc 1] flip_loop.simps [of crc 0] and_one_eq odd_iff_mod_2_eq_one
        bit_simps bit_0 even_iff_mod_2_eq_zero)
next
  case (Suc m)
  have m: "m < LENGTH('w)" using Suc.prems by simp
  have pos: "(2 ^ Suc m :: 'w word) \<noteq> 0" using Suc.prems by (metis possible_bit_word exp_eq_0_imp_not_bit bit_exp_iff possible_bit_def)
  have shr: "drop_bit 1 (2 ^ Suc m :: 'w word) = 2 ^ m"
    by (rule bit_word_eqI) (use Suc.prems in \<open>auto simp: bit_simps\<close>)
  have shl: "push_bit 1 (2 ^ k :: 'w word) = 2 ^ Suc k" by simp
  have "flip_loop crc (2 ^ Suc m) (2 ^ k) out
      = flip_loop crc (2 ^ m) (2 ^ Suc k) (if bit crc (Suc m) then out OR 2 ^ k else out)"
    by (subst flip_loop.simps) (simp only: pos shr shl if_False and_exp_eq_0_iff_not_bit not_not)
  moreover have "bit (if bit crc (Suc m) then out OR 2 ^ k else out) i
      \<longleftrightarrow> bit out i \<or> (bit crc (Suc m) \<and> i = k \<and> i < LENGTH('w))"
    by (auto simp: bit_simps)
  moreover have "m - (i - Suc k) = Suc m - (i - k)" if "Suc k \<le> i" using that by arith
  ultimately show ?case
    using Suc.IH [OF m, of "Suc k"]
    by (cases i k rule: linorder_cases) auto
qed

lemma flip_bit:
  fixes crc :: "'w::len word"
  assumes "0 < n" and "n \<le> LENGTH('w)"
  shows "bit (flip crc n) i \<longleftrightarrow> i < n \<and> bit crc (n - 1 - i)"
proof -
  have "flip crc n = flip_loop crc (2 ^ (n - 1)) (2 ^ 0) 0"
    by (simp add: flip_def push_bit_of_1)
  with flip_loop_bit [of "n - 1" crc 0 0 i] assms show ?thesis by auto
qed

text \<open>The reference: the remainder register of CRC-16/CCITT, one bit at a time.\<close>

definition crc16_step :: "16 word \<Rightarrow> bool \<Rightarrow> 16 word" where
  "crc16_step r b = (if bit r 15 \<noteq> b then push_bit 1 r XOR 0x1021 else push_bit 1 r)"

definition crc16 :: "bool list \<Rightarrow> 16 word" where
  "crc16 bs = foldl crc16_step 0 bs"

lemma bit_15_and: "16 \<le> LENGTH('w) \<Longrightarrow> x AND 0x8000 = 0 \<longleftrightarrow> \<not> bit x 15" for x :: "'w::len word"
  using and_exp_eq_0_iff_not_bit [of x 15] by simp

lemma ucast_push_bit_1:
  fixes crc :: "'w::len word" assumes "16 \<le> LENGTH('w)"
  shows "ucast (push_bit 1 crc) = (push_bit 1 (ucast crc) :: 16 word)"
  by (rule bit_word_eqI) (use assms in \<open>auto simp: bit_simps simp del: push_bit_Suc One_nat_def\<close>)

lemma crc_step_16:
  fixes crc c :: "'w::len word" assumes w: "16 \<le> LENGTH('w)"
  shows "ucast (crc_step c j crc) = crc16_step (ucast crc) (c AND j \<noteq> 0)"
proof -
  have ne: "(0x8000 :: 'w word) \<noteq> 0"
    using bit_15_and [OF w, of "-1"] w by (auto simp: bit_simps)
  have x: "(crc AND 0x8000) XOR 0x8000 = 0 \<longleftrightarrow> bit crc 15"
  proof -
    have "(crc AND 0x8000) XOR 0x8000 = NOT crc AND 0x8000"
      by (rule bit_word_eqI) (auto simp: bit_simps)
    then show ?thesis using bit_15_and [OF w, of "NOT crc"] w by (simp add: bit_not_iff)
  qed
  have "(0x1021 :: int) < 2 ^ 16" by simp
  also have "\<dots> \<le> 2 ^ LENGTH('w)" using w by (intro power_increasing) auto
  finally have u: "ucast (0x1021 :: 'w word) = (0x1021 :: 16 word)"
    by (simp add: ucast_eq take_bit_int_eq_self)
  have hi: "bit (ucast crc :: 16 word) 15 = bit crc 15" by (simp add: bit_simps)
  show ?thesis
    using w x u hi
    by (simp add: crc_step_def crc16_step_def Let_def bit_15_and ucast_push_bit_1 unsigned_xor_eq
        del: push_bit_Suc One_nat_def)
qed

lemma crc_bits_16:
  fixes crc c :: "'w::len word"
  assumes w: "16 \<le> LENGTH('w)" and "m < LENGTH('w)"
  shows "ucast (crc_bits c (2 ^ m) crc) = foldl crc16_step (ucast crc) (map (bit c) (rev [0..<Suc m]))"
  using assms(2)
proof (induction m arbitrary: crc)
  case 0
  have "drop_bit (Suc 0) (1 :: 'w word) = 0" by (simp add: drop_bit_Suc)
  then show ?case
    using crc_step_16 [OF w, of c 1 crc] and_exp_eq_0_iff_not_bit [of c 0]
    by (simp add: crc_bits.simps [of c 1] crc_bits.simps [of c 0])
next
  case (Suc m)
  have pos: "(2 ^ Suc m :: 'w word) \<noteq> 0"
    using Suc.prems by (metis possible_bit_word exp_eq_0_imp_not_bit bit_exp_iff possible_bit_def)
  have shr: "drop_bit 1 (2 ^ Suc m :: 'w word) = 2 ^ m"
    by (rule bit_word_eqI) (use Suc.prems in \<open>auto simp: bit_simps\<close>)
  have "crc_bits c (2 ^ Suc m) crc = crc_bits c (2 ^ m) (crc_step c (2 ^ Suc m) crc)"
    by (subst crc_bits.simps) (simp only: pos shr if_False)
  then show ?case
    using Suc crc_step_16 [OF w, of c "2 ^ Suc m" crc] and_exp_eq_0_iff_not_bit [of c "Suc m"]
    by (simp del: power_Suc)
qed

lemma crc_byte_16:
  fixes crc :: "'w::len word"
  assumes w: "16 \<le> LENGTH('w)"
  shows "ucast (crc_byte crc p) = foldl crc16_step (ucast crc) (bits_lsb p)"
proof -
  let ?c = "flip (ucast p) 8 :: 'w word"
  have "bit ?c (7 - j) = bit p j" if "j < 8" for j
  proof -
    have "7 - j < 8" by arith
    with that w show ?thesis by (simp add: flip_bit bit_simps)
  qed
  then have "map (bit ?c) (rev [0..<Suc 7]) = bits_lsb p"
    by (intro nth_equalityI) (auto simp: bits_lsb_def rev_nth simp del: upt_Suc)
  then show ?thesis
    using crc_bits_16 [OF w, of 7 ?c crc] w by (simp add: crc_byte_def)
qed

lemma crc_bytes_16:
  fixes crc :: "'w::len word"
  assumes w: "16 \<le> LENGTH('w)"
  shows "ucast (foldl crc_byte crc ps) = foldl crc16_step (ucast crc) (concat (map bits_lsb ps))"
  by (induction ps arbitrary: crc) (simp_all add: crc_byte_16 [OF w])

text \<open>The value in the packet: the reflected, complemented remainder.\<close>

definition mdc_crc :: "byte list \<Rightarrow> 16 word" where
  "mdc_crc ps = NOT (word_reverse (crc16 (concat (map bits_lsb ps))))"

lemma docrc_crc16:
  assumes w: "16 \<le> LENGTH('w::len)"
  shows "(docrc ps :: 'w word) = ucast (mdc_crc ps)"
proof (rule bit_word_eqI)
  fix n assume "n < LENGTH('w)"
  let ?f = "foldl crc_byte (0 :: 'w word) ps"
  have mask: "(0xFFFF :: 'w word) = mask 16" by (simp add: mask_eq_exp_minus_1)
  have "bit ?f (15 - n) = bit (crc16 (concat (map bits_lsb ps))) (15 - n)" if "n < 16"
  proof -
    have "15 - n < 16" by arith
    then show ?thesis
      using arg_cong [OF crc_bytes_16 [OF w, of 0 ps], of "\<lambda>r. bit r (15 - n)"] that w
      by (simp add: crc16_def bit_simps)
  qed
  then show "bit (docrc ps :: 'w word) n = bit (ucast (mdc_crc ps) :: 'w word) n"
    using \<open>n < LENGTH('w)\<close> w
    by (auto simp: docrc_def mdc_crc_def mask bit_simps flip_bit bit_word_reverse_iff)
qed

lemma enc_docrc_mdc: "enc_docrc ps = ucast (mdc_crc ps)"
  by (simp add: enc_docrc_def docrc_crc16)

lemma dec_docrc_mdc: "dec_docrc ps = ucast (mdc_crc ps)"
  by (simp add: dec_docrc_def docrc_crc16)

section \<open>Bits and bytes\<close>

lemma bit_set_bits:
  "bit (foldl (\<lambda>d j. if f j then d OR push_bit j 1 else d) d js) k \<longleftrightarrow>
     bit d k \<or> (k < 8 \<and> k \<in> set js \<and> f k)" for d :: byte
  by (induction js arbitrary: d) (auto simp: bit_simps)

lemma bit_byte_lsb: "bit (byte_lsb bs) k \<longleftrightarrow> k < 8 \<and> bs ! k"
  by (simp add: byte_lsb_def bit_set_bits)

lemma bit_byte_msb: "bit (byte_msb bs) k \<longleftrightarrow> k < 8 \<and> bs ! (7 - k)"
  by (simp add: byte_msb_def bit_set_bits)

lemma length_bits_lsb [simp]: "length (bits_lsb d) = 8"
  by (simp add: bits_lsb_def)

lemma byte_lsb_bits [simp]: "byte_lsb (bits_lsb d) = d"
  by (rule bit_word_eqI) (simp add: bit_byte_lsb bits_lsb_def)

lemma tx_bits_msb: "length bs = 8 \<Longrightarrow> map (\<lambda>ipos. bit (byte_msb bs) (7 - ipos)) [0..<8] = bs"
  by (intro nth_equalityI) (auto simp: bit_byte_msb)

text \<open>Lists cut in pieces of eight.\<close>

lemma concat_pieces:
  "length xs = 8 * n \<Longrightarrow> concat (map (\<lambda>i. take 8 (drop (8 * i) xs)) [0..<n]) = xs"
proof (induction n arbitrary: xs)
  case 0
  then show ?case by simp
next
  case (Suc n)
  have "[0..<Suc n] = 0 # map Suc [0..<n]" by (simp add: upt_conv_Cons map_Suc_upt)
  then have "concat (map (\<lambda>i. take 8 (drop (8 * i) xs)) [0..<Suc n])
      = take 8 xs @ concat (map (\<lambda>i. take 8 (drop (8 * i) (drop 8 xs))) [0..<n])"
    by (simp add: comp_def add.commute)
  also have "\<dots> = take 8 xs @ drop 8 xs" using Suc.IH [of "drop 8 xs"] Suc.prems by simp
  finally show ?case by simp
qed

lemma tx_pack_bits: "length lbits = 112 \<Longrightarrow> tx_bits (pack_bits lbits) = lbits"
proof -
  assume l: "length lbits = 112"
  have "map (\<lambda>ipos. bit (byte_msb (take 8 (drop (8 * i) lbits))) (7 - ipos)) [0..<8]
      = take 8 (drop (8 * i) lbits)" if "i < 14" for i
    using that l by (intro tx_bits_msb) simp
  then have "tx_bits (pack_bits lbits) = concat (map (\<lambda>i. take 8 (drop (8 * i) lbits)) [0..<14])"
    unfolding tx_bits_def pack_bits_def map_map comp_def
    by (intro arg_cong [of _ _ concat] map_cong) auto
  also have "\<dots> = lbits" using l by (intro concat_pieces) simp
  finally show ?thesis .
qed

lemma piece_concat:
  "i < length ds \<Longrightarrow> take 8 (drop (8 * i) (concat (map bits_lsb ds))) = bits_lsb (ds ! i)"
proof (induction ds arbitrary: i)
  case Nil
  then show ?case by simp
next
  case (Cons d ds)
  then show ?case by (cases i) (simp_all add: add.commute)
qed

lemma unpack_bits_concat: "length ds = 14 \<Longrightarrow> unpack_bits (concat (map bits_lsb ds)) = ds"
  unfolding unpack_bits_def by (intro nth_equalityI) (auto simp: piece_concat)

section \<open>Interleaving\<close>

text \<open>The places the interleaver stores to.\<close>

fun interleave_pos :: "nat \<Rightarrow> nat \<Rightarrow> nat \<Rightarrow> nat list" where
  "interleave_pos k m 0 = []"
| "interleave_pos k m (Suc n) =
     k # (if k + 16 > 111 then interleave_pos (m + 1) (m + 1) n else interleave_pos (k + 16) m n)"

definition store_all :: "(nat \<times> bool) list \<Rightarrow> bool list \<Rightarrow> bool list" where
  "store_all ps l = foldl (\<lambda>l (p, b). l[p := b]) l ps"

lemma interleave_store:
  "interleave k m bs l = store_all (zip (interleave_pos k m (length bs)) bs) l"
  by (induction k m bs l rule: interleave.induct) (simp_all add: store_all_def)

lemma store_all_other: "p \<notin> fst ` set ps \<Longrightarrow> store_all ps l ! p = l ! p"
  unfolding store_all_def by (induction ps arbitrary: l) auto

lemma length_store_all [simp]: "length (store_all ps l) = length l"
  unfolding store_all_def by (induction ps arbitrary: l) auto

lemma store_all_nth:
  "distinct qs \<Longrightarrow> length qs = length bs \<Longrightarrow> \<forall>q\<in>set qs. q < length l \<Longrightarrow>
   map ((!) (store_all (zip qs bs) l)) qs = bs"
proof (induction qs bs arbitrary: l rule: list_induct2')
  case (4 q qs b bs)
  have "store_all (zip (q # qs) (b # bs)) l = store_all (zip qs bs) (l[q := b])"
    by (simp add: store_all_def)
  moreover have "store_all (zip qs bs) (l[q := b]) ! q = b"
    using 4 by (subst store_all_other) (auto dest: set_zip_leftD)
  ultimately show ?case using 4 by simp
qed simp_all

lemma interleave_pos_112: "interleave_pos 0 0 112 = concat (map (\<lambda>i. map (\<lambda>j. j * 16 + i) [0..<7]) [0..<16])"
  by code_simp

lemma interleave_pos_ok:
  "distinct (interleave_pos 0 0 112) \<and> (\<forall>q\<in>set (interleave_pos 0 0 112). q < 112)
    \<and> length (interleave_pos 0 0 112) = 112"
  by code_simp

lemma deinterleave_pos: "deinterleave l = map ((!) l) (interleave_pos 0 0 112)"
  by (simp add: interleave_pos_112 deinterleave_def map_concat comp_def)

lemma deinterleave_interleave:
  assumes "length bs = 112" and "length l = 112"
  shows "deinterleave (interleave 0 0 bs l) = bs"
  using interleave_pos_ok assms
  by (simp add: deinterleave_pos interleave_store store_all_nth)

lemma length_interleave [simp]: "length (interleave k m bs l) = length l"
  by (simp add: interleave_store)

section \<open>A block on the air and back\<close>

lemma length_parity_bytes [simp]: "length (parity_bytes csr ds) = length ds"
  by (induction csr ds rule: parity_bytes.induct) (auto split: prod.split)

lemma length_enc_data: "length d = 4 \<Longrightarrow> length (enc_data d) = 14"
  by (simp add: enc_data_def Let_def)

lemma length_concat_bits [simp]: "length (concat (map bits_lsb ds)) = 8 * length ds"
  by (induction ds) auto

lemma tx_enc_str:
  "length d = 4 \<Longrightarrow>
   tx_bits (enc_str d) = interleave 0 0 (concat (map bits_lsb (enc_data d))) (replicate 112 False)"
  unfolding enc_str_def by (rule tx_pack_bits) simp

lemma unpack_enc_str:
  assumes "length d = 4"
  shows "unpack_bits (deinterleave (tx_bits (enc_str d))) = enc_data d"
  using assms length_enc_data [OF assms]
  by (simp add: tx_enc_str deinterleave_interleave unpack_bits_concat)

end
