(* ===== verification/MdcLink.thy ===== *)
theory MdcLink
  imports MdcCodec
begin

unbundle bit_operations_syntax

text \<open>
  The two ends of the MDC-1200 link together. The encoder keys a bit as one and a half cycles
  of tone when it differs from the bit before and as one cycle when it does not, so an
  undisturbed receiver counts three or two zero crossings in a bit time. The lemmas follow the
  decoder through the sync word and the 112 bits of a block, for either polarity of its bit
  register.
\<close>

section \<open>The ideal channel\<close>

definition rx_bit :: "nat \<Rightarrow> bool \<Rightarrow> bool \<Rightarrow> mdc_decoder \<Rightarrow> mdc_decoder" where
  "rx_bit x lb b dec = bit_time x (dec\<lparr>zc := (zc dec)[x := if b \<noteq> lb then 3 else 2]\<rparr>)"

fun rx :: "nat \<Rightarrow> bool \<Rightarrow> bool list \<Rightarrow> mdc_decoder \<Rightarrow> mdc_decoder" where
  "rx x lb [] dec = dec"
| "rx x lb (b # bs) dec = rx x b bs (rx_bit x lb b dec)"

lemma rx_append: "rx x lb (bs @ cs) dec = rx x (last (lb # bs)) cs (rx x lb bs dec)"
  by (induction bs arbitrary: lb dec) auto

definition dec_wf :: "nat \<Rightarrow> mdc_decoder \<Rightarrow> bool" where
  "dec_wf x dec \<longleftrightarrow> x < MDC_ND \<and> length (zc dec) = MDC_ND \<and> length (xorb dec) = MDC_ND
     \<and> length (synclow dec) = MDC_ND \<and> length (synchigh dec) = MDC_ND
     \<and> length (shstate dec) = MDC_ND \<and> length (shcount dec) = MDC_ND
     \<and> length (bits dec) = MDC_ND \<and> (\<forall>bs\<in>set (bits dec). length bs = 112)"

text \<open>The register \<open>xorb\<close> follows the keyed bit, upside down if \<open>p\<close>.\<close>

definition follows :: "nat \<Rightarrow> bool \<Rightarrow> bool \<Rightarrow> mdc_decoder \<Rightarrow> bool" where
  "follows x p lb dec \<longleftrightarrow> dec_wf x dec \<and> xorb dec ! x = (lb \<noteq> p)"

text \<open>The packet fields and the flag: what a bit that completes no block leaves alone.\<close>

definition results :: "mdc_decoder \<Rightarrow> nat \<times> (byte \<times> byte \<times> 16 word) \<times> byte list" where
  "results dec = (good dec, (d_op dec, d_arg dec, d_unitID dec),
     [extra0 dec, extra1 dec, extra2 dec, extra3 dec])"

definition with_bit :: "nat \<Rightarrow> bool \<Rightarrow> mdc_decoder \<Rightarrow> mdc_decoder" where
  "with_bit x v dec = dec\<lparr>xorb := (xorb dec)[x := v]\<rparr>"

lemma rx_bit_shiftin:
  assumes "follows x p lb dec"
  shows "\<exists>z z'. rx_bit x lb b dec = (shiftin x (with_bit x (b \<noteq> p) (dec\<lparr>zc := z\<rparr>)))\<lparr>zc := z'\<rparr>
    \<and> length z = MDC_ND \<and> z' = z[x := 0]"
proof -
  let ?z = "(zc dec)[x := if b \<noteq> lb then 3 else 2]"
  have z: "?z ! x = (if b \<noteq> lb then 3 else 2)" "length ?z = MDC_ND" and x: "x < length (xorb dec)"
    using assms by (auto simp: follows_def dec_wf_def)
  have v: "xorb dec ! x = (lb \<noteq> p)" using assms by (simp add: follows_def)
  have same: "with_bit x (lb \<noteq> p) (dec\<lparr>zc := ?z\<rparr>) = dec\<lparr>zc := ?z\<rparr>"
    unfolding with_bit_def v [symmetric] by simp
  have flip: "with_bit x (\<not> (xorb dec ! x)) (dec\<lparr>zc := ?z\<rparr>) = with_bit x ((\<not> lb) \<noteq> p) (dec\<lparr>zc := ?z\<rparr>)"
    using v by (cases lb; cases p; simp)
  have "zcproc x (dec\<lparr>zc := ?z\<rparr>) = shiftin x (with_bit x (b \<noteq> p) (dec\<lparr>zc := ?z\<rparr>))"
  proof (cases "b = lb")
    case True
    then show ?thesis using z same by (simp add: zcproc_def)
  next
    case False
    then have "b = (\<not> lb)" by blast
    with False show ?thesis
      using z flip by (simp add: zcproc_def with_bit_def)
  qed
  moreover have "zc (shiftin x d) = zc d" for d
    by (simp add: shiftin_def clearbits_def procbits_def Let_def split: prod.split)
  ultimately show ?thesis
    using z by (intro exI [of _ ?z] exI [of _ "?z[x := 0]"])
      (simp add: rx_bit_def bit_time_def Let_def with_bit_def)
qed

section \<open>Hunting for the sync word\<close>

text \<open>The registers of a hunting decoder, and the condition that the bits \<open>bs\<close> do not make it lock.\<close>

definition regs :: "nat \<Rightarrow> mdc_decoder \<Rightarrow> 32 word \<times> 32 word" where
  "regs x dec = (synchigh dec ! x, synclow dec ! x)"

fun no_lock :: "32 word \<times> 32 word \<Rightarrow> bool list \<Rightarrow> bool" where
  "no_lock r [] \<longleftrightarrow> True"
| "no_lock r (b # bs) \<longleftrightarrow>
     (let r' = sync_shift b r in 5 < sync_count r' \<and> sync_count r' < 35 \<and> no_lock r' bs)"

definition hunting :: "nat \<Rightarrow> bool \<Rightarrow> bool \<Rightarrow> 32 word \<times> 32 word \<Rightarrow> mdc_decoder \<Rightarrow> bool" where
  "hunting x p lb r dec \<longleftrightarrow> follows x p lb dec \<and> shstate dec ! x = 0 \<and> regs x dec = r"

definition collecting :: "nat \<Rightarrow> bool \<Rightarrow> bool \<Rightarrow> nat \<Rightarrow> bool list \<Rightarrow> mdc_decoder \<Rightarrow> bool" where
  "collecting x p lb st bs dec \<longleftrightarrow> follows x p lb dec \<and> shstate dec ! x = st \<and> (st = 1 \<or> st = 2)
     \<and> shcount dec ! x = length bs \<and> length bs \<le> 112 \<and> take (length bs) (bits dec ! x) = bs"

lemmas link_defs = follows_def dec_wf_def with_bit_def results_def regs_def

lemma hunt_bit:
  assumes h: "hunting x p lb r dec" and c: "no_lock r [b \<noteq> p]"
  shows "hunting x p b (sync_shift (b \<noteq> p) r) (rx_bit x lb b dec)"
    and "results (rx_bit x lb b dec) = results dec"
proof -
  obtain z z' where e: "rx_bit x lb b dec
      = (shiftin x (with_bit x (b \<noteq> p) (dec\<lparr>zc := z\<rparr>)))\<lparr>zc := z'\<rparr>" "length z = MDC_ND" "z' = z[x := 0]"
    using rx_bit_shiftin h hunting_def by metis
  obtain hi lo where s: "sync_shift (b \<noteq> p) r = (hi, lo)" by (metis surj_pair)
  have "shiftin x (with_bit x (b \<noteq> p) (dec\<lparr>zc := z\<rparr>))
      = (with_bit x (b \<noteq> p) (dec\<lparr>zc := z\<rparr>))\<lparr>synchigh := (synchigh dec)[x := hi], synclow := (synclow dec)[x := lo]\<rparr>"
    using h c s by (auto simp: shiftin_def hunting_def link_defs Let_def)
  then show "hunting x p b (sync_shift (b \<noteq> p) r) (rx_bit x lb b dec)"
    and "results (rx_bit x lb b dec) = results dec"
    using e h s by (auto simp: hunting_def link_defs)
qed

lemma hunt_run:
  "hunting x p lb r dec \<Longrightarrow> no_lock r (map (\<lambda>b. b \<noteq> p) bs) \<Longrightarrow>
   hunting x p (last (lb # bs)) (foldl (\<lambda>r b. sync_shift (b \<noteq> p) r) r bs) (rx x lb bs dec)
   \<and> results (rx x lb bs dec) = results dec"
proof (induction bs arbitrary: lb r dec)
  case Nil
  then show ?case by simp
next
  case (Cons b bs)
  have c: "no_lock r [b \<noteq> p]" "no_lock (sync_shift (b \<noteq> p) r) (map (\<lambda>b. b \<noteq> p) bs)"
    using Cons.prems(2) by (simp_all add: Let_def)
  note step = hunt_bit [OF Cons.prems(1) c(1)]
  from Cons.IH [OF step(1) c(2)] step(2) show ?case by simp
qed

text \<open>Locking turns an inverted register the right way up.\<close>

lemma lock_bit:
  assumes h: "hunting x p lb r dec"
    and c: "sync_count (sync_shift (b \<noteq> p) r) \<le> 5 \<and> \<not> p \<or> sync_count (sync_shift (b \<noteq> p) r) \<ge> 35 \<and> p"
  shows "collecting x False b 1 [] (rx_bit x lb b dec)"
    and "results (rx_bit x lb b dec) = results dec"
proof -
  obtain z z' where e: "rx_bit x lb b dec
      = (shiftin x (with_bit x (b \<noteq> p) (dec\<lparr>zc := z\<rparr>)))\<lparr>zc := z'\<rparr>" "length z = MDC_ND" "z' = z[x := 0]"
    using rx_bit_shiftin h hunting_def by metis
  obtain hi lo where s: "sync_shift (b \<noteq> p) r = (hi, lo)" by (metis surj_pair)
  have "shiftin x (with_bit x (b \<noteq> p) (dec\<lparr>zc := z\<rparr>))
      = (with_bit x b (dec\<lparr>zc := z\<rparr>))\<lparr>synchigh := (synchigh dec)[x := hi], synclow := (synclow dec)[x := lo],
          shstate := (shstate dec)[x := 1], shcount := (shcount dec)[x := 0],
          bits := (bits dec)[x := replicate 112 False]\<rparr>"
    using h c s by (cases p) (auto simp: shiftin_def hunting_def link_defs clearbits_def Let_def)
  then show "collecting x False b 1 [] (rx_bit x lb b dec)"
    and "results (rx_bit x lb b dec) = results dec"
    using e h s by (auto simp: hunting_def collecting_def link_defs set_update_subset_insert
        dest!: subsetD [OF set_update_subset_insert])
qed

section \<open>Collecting a block\<close>

lemma collect_bit:
  assumes h: "collecting x False lb st bs dec" and n: "length bs < 111"
  shows "collecting x False b st (bs @ [b]) (rx_bit x lb b dec)"
    and "results (rx_bit x lb b dec) = results dec"
proof -
  have fol: "follows x False lb dec" using h by (simp add: collecting_def)
  obtain z z' where e: "rx_bit x lb b dec
      = (shiftin x (with_bit x b (dec\<lparr>zc := z\<rparr>)))\<lparr>zc := z'\<rparr>" "length z = MDC_ND" "z' = z[x := 0]"
    using rx_bit_shiftin [OF fol, of b] by auto
  have "shiftin x (with_bit x b (dec\<lparr>zc := z\<rparr>))
      = (with_bit x b (dec\<lparr>zc := z\<rparr>))\<lparr>bits := (bits dec)[x := (bits dec ! x)[length bs := b]],
          shcount := (shcount dec)[x := length bs + 1]\<rparr>"
    using h n by (auto simp: shiftin_def collecting_def link_defs Let_def)
  then show "collecting x False b st (bs @ [b]) (rx_bit x lb b dec)"
    and "results (rx_bit x lb b dec) = results dec"
    using e h n by (auto simp: collecting_def link_defs take_Suc_conv_app_nth
        dest!: subsetD [OF set_update_subset_insert])
qed

lemma collect_run:
  "collecting x False lb st cs dec \<Longrightarrow> length cs + length bs \<le> 111 \<Longrightarrow>
   collecting x False (last (lb # bs)) st (cs @ bs) (rx x lb bs dec)
   \<and> results (rx x lb bs dec) = results dec"
proof (induction bs arbitrary: lb cs dec)
  case Nil
  then show ?case by simp
next
  case (Cons b bs)
  have "length cs < 111" using Cons.prems(2) by simp
  note step = collect_bit [OF Cons.prems(1) this, of b]
  from Cons.IH [OF step(1)] Cons.prems(2) step(2) show ?case by simp
qed

text \<open>The last bit of a block hands the block to \<open>procbits\<close>.\<close>

lemma collect_last:
  assumes h: "collecting x False lb st bs dec" and n: "length bs = 111"
  shows "\<exists>d z. rx_bit x lb b dec = (procbits x d)\<lparr>zc := z\<rparr> \<and> length z = MDC_ND
    \<and> dec_wf x d \<and> xorb d ! x = b \<and> shstate d = shstate dec \<and> bits d ! x = bs @ [b]
    \<and> results d = results dec"
proof -
  have fol: "follows x False lb dec" using h by (simp add: collecting_def)
  obtain z z' where e: "rx_bit x lb b dec
      = (shiftin x (with_bit x b (dec\<lparr>zc := z\<rparr>)))\<lparr>zc := z'\<rparr>" "length z = MDC_ND" "z' = z[x := 0]"
    using rx_bit_shiftin [OF fol, of b] by auto
  let ?d = "(with_bit x b (dec\<lparr>zc := z\<rparr>))\<lparr>bits := (bits dec)[x := (bits dec ! x)[111 := b]],
          shcount := (shcount dec)[x := 112]\<rparr>"
  have "shiftin x (with_bit x b (dec\<lparr>zc := z\<rparr>)) = procbits x ?d"
    using h n by (auto simp: shiftin_def collecting_def link_defs Let_def)
  moreover have "length (bits dec ! x) = 112" "take 111 (bits dec ! x) = bs"
    using h n by (auto simp: collecting_def link_defs)
  then have "(bits dec ! x)[111 := b] = bs @ [b]"
    by (intro nth_equalityI) (auto simp: nth_append nth_list_update n)
  ultimately show ?thesis
    using e h n by (intro exI [of _ ?d] exI [of _ z'])
      (auto simp: collecting_def link_defs dest!: subsetD [OF set_update_subset_insert])
qed

lemma collect_block:
  assumes h: "collecting x False lb st [] dec" and n: "length bs = 112"
  shows "\<exists>d z. rx x lb bs dec = (procbits x d)\<lparr>zc := z\<rparr> \<and> length z = MDC_ND
    \<and> dec_wf x d \<and> xorb d ! x = last bs \<and> shstate d ! x = st \<and> bits d ! x = bs
    \<and> results d = results dec"
proof -
  obtain cs b where bs: "bs = cs @ [b]" using n by (cases bs rule: rev_cases) auto
  then have l: "length cs = 111" using n by simp
  from collect_run [OF h, of cs] this have c: "collecting x False (last (lb # cs)) st cs (rx x lb cs dec)"
    "results (rx x lb cs dec) = results dec" by simp_all
  have st: "shstate (rx x lb cs dec) ! x = st" using c(1) by (simp add: collecting_def)
  obtain d z where "rx_bit x (last (lb # cs)) b (rx x lb cs dec) = (procbits x d)\<lparr>zc := z\<rparr>"
    "length z = MDC_ND" "dec_wf x d" "xorb d ! x = b" "shstate d = shstate (rx x lb cs dec)"
    "bits d ! x = cs @ [b]" "results d = results (rx x lb cs dec)"
    using collect_last [OF c(1) l, of b] by auto
  with c st show ?thesis
    by (intro exI [of _ d] exI [of _ z]) (simp add: bs rx_append)
qed

section \<open>Accepting a block\<close>

lemma head_byte_16:
  "push_bit 8 (ucast (ucast (drop_bit 8 u AND 0xFF) :: byte)) OR ucast (ucast (u AND 0xFF) :: byte)
     = (ucast u :: 'w::len word)" if "16 \<le> LENGTH('w)" for u :: "16 word"
proof (rule bit_word_eqI)
  fix n assume "n < LENGTH('w)"
  have hi: "n < 16" if "bit u n"
    using bit_imp_le_length [OF that] by simp
  have m: "(0xFF :: 16 word) = mask 8" by (simp add: mask_eq_exp_minus_1)
  show "bit (push_bit 8 (ucast (ucast (drop_bit 8 u AND 0xFF) :: byte))
      OR ucast (ucast (u AND 0xFF) :: byte) :: 'w word) n = bit (ucast u :: 'w word) n"
    using that \<open>n < LENGTH('w)\<close> hi by (cases "n < 8") (auto simp: m bit_simps)
qed

end
