(* ===== verification/MdcKeying.thy ===== *)
theory MdcKeying
  imports MdcLink
begin

unbundle bit_operations_syntax

text \<open>
  The keying state machine of the encoder: which bit is on the air after so many bit times, when
  the burst ends, and what the receiver of the ideal channel sees of it.
\<close>

section \<open>The position in the burst\<close>

lemma tx_bits_Cons: "tx_bits (d # ds) = map (\<lambda>ipos. bit d (7 - ipos)) [0..<8] @ tx_bits ds"
  by (simp add: tx_bits_def)

lemma length_tx_bits [simp]: "length (tx_bits ds) = 8 * length ds"
  by (induction ds) (auto simp: tx_bits_def)

lemma length_enc_leader [simp]: "length enc_leader = 12"
  by (simp add: enc_leader_def)

lemma length_enc_str [simp]: "length (enc_str d) = 14"
  by (simp add: enc_str_def pack_bits_def)

lemma tx_bits_append: "tx_bits (as @ bs) = tx_bits as @ tx_bits bs"
  by (simp add: tx_bits_def)

lemma nth_tx_bits: "i < length ds \<Longrightarrow> j < 8 \<Longrightarrow> tx_bits ds ! (8 * i + j) = bit (ds ! i) (7 - j)"
proof (induction ds arbitrary: i)
  case Nil
  then show ?case by simp
next
  case (Cons d ds)
  show ?case
  proof (cases i)
    case 0
    with Cons.prems show ?thesis by (simp add: tx_bits_Cons nth_append del: upt_Suc)
  next
    case (Suc i')
    then have "tx_bits (d # ds) ! (8 * i + j) = tx_bits ds ! (8 * i' + j)"
      by (simp add: tx_bits_Cons nth_append del: upt_Suc)
    with Suc Cons show ?thesis by simp
  qed
qed

text \<open>The encoder is keying bit \<open>k\<close> of its buffer.\<close>

definition enc_at :: "mdc_encoder \<Rightarrow> nat \<Rightarrow> bool" where
  "enc_at e k \<longleftrightarrow> e_state e \<noteq> 0 \<and> e_ipos e < 8 \<and> k = 8 * e_bpos e + e_ipos e
     \<and> e_bpos e < length (e_data e) \<and> e_lb e = tx_bits (e_data e) ! k"

definition same_burst :: "mdc_encoder \<Rightarrow> mdc_encoder \<Rightarrow> bool" where
  "same_burst e e' \<longleftrightarrow> e_data e' = e_data e \<and> e_loaded e' = e_loaded e"

lemma enc_key_at:
  assumes "e_bpos e < length (e_data e)" and "e_ipos e < 8" and "e_state e \<noteq> 0"
  shows "\<exists>e'. enc_key e = Some e' \<and> enc_at e' (8 * e_bpos e + e_ipos e) \<and> same_burst e e'
    \<and> e_xorb e' = (tx_bits (e_data e) ! (8 * e_bpos e + e_ipos e) \<noteq> e_lb e)"
  using assms nth_tx_bits [OF assms(1,2)]
  by (auto simp: enc_key_def Let_def enc_at_def same_burst_def)

text \<open>The three outcomes of the end of a bit time.\<close>

lemma enc_next:
  assumes at: "enc_at e k" and k: "Suc k < 8 * Suc (e_loaded e)" "Suc k < 8 * length (e_data e)"
  shows "\<exists>e'. enc_get_samp True e = Some e' \<and> enc_at e' (Suc k) \<and> same_burst e e'
    \<and> e_xorb e' = (tx_bits (e_data e) ! Suc k \<noteq> tx_bits (e_data e) ! k)"
proof (cases "e_ipos e = 7")
  case True
  let ?e = "e\<lparr>e_ipos := 0, e_bpos := e_bpos e + 1\<rparr>"
  have "enc_get_samp True e = enc_key ?e" using at k True
    by (auto simp: enc_get_samp_def enc_at_def Let_def)
  with enc_key_at [of ?e] at k True show ?thesis
    by (auto simp: enc_at_def same_burst_def)
next
  case False
  let ?e = "e\<lparr>e_ipos := Suc (e_ipos e)\<rparr>"
  have "enc_get_samp True e = enc_key ?e" using at False
    by (auto simp: enc_get_samp_def enc_at_def Let_def)
  with enc_key_at [of ?e] at k False show ?thesis
    by (auto simp: enc_at_def same_burst_def)
qed

lemma enc_last:
  assumes "enc_at e k" and "Suc k = 8 * Suc (e_loaded e)"
  shows "\<exists>e'. enc_get_samp True e = Some e' \<and> e_state e' = 0 \<and> same_burst e e'"
proof -
  have "e_ipos e = 7" "e_bpos e = e_loaded e" using assms by (auto simp: enc_at_def) arith+
  then show ?thesis by (simp add: enc_get_samp_def Let_def same_burst_def)
qed

lemma enc_outside:
  assumes "enc_at e k" and "Suc k = 8 * length (e_data e)" and "length (e_data e) \<le> e_loaded e"
  shows "enc_get_samp True e = None"
proof -
  have "e_ipos e = 7" "e_bpos e + 1 = length (e_data e)" using assms by (auto simp: enc_at_def) arith+
  with assms show ?thesis by (simp add: enc_get_samp_def enc_key_def Let_def)
qed

section \<open>The keys on the air\<close>

fun enc_keys :: "nat \<Rightarrow> mdc_encoder \<Rightarrow> bool list option" where
  "enc_keys 0 e = Some []"
| "enc_keys (Suc n) e =
     (case enc_get_samp True e of None \<Rightarrow> None
      | Some e' \<Rightarrow> (if e_state e' = 0 then None
          else case enc_keys n e' of None \<Rightarrow> None | Some ks \<Rightarrow> Some (e_xorb e' # ks)))"

text \<open>The first \<open>n\<close> keys of a burst: the key of the bit the burst starts with, then one for each bit time.\<close>

definition enc_burst :: "nat \<Rightarrow> mdc_encoder \<Rightarrow> bool list option" where
  "enc_burst n e = (let s = enc_start e in
     case enc_keys (n - 1) s of None \<Rightarrow> None | Some ks \<Rightarrow> Some (take n (e_xorb s # ks)))"

fun diffs :: "bool \<Rightarrow> bool list \<Rightarrow> bool list" where
  "diffs lb [] = []"
| "diffs lb (b # bs) = (b \<noteq> lb) # diffs b bs"

definition rx_keys :: "nat \<Rightarrow> bool list \<Rightarrow> mdc_decoder \<Rightarrow> mdc_decoder" where
  "rx_keys x ks dec = foldl (\<lambda>d k. bit_time x (d\<lparr>zc := (zc d)[x := if k then 3 else 2]\<rparr>)) dec ks"

lemma take_diffs: "take k (diffs lb bs) = diffs lb (take k bs)"
  by (induction bs arbitrary: lb k) (auto simp: take_Cons split: nat.split)

lemma rx_keys_diffs: "rx_keys x (diffs lb bs) dec = rx x lb bs dec"
  by (induction bs arbitrary: lb dec) (simp_all add: rx_keys_def rx_bit_def)

lemma enc_keys_diffs:
  "enc_at e k \<Longrightarrow> k + n < 8 * Suc (e_loaded e) \<Longrightarrow> k + n < 8 * length (e_data e) \<Longrightarrow>
   enc_keys n e = Some (diffs (tx_bits (e_data e) ! k) (take n (drop (Suc k) (tx_bits (e_data e)))))"
proof (induction n arbitrary: e k)
  case 0
  then show ?case by simp
next
  case (Suc n)
  obtain e' where e': "enc_get_samp True e = Some e'" "enc_at e' (Suc k)" "same_burst e e'"
    "e_xorb e' = (tx_bits (e_data e) ! Suc k \<noteq> tx_bits (e_data e) ! k)"
    using enc_next [OF Suc.prems(1)] Suc.prems by auto
  then have "enc_keys n e' = Some (diffs (tx_bits (e_data e) ! Suc k) (take n (drop (Suc (Suc k)) (tx_bits (e_data e)))))"
    using Suc.IH [of e' "Suc k"] Suc.prems by (simp add: same_burst_def)
  moreover have "drop (Suc k) (tx_bits (e_data e)) = tx_bits (e_data e) ! Suc k # drop (Suc (Suc k)) (tx_bits (e_data e))"
    using Suc.prems by (intro Cons_nth_drop_Suc [symmetric]) simp
  ultimately show ?case using e' by (simp add: enc_at_def)
qed

lemma enc_start_at:
  assumes "e_state e = 0" and "e_data e \<noteq> []" and "\<not> bit (hd (e_data e)) 7"
  shows "enc_at (enc_start e) 0" and "same_burst e (enc_start e)" and "e_xorb (enc_start e)"
  using assms nth_tx_bits [of 0 "e_data e" 0]
  by (auto simp: enc_start_def enc_at_def same_burst_def hd_conv_nth)

lemma enc_burst_bits:
  assumes s: "e_state e = 0" "\<not> bit (hd (e_data e)) 7"
    and n: "0 < n" "n \<le> 8 * Suc (e_loaded e)" "n \<le> 8 * length (e_data e)"
  shows "enc_burst n e = Some (diffs True (take n (tx_bits (e_data e))))"
proof -
  have ne: "e_data e \<noteq> []" using n by auto
  note st = enc_start_at [OF s(1) ne s(2)]
  obtain m where m: "n = Suc m" using n by (cases n) auto
  let ?bs = "tx_bits (e_data e)"
  have "\<not> ?bs ! 0" using s(2) ne nth_tx_bits [of 0 "e_data e" 0] by (simp add: hd_conv_nth)
  moreover have "?bs = ?bs ! 0 # drop 1 ?bs" using ne
    by (metis Cons_nth_drop_Suc One_nat_def drop0 length_0_conv length_tx_bits mult_eq_0_iff neq0_conv zero_neq_numeral)
  ultimately have "take n ?bs = False # take m (drop (Suc 0) ?bs)"
    by (metis (full_types) One_nat_def m take_Suc_Cons)
  moreover have "enc_keys m (enc_start e) = Some (diffs (?bs ! 0) (take m (drop (Suc 0) ?bs)))"
    using enc_keys_diffs [OF st(1), of m] st(2) n m by (simp add: same_burst_def)
  moreover have "length (diffs b cs) = length cs" for b cs by (induction cs arbitrary: b) auto
  ultimately show ?thesis
    using st(3) \<open>\<not> ?bs ! 0\<close> m n by (simp add: enc_burst_def Let_def)
qed

section \<open>The end of the burst\<close>

lemma enc_samples_stop: "e_state e = 0 \<Longrightarrow> enc_samples ws i e = Some (i, e)"
  by (cases ws) auto

lemma same_burst_trans: "same_burst a b \<Longrightarrow> same_burst b c \<Longrightarrow> same_burst a c"
  by (simp add: same_burst_def)

lemma enc_samples_ends:
  "enc_at e k \<Longrightarrow> e_loaded e < length (e_data e) \<Longrightarrow> k < 8 * Suc (e_loaded e) \<Longrightarrow>
   k + count_list ws True \<ge> 8 * Suc (e_loaded e) \<Longrightarrow>
   \<exists>j e'. enc_samples ws i e = Some (j, e') \<and> e_state e' = 0 \<and> same_burst e e'
     \<and> j \<ge> i + (8 * Suc (e_loaded e) - k) \<and> j \<le> i + length ws"
proof (induction ws arbitrary: i e k)
  case Nil
  then show ?case by simp
next
  case (Cons w ws)
  have on: "e_state e \<noteq> 0" using Cons.prems by (simp add: enc_at_def)
  show ?case
  proof (cases w)
    case False
    then have "8 * Suc (e_loaded e) \<le> k + count_list ws True" using Cons.prems(4) by simp
    from Cons.IH [OF Cons.prems(1-3) this, of "i + 1"] obtain j e' where
      "enc_samples ws (i + 1) e = Some (j, e')" "e_state e' = 0" "same_burst e e'"
      "i + 1 + (8 * Suc (e_loaded e) - k) \<le> j" "j \<le> i + 1 + length ws" by blast
    with False on show ?thesis by (simp add: enc_get_samp_def)
  next
    case w: True
    show ?thesis
    proof (cases "Suc k = 8 * Suc (e_loaded e)")
      case True
      with enc_last [OF Cons.prems(1) this] w on show ?thesis by (auto simp: enc_samples_stop)
    next
      case False
      have lim: "Suc k < 8 * Suc (e_loaded e)" "Suc k < 8 * length (e_data e)"
        using False Cons.prems(2,3) by auto
      obtain e' where e': "enc_get_samp True e = Some e'" "enc_at e' (Suc k)" "same_burst e e'"
        using enc_next [OF Cons.prems(1) lim] by auto
      obtain j e'' where "enc_samples ws (i + 1) e' = Some (j, e'')" "e_state e'' = 0" "same_burst e' e''"
        "j \<ge> i + 1 + (8 * Suc (e_loaded e) - Suc k)" "j \<le> i + 1 + length ws"
        using Cons.IH [OF e'(2), of "i + 1"] Cons.prems lim w e'(3) by (auto simp: same_burst_def)
      with e' on w show ?thesis by (auto intro: same_burst_trans)
    qed
  qed
qed

lemma enc_samples_outside:
  "enc_at e k \<Longrightarrow> length (e_data e) \<le> e_loaded e \<Longrightarrow>
   k + count_list ws True \<ge> 8 * length (e_data e) \<Longrightarrow> enc_samples ws i e = None"
proof (induction ws arbitrary: i e k)
  case Nil
  then show ?case by (auto simp: enc_at_def)
next
  case (Cons w ws)
  have on: "e_state e \<noteq> 0" using Cons.prems by (simp add: enc_at_def)
  show ?case
  proof (cases w)
    case False
    with Cons.IH [OF Cons.prems(1,2)] Cons.prems(3) on show ?thesis by (simp add: enc_get_samp_def)
  next
    case w: True
    show ?thesis
    proof (cases "Suc k = 8 * length (e_data e)")
      case True
      with enc_outside [OF Cons.prems(1) True Cons.prems(2)] w on show ?thesis by simp
    next
      case False
      have lim: "Suc k < 8 * Suc (e_loaded e)" "Suc k < 8 * length (e_data e)"
        using False Cons.prems(1,2) by (auto simp: enc_at_def)
      obtain e' where e': "enc_get_samp True e = Some e'" "enc_at e' (Suc k)" "same_burst e e'"
        using enc_next [OF Cons.prems(1) lim] by auto
      with Cons.IH [OF e'(2), of "i + 1"] Cons.prems w on show ?thesis by (simp add: same_burst_def)
    qed
  qed
qed

end
