(* ===== verification/MdcSync.thy ===== *)
theory MdcSync
  imports MdcKeying
begin

unbundle bit_operations_syntax

text \<open>
  The sync hunt seen as a comparison of bit lists: the two registers hold the last 64 bits, and
  the count that \<^verbatim>\<open>_shiftin\<close> compares with its threshold is the number of places in which the
  last 40 bits differ from the sync word.
\<close>

section \<open>The registers after the leader\<close>

text \<open>Register bit \<open>n\<close> of the 64 bits \<open>synchigh\<close>, \<open>synclow\<close>.\<close>

definition regbit :: "32 word \<times> 32 word \<Rightarrow> nat \<Rightarrow> bool" where
  "regbit r n = (if n < 32 then bit (snd r) n else bit (fst r) (n - 32))"

lemma sync_shift_low: "bit (snd (sync_shift b r)) n \<longleftrightarrow> (if n = 0 then b else n < 32 \<and> bit (snd r) (n - 1))"
  by (cases n) (auto simp: sync_shift_def split_beta bit_simps bit_1_iff simp del: push_bit_Suc)

lemma sync_shift_high:
  "bit (fst (sync_shift b r)) n \<longleftrightarrow> (if n = 0 then bit (snd r) 31 else n < 32 \<and> bit (fst r) (n - 1))"
proof -
  have "snd r AND 0x80000000 = 0 \<longleftrightarrow> \<not> bit (snd r) 31"
    using and_exp_eq_0_iff_not_bit [of "snd r" 31] by simp
  then show ?thesis
    by (cases n) (auto simp: sync_shift_def split_beta bit_simps bit_1_iff simp del: push_bit_Suc)
qed

lemma regbit_shift: "regbit (sync_shift b r) n \<longleftrightarrow> (if n = 0 then b else n < 64 \<and> regbit r (n - 1))"
proof -
  consider "n = 0" | "0 < n" "n < 32" | "n = 32" | "32 < n" by linarith
  then show ?thesis
    by cases (auto simp: regbit_def sync_shift_low sync_shift_high)
qed

lemma regbit_run:
  "regbit (foldl (\<lambda>r b. sync_shift b r) r bs) n \<longleftrightarrow>
     (if n < length bs then n < 64 \<and> rev bs ! n
      else if bs = [] then regbit r n else n < 64 \<and> regbit r (n - length bs))"
proof (induction bs arbitrary: n rule: rev_induct)
  case Nil
  then show ?case by simp
next
  case (snoc b bs)
  then show ?case by (cases n) (auto simp: regbit_shift)
qed

lemma regs_eqI: "(\<And>n. n < 64 \<Longrightarrow> regbit r n = regbit s n) \<Longrightarrow> r = s"
proof (rule prod_eqI; rule bit_word_eqI)
  fix n assume h: "\<And>n. n < 64 \<Longrightarrow> regbit r n = regbit s n"
  show "bit (snd r) n = bit (snd s) n" if "n < LENGTH(32)"
    using h [of n] that by (simp add: regbit_def)
  show "bit (fst r) n = bit (fst s) n" if "n < LENGTH(32)"
    using h [of "n + 32"] that by (simp add: regbit_def)
qed

lemma regs_forget:
  "64 \<le> length bs \<Longrightarrow> foldl (\<lambda>r b. sync_shift b r) r bs = foldl (\<lambda>r b. sync_shift b r) s bs"
  by (rule regs_eqI) (simp add: regbit_run)

section \<open>Counting ones\<close>

fun popn :: "nat \<Rightarrow> nat" where
  "popn n = (if n = 0 then 0 else n mod 2 + popn (n div 2))"

declare popn.simps [simp del]

lemma popn_bits: "n < 2 ^ m \<Longrightarrow> popn n = length (filter (bit n) [0..<m])"
proof (induction m arbitrary: n)
  case 0
  then show ?case by (simp add: popn.simps)
next
  case (Suc m)
  have "[0..<Suc m] = 0 # map Suc [0..<m]" by (simp add: upt_conv_Cons map_Suc_upt)
  moreover have "filter (bit n) (map Suc [0..<m]) = map Suc (filter (bit (n div 2)) [0..<m])"
    by (simp add: filter_map comp_def bit_Suc)
  moreover have "popn n = n mod 2 + popn (n div 2)" by (cases "n = 0") (simp_all add: popn.simps [of n] popn.simps [of 0])
  ultimately show ?case
    using Suc.IH [of "n div 2"] Suc.prems by (auto simp: bit_0 mod2_eq_if)
qed

lemma half_pred: "0 < b \<Longrightarrow> (2 * b - 1) div 2 = b - 1" for b :: nat
  by arith

lemma popn_and_pred: "0 < n \<Longrightarrow> Suc (popn (n AND (n - 1))) = popn n"
proof (induction n rule: less_induct)
  case (less n)
  have r: "popn k = k mod 2 + popn (k div 2)" for k
    by (cases "k = 0") (simp_all add: popn.simps [of k] popn.simps [of 0])
  show ?case
  proof (cases "even n")
    case True
    then obtain b where b: "n = 2 * b" "0 < b" using less.prems by (auto elim: evenE)
    have "n AND (n - 1) = 2 * (b AND (b - 1))"
      using b by (subst and_rec) (simp add: half_pred [unfolded One_nat_def])
    with less.IH [of b] b show ?thesis using r [of "2 * b"] r [of "2 * (b AND (b - 1))"] by simp
  next
    case False
    then obtain b where b: "n = 2 * b + 1" by (auto elim: oddE)
    have "n AND (n - 1) = 2 * b" using b by (subst and_rec) simp
    with b show ?thesis using r [of "2 * b + 1"] r [of "2 * b"] by simp
  qed
qed

lemma onebits_loop_popn: "onebits_loop n i = i + popn (unat n)"
proof (induction n i rule: onebits_loop.induct)
  case (1 n i)
  show ?case
  proof (cases "n = 0")
    case True
    then show ?thesis by (simp add: onebits_loop.simps [of 0] popn.simps [of 0])
  next
    case False
    have "unat (n AND (n - 1)) = unat n AND (unat n - 1)"
      using False by (simp add: unsigned_and_eq unat_minus_one)
    with 1 False popn_and_pred [of "unat n"] show ?thesis
      by (simp add: onebits_loop.simps [of n] unat_gt_0)
  qed
qed

lemma onebits_count: "onebits n = length (filter (bit n) [0..<32])"
proof -
  have "bit (unat n) = bit n" by (rule ext) (simp add: bit_unsigned_iff)
  then show ?thesis
    using popn_bits [of "unat n" 32] unsigned_less [of n]
    by (simp add: onebits_def onebits_loop_popn)
qed

section \<open>The count as a distance\<close>

definition sync_word :: "bool list" where
  "sync_word = drop 56 (tx_bits enc_leader)"

definition hamming :: "bool list \<Rightarrow> bool list \<Rightarrow> nat" where
  "hamming as bs = length (filter (\<lambda>(a, b). a \<noteq> b) (zip as bs))"

definition reg_list :: "32 word \<times> 32 word \<Rightarrow> bool list" where
  "reg_list r = map (regbit r) [0..<40]"

lemma sync_word_bits: "rev sync_word = map (bit (0x092a446f :: 32 word)) [0..<32] @ map (bit (7 :: 32 word)) [0..<8]"
  by code_simp

lemma hamming_append: "length as = length bs \<Longrightarrow> hamming (as @ cs) (bs @ ds) = hamming as bs + hamming cs ds"
  by (simp add: hamming_def)

lemma hamming_map: "hamming (map f xs) (map g xs) = length (filter (\<lambda>x. f x \<noteq> g x) xs)"
  by (induction xs) (auto simp: hamming_def)

lemma onebits_xor: "onebits (c XOR w) = hamming (map (bit w) [0..<32]) (map (bit c) [0..<32])"
  unfolding onebits_count hamming_map bit_xor_iff by (intro arg_cong [of _ _ length] filter_cong) auto

lemma onebits_low: "onebits (0xFF AND (c XOR w)) = hamming (map (bit w) [0..<8]) (map (bit c) [0..<8])"
proof -
  have m: "(0xFF :: 32 word) = mask 8" by (simp add: mask_eq_exp_minus_1)
  have "filter (bit (0xFF AND (c XOR w))) [0..<32] = filter (\<lambda>i. bit w i \<noteq> bit c i) (filter (\<lambda>i. i < 8) [0..<32])"
    unfolding filter_filter by (rule filter_cong) (auto simp: m bit_simps)
  also have "filter (\<lambda>i. i < 8) [0..<32] = [0..<(8::nat)]" by code_simp
  finally show ?thesis by (simp add: onebits_count hamming_map)
qed

lemma sync_count_hamming: "sync_count r = hamming (reg_list r) (rev sync_word)"
proof -
  obtain hi lo where r: "r = (hi, lo)" by fastforce
  have "[0..<40] = [0..<32] @ map (\<lambda>i. i + 32) [0..<(8::nat)]" by code_simp
  then have l: "reg_list r = map (bit lo) [0..<32] @ map (bit hi) [0..<8]"
    by (auto simp: reg_list_def r regbit_def)
  show ?thesis
    unfolding l sync_word_bits unfolding r sync_count_def prod.case Let_def onebits_low onebits_xor
    by (subst hamming_append) (simp_all only: length_map add.commute)
qed

lemma reg_list_shift: "reg_list (sync_shift b r) = b # butlast (reg_list r)"
proof (rule nth_equalityI)
  fix i assume "i < length (reg_list (sync_shift b r))"
  then show "reg_list (sync_shift b r) ! i = (b # butlast (reg_list r)) ! i"
    by (cases i) (auto simp: reg_list_def regbit_shift nth_butlast)
qed (simp add: reg_list_def)

text \<open>The same hunt on bit lists, which evaluates quickly.\<close>

fun no_lock_list :: "bool list \<Rightarrow> bool list \<Rightarrow> bool" where
  "no_lock_list l [] \<longleftrightarrow> True"
| "no_lock_list l (b # bs) \<longleftrightarrow>
     (let l' = b # butlast l; h = hamming l' (rev sync_word) in 5 < h \<and> h < 35 \<and> no_lock_list l' bs)"

lemma no_lock_on: "no_lock r bs = no_lock_list (reg_list r) bs"
  by (induction bs arbitrary: r) (simp_all add: Let_def sync_count_hamming reg_list_shift)

end
