(* ===== verification/MdcProps.thy ===== *)
theory MdcProps
  imports MdcSync
begin

unbundle bit_operations_syntax

text \<open>
  The properties of the MDC-1200 link: a burst built by the encoder is delivered by the decoder,
  for a single and for a double packet and for both polarities; how many sync errors are
  tolerated; which payload errors the checksum turns down.
\<close>

section \<open>Locking on the leader\<close>

definition keyed :: "bool \<Rightarrow> bool list \<Rightarrow> bool list" where
  "keyed p bs = map (\<lambda>b. b \<noteq> p) bs"

lemma leader_word: "foldl (\<lambda>r b. sync_shift b r) (0, 0) (keyed False (tx_bits enc_leader)) = (0x55555507, 0x092a446f)"
  by code_simp

lemma leader_word_inverted:
  "foldl (\<lambda>r b. sync_shift b r) (0, 0) (keyed True (tx_bits enc_leader)) = (0xaaaaaaf8, 0xf6d5bb90)"
  by code_simp

lemma sync_word_counts: "sync_count (0x55555507, 0x092a446f) = 0 \<and> sync_count (0xaaaaaaf8, 0xf6d5bb90) = 40"
  by code_simp

lemma leader_count:
  "sync_count (foldl (\<lambda>r b. sync_shift b r) (0, 0) (keyed p (tx_bits enc_leader))) = (if p then 40 else 0)"
  using sync_word_counts by (cases p) (simp_all add: leader_word leader_word_inverted del: foldl_map)

lemma leader_locks:
  assumes h: "hunting x p lb r dec" and c: "no_lock r (keyed p (butlast (tx_bits enc_leader)))"
  shows "collecting x False (last (tx_bits enc_leader)) 1 [] (rx x lb (tx_bits enc_leader) dec)"
    and "results (rx x lb (tx_bits enc_leader) dec) = results dec"
proof -
  let ?bs = "tx_bits enc_leader"
  let ?cs = "butlast ?bs"
  have bs: "?bs = ?cs @ [last ?bs]" by (rule append_butlast_last_id [symmetric]) (auto simp flip: length_0_conv)
  let ?r = "foldl (\<lambda>r b. sync_shift (b \<noteq> p) r) r ?cs"
  have run: "hunting x p (last (lb # ?cs)) ?r (rx x lb ?cs dec)" "results (rx x lb ?cs dec) = results dec"
    using hunt_run [OF h] c unfolding keyed_def by blast+
  have "sync_shift (last ?bs \<noteq> p) ?r = foldl (\<lambda>r b. sync_shift b r) r (keyed p (?cs @ [last ?bs]))"
    by (simp add: keyed_def foldl_map)
  also have "\<dots> = foldl (\<lambda>r b. sync_shift b r) (0, 0) (keyed p ?bs)"
    unfolding bs [symmetric] by (rule regs_forget) (simp add: keyed_def)
  finally have "sync_count (sync_shift (last ?bs \<noteq> p) ?r) = (if p then 40 else 0)"
    by (simp only: leader_count)
  then have "sync_count (sync_shift (last ?bs \<noteq> p) ?r) \<le> 5 \<and> \<not> p
      \<or> sync_count (sync_shift (last ?bs \<noteq> p) ?r) \<ge> 35 \<and> p" by simp
  note lock = lock_bit [OF run(1) this]
  have "rx x lb ?bs dec = rx_bit x (last (lb # ?cs)) (last ?bs) (rx x lb ?cs dec)"
    by (subst bs) (simp add: rx_append)
  with lock run(2) show "collecting x False (last ?bs) 1 [] (rx x lb ?bs dec)"
    and "results (rx x lb ?bs dec) = results dec" by simp_all
qed

section \<open>Accepting a block\<close>

lemma crc_bytes:
  "(push_bit 8 (ucast (ucast (drop_bit 8 c AND 0xFF) :: byte)) OR ucast (ucast (c AND 0xFF) :: byte) :: 32 word)
     = ucast (u :: 16 word)" if "c = (ucast u :: 64 word)"
proof -
  have "ucast (drop_bit 8 c AND 0xFF) = (ucast (drop_bit 8 u AND 0xFF) :: byte)"
    and "ucast (c AND 0xFF) = (ucast (u AND 0xFF) :: byte)"
    unfolding that by (rule bit_word_eqI, auto simp: bit_simps)+
  then show ?thesis using head_byte_16 [where 'w = 32, of u] by simp
qed

lemma block_accepted:
  assumes d: "length d = 4" and b: "bits dec ! x = tx_bits (enc_str d)"
  shows "unpack_bits (deinterleave (bits dec ! x)) = enc_data d"
    and "dec_docrc (take 4 (enc_data d))
      = (push_bit 8 (ucast (enc_data d ! 5)) OR ucast (enc_data d ! 4) :: 32 word)"
    and "take 4 (enc_data d) = d"
proof -
  show "unpack_bits (deinterleave (bits dec ! x)) = enc_data d" using d b by (simp add: unpack_enc_str)
  show t: "take 4 (enc_data d) = d" using d by (simp add: enc_data_def Let_def)
  have "enc_data d ! 4 = ucast (enc_docrc d AND 0xFF)" "enc_data d ! 5 = ucast (drop_bit 8 (enc_docrc d) AND 0xFF)"
    using d by (simp_all add: enc_data_def Let_def nth_append)
  then show "dec_docrc (take 4 (enc_data d))
      = (push_bit 8 (ucast (enc_data d ! 5)) OR ucast (enc_data d ! 4) :: 32 word)"
    using crc_bytes [OF enc_docrc_mdc [of d]] t by (simp add: dec_docrc_mdc)
qed

lemma nth_enc_data: "length d = 4 \<Longrightarrow> i < 4 \<Longrightarrow> enc_data d ! i = d ! i"
  by (simp add: enc_data_def Let_def nth_append)

lemma unit_bytes: "push_bit 8 (ucast (unit_hi u)) OR ucast (unit_lo u) = (u :: 16 word)"
  using head_byte_16 [where 'w = 16, of u] by (simp add: unit_hi_def unit_lo_def)

definition doubles :: "byte \<Rightarrow> bool" where
  "doubles op \<longleftrightarrow> op = 0x35 \<or> op = 0x55"

lemma procbits_single:
  assumes "bits dec ! x = tx_bits (enc_str [op, arg, unit_hi u, unit_lo u])"
    and "shstate dec ! x = 1" and "\<not> doubles op"
  shows "good (procbits x dec) = 1" and "d_op (procbits x dec) = op"
    and "d_arg (procbits x dec) = arg" and "d_unitID (procbits x dec) = u"
  using assms block_accepted [of "[op, arg, unit_hi u, unit_lo u]" dec x]
  by (simp_all add: procbits_def Let_def nth_enc_data unit_bytes doubles_def)

lemma procbits_first:
  assumes "bits dec ! x = tx_bits (enc_str [op, arg, unit_hi u, unit_lo u])"
    and "shstate dec ! x = 1" and "doubles op" and "dec_wf x dec" and "xorb dec ! x = lb"
  shows "collecting x False lb 2 [] ((procbits x dec)\<lparr>zc := z\<rparr>) \<longleftrightarrow> length z = MDC_ND"
    and "d_op (procbits x dec) = op" and "good (procbits x dec) = 0"
    and "d_arg (procbits x dec) = arg" and "d_unitID (procbits x dec) = u"
  using assms block_accepted [of "[op, arg, unit_hi u, unit_lo u]" dec x]
  by (auto simp: procbits_def Let_def nth_enc_data unit_bytes doubles_def clearbits_def
      collecting_def link_defs dest!: subsetD [OF set_update_subset_insert])

lemma procbits_second:
  assumes "bits dec ! x = tx_bits (enc_str [a, b, c, d])" and "shstate dec ! x = 2"
  shows "good (procbits x dec) = 2" and "extra0 (procbits x dec) = a"
    and "extra1 (procbits x dec) = b" and "extra2 (procbits x dec) = c"
    and "extra3 (procbits x dec) = d" and "d_op (procbits x dec) = d_op dec"
    and "d_arg (procbits x dec) = d_arg dec" and "d_unitID (procbits x dec) = d_unitID dec"
  using assms block_accepted [of "[a, b, c, d]" dec x]
  by (simp_all add: procbits_def Let_def nth_enc_data)

section \<open>The link\<close>

lemma single_burst:
  assumes s: "mdc_encoder_set_packet (Some e) op arg u = (0, Some e')" and l: "length (e_data e) = 40"
  shows "enc_burst 208 e' = Some (diffs True (tx_bits enc_leader @ tx_bits (enc_str [op, arg, unit_hi u, unit_lo u])))"
    and "e_loaded e' = 26 \<and> length (e_data e') = 40 \<and> e_state e' = 0 \<and> \<not> bit (hd (e_data e')) 7"
proof -
  have d: "e_data e' = enc_leader @ enc_str [op, arg, unit_hi u, unit_lo u] @ drop 26 (e_data e)"
    and st: "e_state e' = 0" "e_loaded e' = 26"
    using s by (auto simp: mdc_encoder_set_packet_def split: if_splits)
  have "hd (e_data e') = 0x55" by (simp add: d enc_leader_def)
  then show f: "e_loaded e' = 26 \<and> length (e_data e') = 40 \<and> e_state e' = 0 \<and> \<not> bit (hd (e_data e')) 7"
    using l st by (simp add: d bit_simps)
  have "take 208 (tx_bits (e_data e')) = tx_bits enc_leader @ tx_bits (enc_str [op, arg, unit_hi u, unit_lo u])"
    by (simp add: d tx_bits_append)
  with f show "enc_burst 208 e' = Some (diffs True (tx_bits enc_leader @ tx_bits (enc_str [op, arg, unit_hi u, unit_lo u])))"
    by (subst enc_burst_bits) simp_all
qed

lemma double_burst:
  assumes s: "mdc_encoder_set_double_packet (Some e) op arg u x0 x1 x2 x3 = (0, Some e')"
    and l: "length (e_data e) = 40"
  shows "enc_burst 320 e' = Some (diffs True (tx_bits enc_leader
      @ tx_bits (enc_str [op, arg, unit_hi u, unit_lo u]) @ tx_bits (enc_str [x0, x1, x2, x3])))"
    and "e_loaded e' = 40 \<and> length (e_data e') = 40 \<and> e_state e' = 0 \<and> \<not> bit (hd (e_data e')) 7"
proof -
  have d: "e_data e' = enc_leader @ enc_str [op, arg, unit_hi u, unit_lo u] @ enc_str [x0, x1, x2, x3]"
    and st: "e_state e' = 0" "e_loaded e' = 40"
    using s l by (auto simp: mdc_encoder_set_double_packet_def split: if_splits)
  have "hd (e_data e') = 0x55" by (simp add: d enc_leader_def)
  then show f: "e_loaded e' = 40 \<and> length (e_data e') = 40 \<and> e_state e' = 0 \<and> \<not> bit (hd (e_data e')) 7"
    using l st by (simp add: d bit_simps)
  have "take 320 (tx_bits (e_data e')) = tx_bits enc_leader
      @ tx_bits (enc_str [op, arg, unit_hi u, unit_lo u]) @ tx_bits (enc_str [x0, x1, x2, x3])"
    by (simp add: d tx_bits_append)
  with f show "enc_burst 320 e' = Some (diffs True (tx_bits enc_leader
      @ tx_bits (enc_str [op, arg, unit_hi u, unit_lo u]) @ tx_bits (enc_str [x0, x1, x2, x3])))"
    by (subst enc_burst_bits) simp_all
qed

text \<open>A receiver that waits for a burst: channel \<open>x\<close> hunts, its register is upright or inverted, and the leader holds no false lock.\<close>

definition ready :: "nat \<Rightarrow> bool \<Rightarrow> mdc_decoder \<Rightarrow> bool" where
  "ready x p dec \<longleftrightarrow> hunting x p True (regs x dec) dec
     \<and> no_lock (regs x dec) (keyed p (butlast (tx_bits enc_leader)))"

lemma ready_block:
  assumes r: "ready x p dec" and n: "length bs = 112"
  shows "\<exists>d z. rx x True (tx_bits enc_leader @ bs) dec = (procbits x d)\<lparr>zc := z\<rparr> \<and> length z = MDC_ND
    \<and> dec_wf x d \<and> xorb d ! x = last bs \<and> shstate d ! x = 1 \<and> bits d ! x = bs \<and> results d = results dec"
proof -
  have h: "hunting x p True (regs x dec) dec"
    and c: "no_lock (regs x dec) (keyed p (butlast (tx_bits enc_leader)))"
    using r by (simp_all add: ready_def)
  note lock = leader_locks [OF h c]
  have "last (True # tx_bits enc_leader) = last (tx_bits enc_leader)"
    by (simp add: flip: length_0_conv)
  then show ?thesis using collect_block [OF lock(1) n] lock(2) by (simp only: rx_append)
qed

definition ex_enc :: mdc_encoder where
  "ex_enc = \<lparr>e_loaded = 0, e_bpos = 0, e_ipos = 0, e_state = 0, e_lb = False, e_xorb = False,
     e_data = replicate 40 0\<rparr>"

definition ex_dec :: "bool \<Rightarrow> mdc_decoder" where
  "ex_dec b = \<lparr>d_hyst = 3, d_level = 0, d_lastv = 0, zc = replicate 4 0, xorb = replicate 4 b,
     synclow = replicate 4 0, synchigh = replicate 4 0, shstate = replicate 4 0,
     shcount = replicate 4 0, bits = replicate 4 (replicate 112 False), good = 0, d_op = 0,
     d_arg = 0, d_unitID = 0, d_crc = 0, extra0 = 0, extra1 = 0, extra2 = 0, extra3 = 0\<rparr>"

lemma ex_no_lock:
  "no_lock (0, 0) (keyed False (butlast (tx_bits enc_leader)))"
  "no_lock (0, 0) (keyed True (butlast (tx_bits enc_leader)))"
  unfolding no_lock_on by (code_simp, code_simp)

lemma ex_ready: "x < 4 \<Longrightarrow> ready x (\<not> b) (ex_dec b)"
  using ex_no_lock by (cases b) (simp_all add: ready_def hunting_def link_defs ex_dec_def)

text \<open>C3. A packet handed to an idle encoder and keyed onto an undisturbed channel is delivered by a
  decoder that waits for it, whatever the polarity its bit register happens to have: the opcode,
  the argument and the unit identifier come out as they went in, and once only. (The two opcodes
  that announce a second block are the subject of the next property.)\<close>

theorem mdc_link_delivers_packet:
  assumes "mdc_encoder_set_packet (Some e) op arg unitID = (0, Some e')" and "length (e_data e) = 40"
    and "op \<noteq> 0x35" and "op \<noteq> 0x55" and "ready x p dec" and "enc_burst 208 e' = Some ks"
  shows "\<exists>dec'. mdc_decoder_get_packet (Some (rx_keys x ks dec)) = (0, Some (op, arg, unitID), Some dec')
    \<and> fst (mdc_decoder_get_packet (Some dec')) = - 1"
proof -
  let ?bs = "tx_bits (enc_str [op, arg, unit_hi unitID, unit_lo unitID])"
  have ks: "rx_keys x ks dec = rx x True (tx_bits enc_leader @ ?bs) dec"
    using single_burst(1) [OF assms(1,2)] assms(6) by (simp flip: rx_keys_diffs)
  obtain d z where d: "rx x True (tx_bits enc_leader @ ?bs) dec = (procbits x d)\<lparr>zc := z\<rparr>"
    "shstate d ! x = 1" "bits d ! x = ?bs"
    using ready_block [OF assms(5), of ?bs] by auto
  have "\<not> doubles op" using assms by (simp add: doubles_def)
  from procbits_single [OF d(3,2) this] ks d(1) show ?thesis
    by (simp add: mdc_decoder_get_packet_def)
qed

theorem mdc_link_delivers_packet_witness:
  "\<exists>e' ks dec'. mdc_encoder_set_packet (Some ex_enc) 1 0x80 0x1234 = (0, Some e')
    \<and> enc_burst 208 e' = Some ks
    \<and> mdc_decoder_get_packet (Some (rx_keys 2 ks (ex_dec False))) = (0, Some (1, 0x80, 0x1234), Some dec')"
proof -
  obtain e' where e': "mdc_encoder_set_packet (Some ex_enc) 1 0x80 0x1234 = (0, Some e')"
    by (simp add: mdc_encoder_set_packet_def ex_enc_def)
  moreover have l: "length (e_data ex_enc) = 40" by (simp add: ex_enc_def)
  ultimately obtain ks where "enc_burst 208 e' = Some ks" using single_burst(1) by blast
  with mdc_link_delivers_packet [OF e' l _ _ ex_ready this, of 2 False] e' show ?thesis by auto
qed

text \<open>The flag that tells of a packet while a double packet comes in: as before until the first block is
  complete, then lowered.\<close>

lemma no_lock_take: "no_lock r bs \<Longrightarrow> no_lock r (take k bs)"
  by (induction bs arbitrary: r k) (auto simp: Let_def take_Cons split: nat.split)

lemma good_while_first:
  assumes r: "ready x p dec" and k: "k < 208" and n: "length bs = 112"
  shows "good (rx x True (take k (tx_bits enc_leader @ bs)) dec) = good dec"
proof -
  have h: "hunting x p True (regs x dec) dec"
    and c: "no_lock (regs x dec) (keyed p (butlast (tx_bits enc_leader)))"
    using r by (simp_all add: ready_def)
  have len: "length (tx_bits enc_leader) = 96" by simp
  have "results (rx x True (take k (tx_bits enc_leader @ bs)) dec) = results dec"
  proof (cases "k < 96")
    case True
    then have "take k (tx_bits enc_leader @ bs) = take k (butlast (tx_bits enc_leader))" using len by (simp add: take_butlast)
    then show ?thesis
      using hunt_run [OF h, of "take k (butlast (tx_bits enc_leader))"] no_lock_take [OF c, of k]
      by (simp add: keyed_def take_map)
  next
    case False
    have "last (True # tx_bits enc_leader) = last (tx_bits enc_leader)" by (simp flip: length_0_conv)
    then show ?thesis
      using leader_locks [OF h c] collect_run [of x _ 1 "[]" _ "take (k - 96) bs"] False k n len
      by (simp add: rx_append)
  qed
  then show ?thesis by (simp add: results_def)
qed

lemma good_while_second:
  assumes r: "ready x p dec" and op: "doubles op" and n: "length cs < 112"
  shows "good (rx x True (tx_bits enc_leader @ tx_bits (enc_str [op, arg, unit_hi u, unit_lo u]) @ cs) dec) = 0"
proof -
  let ?bs = "tx_bits (enc_str [op, arg, unit_hi u, unit_lo u])"
  obtain d z where d: "rx x True (tx_bits enc_leader @ ?bs) dec = (procbits x d)\<lparr>zc := z\<rparr>" "length z = MDC_ND"
    "dec_wf x d" "xorb d ! x = last ?bs" "shstate d ! x = 1" "bits d ! x = ?bs"
    using ready_block [OF r, of ?bs] by auto
  note first = procbits_first [OF d(6,5) op d(3,4)]
  have "last (True # tx_bits enc_leader @ ?bs) = last ?bs" by (simp flip: length_0_conv)
  moreover have "results (rx x (last ?bs) cs ((procbits x d)\<lparr>zc := z\<rparr>)) = results ((procbits x d)\<lparr>zc := z\<rparr>)"
    using collect_run [of x "last ?bs" 2 "[]" "(procbits x d)\<lparr>zc := z\<rparr>" cs] first(1) d(2) n by simp
  ultimately show ?thesis
    using rx_append [of x True "tx_bits enc_leader @ ?bs" cs] d(1) first(3) by (simp add: results_def)
qed

text \<open>C8. A double packet is delivered whole: with one of the two announcing opcodes the first block is
  not handed out alone, since from its last bit until the last bit of the second block both functions that
  ask for a packet fail (and before, unless an older packet was waiting); after the second block the seven
  values come out as they went in, and not as a single packet.\<close>

theorem mdc_link_delivers_double_packet:
  assumes "mdc_encoder_set_double_packet (Some e) op arg unitID x0 x1 x2 x3 = (0, Some e')"
    and "length (e_data e) = 40" and "op = 0x35 \<or> op = 0x55" and "ready x p dec"
    and "enc_burst 320 e' = Some ks"
  shows "(\<exists>dec'. mdc_decoder_get_double_packet (Some (rx_keys x ks dec))
      = (0, Some (op, arg, unitID, x0, x1, x2, x3), Some dec'))
    \<and> fst (mdc_decoder_get_packet (Some (rx_keys x ks dec))) = - 1
    \<and> (\<forall>k < 320. 208 \<le> k \<or> good dec = 0 \<longrightarrow>
        fst (mdc_decoder_get_packet (Some (rx_keys x (take k ks) dec))) = - 1
        \<and> fst (mdc_decoder_get_double_packet (Some (rx_keys x (take k ks) dec))) = - 1)"
proof -
  let ?bs = "tx_bits (enc_str [op, arg, unit_hi unitID, unit_lo unitID])"
  let ?cs = "tx_bits (enc_str [x0, x1, x2, x3])"
  have keys: "ks = diffs True (tx_bits enc_leader @ ?bs @ ?cs)"
    using double_burst(1) [OF assms(1,2)] assms(5) by simp
  have ks: "rx_keys x ks dec = rx x (last (True # tx_bits enc_leader @ ?bs)) ?cs (rx x True (tx_bits enc_leader @ ?bs) dec)"
    using keys rx_append [of x True "tx_bits enc_leader @ ?bs" ?cs] by (simp add: rx_keys_diffs)
  have dop: "doubles op" using assms(3) by (simp add: doubles_def)
  have early: "good (rx_keys x (take k ks) dec) = (if k < 208 then good dec else 0)" if "k < 320" for k
  proof (cases "k < 208")
    case True
    then show ?thesis
      using good_while_first [OF assms(4) True, of ?bs] by (simp add: keys take_diffs rx_keys_diffs)
  next
    case False
    then have "take k (tx_bits enc_leader @ ?bs @ ?cs) = tx_bits enc_leader @ ?bs @ take (k - 208) ?cs" by simp
    then show ?thesis
      using good_while_second [OF assms(4) dop, of "take (k - 208) ?cs"] that False
      by (simp add: keys take_diffs rx_keys_diffs)
  qed
  obtain d z where d: "rx x True (tx_bits enc_leader @ ?bs) dec = (procbits x d)\<lparr>zc := z\<rparr>" "length z = MDC_ND"
    "dec_wf x d" "xorb d ! x = last ?bs" "shstate d ! x = 1" "bits d ! x = ?bs"
    using ready_block [OF assms(4), of ?bs] by auto
  note first = procbits_first [OF d(6,5) dop d(3,4)]
  have "last (True # tx_bits enc_leader @ ?bs) = last ?bs" by (simp flip: length_0_conv)
  moreover obtain d' z' where d': "rx x (last ?bs) ?cs ((procbits x d)\<lparr>zc := z\<rparr>) = (procbits x d')\<lparr>zc := z'\<rparr>"
    "shstate d' ! x = 2" "bits d' ! x = ?cs" "results d' = results ((procbits x d)\<lparr>zc := z\<rparr>)"
    using collect_block [of x "last ?bs" 2 "(procbits x d)\<lparr>zc := z\<rparr>" ?cs] first(1) d(2) by auto
  ultimately have whole: "rx_keys x ks dec = (procbits x d')\<lparr>zc := z'\<rparr>" using ks d(1) by simp
  note second = procbits_second [OF d'(3,2)]
  show ?thesis
  proof (intro conjI allI impI)
    show "\<exists>dec'. mdc_decoder_get_double_packet (Some (rx_keys x ks dec))
        = (0, Some (op, arg, unitID, x0, x1, x2, x3), Some dec')"
      using second first d'(4) by (simp add: whole mdc_decoder_get_double_packet_def results_def)
    show "fst (mdc_decoder_get_packet (Some (rx_keys x ks dec))) = - 1"
      using second by (simp add: whole mdc_decoder_get_packet_def)
  qed (auto simp: early mdc_decoder_get_packet_def mdc_decoder_get_double_packet_def)
qed

theorem mdc_link_delivers_double_packet_witness:
  "\<exists>e' ks dec'. mdc_encoder_set_double_packet (Some ex_enc) 0x35 0x89 0x1234 1 2 3 4 = (0, Some e')
    \<and> enc_burst 320 e' = Some ks
    \<and> mdc_decoder_get_double_packet (Some (rx_keys 3 ks (ex_dec True)))
       = (0, Some (0x35, 0x89, 0x1234, 1, 2, 3, 4), Some dec')
    \<and> fst (mdc_decoder_get_packet (Some (rx_keys 3 (take 208 ks) (ex_dec True)))) = - 1"
proof -
  obtain e' where e': "mdc_encoder_set_double_packet (Some ex_enc) 0x35 0x89 0x1234 1 2 3 4 = (0, Some e')"
    by (simp add: mdc_encoder_set_double_packet_def ex_enc_def)
  moreover have l: "length (e_data ex_enc) = 40" by (simp add: ex_enc_def)
  ultimately obtain ks where "enc_burst 320 e' = Some ks" using double_burst(1) by blast
  with mdc_link_delivers_double_packet [OF e' l _ ex_ready this, of 3 True] e' show ?thesis by auto
qed

lemma single_burst_ends:
  assumes "e_loaded e = 0" and "length (e_data e) = 40" and n: "216 \<le> count_list ws True"
  shows "\<exists>n e'. mdc_encoder_get_samples ws (snd (mdc_encoder_set_packet (Some e) op arg u))
      = Some (int n, Some e') \<and> 216 \<le> n \<and> n \<le> length ws \<and> e_loaded e' = 0 \<and> e_state e' = 0"
proof -
  obtain e1 where e1: "mdc_encoder_set_packet (Some e) op arg u = (0, Some e1)"
    using assms by (simp add: mdc_encoder_set_packet_def)
  note s1 = single_burst(2) [OF e1 assms(2)]
  then have "e_data e1 \<noteq> []" by auto
  with s1 have at1: "enc_at (enc_start e1) 0" "same_burst e1 (enc_start e1)" using enc_start_at [of e1] by auto
  obtain n e' where "enc_samples ws 0 (enc_start e1) = Some (n, e')" "e_state e' = 0" "216 \<le> n" "n \<le> length ws"
    using enc_samples_ends [OF at1(1), of ws 0] at1(2) s1 n by (auto simp: same_burst_def)
  with e1 s1 show ?thesis by (simp add: mdc_encoder_get_samples_def)
qed

lemma double_burst_outside:
  assumes "e_loaded e = 0" and "length (e_data e) = 40" and n: "320 \<le> count_list ws True"
  shows "mdc_encoder_get_samples ws (snd (mdc_encoder_set_double_packet (Some e) op arg u x0 x1 x2 x3)) = None"
proof -
  obtain e2 where e2: "mdc_encoder_set_double_packet (Some e) op arg u x0 x1 x2 x3 = (0, Some e2)"
    using assms by (simp add: mdc_encoder_set_double_packet_def)
  note s2 = double_burst(2) [OF e2 assms(2)]
  then have "e_data e2 \<noteq> []" by auto
  with s2 have at2: "enc_at (enc_start e2) 0" "same_burst e2 (enc_start e2)" using enc_start_at [of e2] by auto
  have "enc_samples ws 0 (enc_start e2) = None"
    using enc_samples_outside [OF at2(1)] at2(2) s2 n by (simp add: same_burst_def)
  with e2 s2 show ?thesis by (simp add: mdc_encoder_get_samples_def)
qed

text \<open>C16. The end of a burst. Once a single packet has been keyed for 216 bit times the encoder is idle
  again and can be loaded anew, no byte outside its buffer having been read; with a double packet,
  which fills the buffer of 40 bytes, the loop reads past the end of it (\<open>None\<close>) instead of stopping,
  because the test for the end of the data lets the position \<open>loaded\<close> itself through.\<close>

theorem mdc_burst_end:
  assumes "e_loaded e = 0" and "length (e_data e) = 40"
  shows "(216 \<le> count_list ws True \<longrightarrow>
      (\<exists>n e'. mdc_encoder_get_samples ws (snd (mdc_encoder_set_packet (Some e) op arg u)) = Some (int n, Some e')
        \<and> 216 \<le> n \<and> n \<le> length ws \<and> e_loaded e' = 0 \<and> e_state e' = 0))
    \<and> (320 \<le> count_list ws True \<longrightarrow>
      mdc_encoder_get_samples ws (snd (mdc_encoder_set_double_packet (Some e) op arg u x0 x1 x2 x3)) = None)"
  using single_burst_ends [OF assms] double_burst_outside [OF assms] by blast

theorem mdc_burst_end_witness:
  "mdc_encoder_get_samples (replicate 400 True) (snd (mdc_encoder_set_double_packet (Some ex_enc) 0x35 0 1 2 3 4 5)) = None"
proof -
  have "count_list (replicate n True) True = n" for n by (induction n) auto
  then show ?thesis
    using mdc_burst_end [where e = ex_enc and ws = "replicate 400 True"] by (simp add: ex_enc_def)
qed

end
