(* ===== verification/MdcErrors.thy ===== *)
theory MdcErrors
  imports MdcProps
begin

unbundle bit_operations_syntax

text \<open>
  Transmission errors in an MDC-1200 burst: the tolerance of the sync hunt and the error
  detection of the checksum, from the linearity of the 16-bit remainder over bit lists.
\<close>

section \<open>Bit lists as vectors\<close>

definition bxor :: "bool list \<Rightarrow> bool list \<Rightarrow> bool list" where
  "bxor as bs = map2 (\<noteq>) as bs"

lemma length_bxor [simp]: "length (bxor as bs) = min (length as) (length bs)"
  by (simp add: bxor_def)

lemma bxor_Cons [simp]: "bxor (a # as) (b # bs) = (a \<noteq> b) # bxor as bs"
  by (simp add: bxor_def)

lemma bxor_Nil [simp]: "bxor [] bs = []"
  by (simp add: bxor_def)

lemma nth_bxor: "i < length as \<Longrightarrow> i < length bs \<Longrightarrow> bxor as bs ! i = (as ! i \<noteq> bs ! i)"
  by (simp add: bxor_def)

lemma crc16_step_xor: "crc16_step (r XOR s) (b \<noteq> c) = crc16_step r b XOR crc16_step s c"
proof -
  have x: "(u XOR k) XOR (v XOR k) = u XOR v" "(u XOR k) XOR v = (u XOR v) XOR k"
    "u XOR (v XOR k) = (u XOR v) XOR k" "(u XOR k) XOR k = u" for u v k :: "16 word"
    by (rule bit_word_eqI; auto simp: bit_simps)+
  have p: "push_bit 1 (r XOR s) = push_bit 1 r XOR push_bit 1 s"
    by (rule bit_word_eqI) (auto simp: bit_simps)
  show ?thesis unfolding crc16_step_def p by (auto simp: bit_xor_iff x)
qed

lemma crc16_foldl_xor:
  "length as = length bs \<Longrightarrow>
   foldl crc16_step (r XOR s) (bxor as bs) = foldl crc16_step r as XOR foldl crc16_step s bs"
  by (induction as bs arbitrary: r s rule: list_induct2)
    (simp_all only: bxor_Cons bxor_Nil foldl_Nil foldl_Cons crc16_step_xor)

lemma crc16_xor: "length as = length bs \<Longrightarrow> crc16 (bxor as bs) = crc16 as XOR crc16 bs"
  using crc16_foldl_xor [of as bs 0 0] by (simp add: crc16_def)

text \<open>A register fed with its own bits, the highest first, runs empty.\<close>

definition msb_bits :: "16 word \<Rightarrow> bool list" where
  "msb_bits r = map (\<lambda>i. bit r (15 - i)) [0..<16]"

lemma crc16_feed: "n \<le> 16 \<Longrightarrow> foldl crc16_step r (map (\<lambda>i. bit r (15 - i)) [0..<n]) = push_bit n r"
proof (induction n)
  case 0
  then show ?case by simp
next
  case (Suc n)
  have "bit (push_bit n r) 15 = bit r (15 - n)" using Suc.prems by (simp add: bit_simps)
  with Suc show ?case by (simp add: crc16_step_def push_bit_push_bit del: push_bit_Suc)
qed

lemma crc16_own_bits: "foldl crc16_step r (msb_bits r) = 0"
proof -
  have "push_bit 16 r = 0" by (rule bit_word_eqI) (auto simp: bit_simps)
  with crc16_feed [of 16 r] show ?thesis by (simp add: msb_bits_def)
qed

lemma crc16_append: "length cs = 16 \<Longrightarrow> crc16 (bs @ cs) = crc16 (bxor (msb_bits (crc16 bs)) cs)"
proof -
  assume l: "length cs = 16"
  let ?r = "crc16 bs"
  have "crc16 (bxor (msb_bits ?r) cs) = foldl crc16_step (?r XOR ?r) (bxor (msb_bits ?r) cs)"
    by (simp add: crc16_def)
  also have "\<dots> = foldl crc16_step ?r cs"
    using l by (subst crc16_foldl_xor) (simp_all add: crc16_own_bits, simp add: msb_bits_def)
  finally show ?thesis by (simp add: crc16_def)
qed

text \<open>The parity of a register is the parity of the bits fed in, because \<open>x + 1\<close> divides the generator.\<close>

definition odd_bits :: "bool list \<Rightarrow> bool" where
  "odd_bits bs = odd (count_list bs True)"

lemma odd_bits_xor: "length as = length bs \<Longrightarrow> odd_bits (bxor as bs) = (odd_bits as \<noteq> odd_bits bs)"
  unfolding odd_bits_def by (induction as bs rule: list_induct2) auto

lemma odd_bits_snoc: "odd_bits (bs @ [b]) = (odd_bits bs \<noteq> b)"
  by (simp add: odd_bits_def)

definition odd_word :: "16 word \<Rightarrow> bool" where
  "odd_word r = odd_bits (map (bit r) [0..<16])"

lemma odd_word_xor: "odd_word (r XOR s) = (odd_word r \<noteq> odd_word s)"
proof -
  have "map (bit (r XOR s)) [0..<16] = bxor (map (bit r) [0..<16]) (map (bit s) [0..<16])"
    by (rule nth_equalityI) (auto simp: nth_bxor bit_xor_iff simp del: upt_rec_numeral)
  then show ?thesis by (simp add: odd_word_def odd_bits_xor del: upt_rec_numeral)
qed

lemma odd_word_push: "odd_word (push_bit 1 r) = (odd_word r \<noteq> bit r 15)"
proof -
  have "map (bit (push_bit 1 r)) [0..<16] = False # map (bit r) [0..<15]"
    by (rule nth_equalityI) (auto simp: nth_Cons' bit_simps simp del: upt_rec_numeral push_bit_Suc)
  moreover have "map (bit r) [0..<16] = map (bit r) [0..<15] @ [bit r 15]"
    using upt_Suc [of 0 15] by (simp del: upt_rec_numeral upt_Suc)
  ultimately show ?thesis
    unfolding odd_word_def odd_bits_def by (cases "bit r 15") (simp_all del: upt_rec_numeral push_bit_Suc)
qed

lemma odd_word_poly: "odd_word 0x1021"
  by code_simp

lemma odd_word_step: "odd_word (crc16_step r b) = (odd_word r \<noteq> b)"
  using odd_word_poly by (auto simp: crc16_step_def odd_word_xor odd_word_push simp del: push_bit_Suc One_nat_def)

lemma odd_word_crc16: "odd_word (crc16 bs) = odd_bits bs"
proof (induction bs rule: rev_induct)
  case Nil
  show ?case by code_simp
next
  case (snoc b bs)
  then show ?case by (simp add: crc16_def odd_word_step odd_bits_snoc)
qed

section \<open>Errors of two bits\<close>

definition unit_bits :: "nat \<Rightarrow> bool list" where
  "unit_bits i = map (\<lambda>j. j = i) [0..<48]"

fun columns :: "nat \<Rightarrow> 16 word \<Rightarrow> 16 word list" where
  "columns 0 r = []"
| "columns (Suc n) r = r # columns n (crc16_step r False)"

lemma columns_48: "distinct (columns 48 0x1021)"
  by code_simp

lemma length_columns [simp]: "length (columns n r) = n"
  by (induction n arbitrary: r) auto

lemma nth_columns: "k < n \<Longrightarrow> columns n r ! k = foldl crc16_step r (replicate k False)"
  by (induction n arbitrary: k r) (auto simp: nth_Cons' gr0_conv_Suc)

lemma unit_column: "i < 48 \<Longrightarrow> crc16 (unit_bits i) = columns 48 0x1021 ! (47 - i)"
proof -
  assume i: "i < 48"
  have "unit_bits i = replicate i False @ True # replicate (47 - i) False"
    by (rule nth_equalityI) (use i in \<open>auto simp: unit_bits_def nth_append nth_Cons' simp del: upt_rec_numeral\<close>)
  moreover have "foldl crc16_step 0 (replicate k False) = 0" for k
    by (induction k) (simp_all add: crc16_step_def)
  moreover have "crc16_step 0 True = 0x1021" by (simp add: crc16_step_def)
  ultimately show ?thesis using i by (simp add: crc16_def nth_columns)
qed

lemma crc16_small_error:
  assumes E: "E \<subseteq> {0..<48}" "odd (card E) \<or> card E = 2"
  shows "crc16 (map (\<lambda>i. i \<in> E) [0..<48]) \<noteq> 0"
proof -
  have zero: "\<not> odd_word 0" by code_simp
  have fin: "finite E" using E(1) finite_subset by blast
  have count: "count_list (map (\<lambda>i. i \<in> E) [0..<n]) True = card (E \<inter> {0..<n})" for n
  proof (induction n)
    case (Suc n)
    have "E \<inter> {0..<Suc n} = (if n \<in> E then insert n (E \<inter> {0..<n}) else E \<inter> {0..<n})"
      by (auto simp: less_Suc_eq)
    with Suc show ?case by simp
  qed simp
  from E(2) show ?thesis
  proof
    assume "odd (card E)"
    moreover have "E \<inter> {0..<48} = E" using E(1) by blast
    ultimately have "odd_bits (map (\<lambda>i. i \<in> E) [0..<48])" by (simp add: odd_bits_def count del: upt_rec_numeral)
    then show ?thesis using odd_word_crc16 zero by metis
  next
    assume "card E = 2"
    then obtain i j where ij: "E = {i, j}" "i \<noteq> j" by (auto simp: card_2_iff)
    with E(1) have l: "i < 48" "j < 48" by auto
    have "map (\<lambda>i. i \<in> E) [0..<48] = bxor (unit_bits i) (unit_bits j)"
      by (rule nth_equalityI) (use ij in \<open>auto simp: unit_bits_def nth_bxor simp del: upt_rec_numeral\<close>)
    then have "crc16 (map (\<lambda>i. i \<in> E) [0..<48]) = crc16 (unit_bits i) XOR crc16 (unit_bits j)"
      by (simp add: crc16_xor unit_bits_def del: upt_rec_numeral)
    moreover have "crc16 (unit_bits i) \<noteq> crc16 (unit_bits j)"
      using columns_48 ij(2) l by (simp add: unit_column nth_eq_iff_index_eq)
    ultimately show ?thesis
      by (metis xor.assoc xor.left_neutral xor.right_neutral xor_self_eq)
  qed
qed

section \<open>The check of a received block\<close>

lemma bits_byte_lsb: "length bs = 8 \<Longrightarrow> bits_lsb (byte_lsb bs) = bs"
  by (rule nth_equalityI) (auto simp: bits_lsb_def bit_byte_lsb)

lemma unpack_prefix:
  assumes "length l = 112" and "n \<le> 14"
  shows "concat (map bits_lsb (take n (unpack_bits l))) = take (8 * n) l"
proof -
  have "bits_lsb (byte_lsb (drop (8 * i) (take (8 + 8 * i) l))) = drop (8 * i) (take (8 + 8 * i) l)"
    if "i < n" for i using that assms by (intro bits_byte_lsb) simp
  note piece = this
  have "map bits_lsb (take n (unpack_bits l)) = map (\<lambda>i. take 8 (drop (8 * i) (take (8 * n) l))) [0..<n]"
    by (rule nth_equalityI) (use assms in \<open>auto simp: unpack_bits_def piece take_drop min_def\<close>)
  also have "concat \<dots> = take (8 * n) l" using assms by (intro concat_pieces) simp
  finally show ?thesis .
qed

lemma length_deinterleave [simp]: "length (deinterleave bs) = 112"
  using interleave_pos_ok by (simp add: deinterleave_pos)

definition block_ok :: "bool list \<Rightarrow> bool" where
  "block_ok bs = (let data = unpack_bits (deinterleave bs) in
     dec_docrc (take 4 data) = (push_bit 8 (ucast (data ! 5)) OR ucast (data ! 4) :: 32 word))"

lemma nth_unpack: "i < 14 \<Longrightarrow> j < 8 \<Longrightarrow> length l = 112 \<Longrightarrow> bit (unpack_bits l ! i) j = l ! (8 * i + j)"
  by (simp add: unpack_bits_def bit_byte_lsb)

text \<open>The first 48 bits of an accepted block have the remainder of sixteen ones.\<close>

lemma block_ok_crc:
  assumes "block_ok bs"
  shows "crc16 (take 48 (deinterleave bs)) = crc16 (replicate 16 True)"
proof -
  let ?l = "deinterleave bs" and ?d = "unpack_bits (deinterleave bs)"
  let ?r = "crc16 (take 32 ?l)"
  have pre: "concat (map bits_lsb (take 4 ?d)) = take 32 ?l"
    using unpack_prefix [of ?l 4] by simp
  have eq: "ucast (mdc_crc (take 4 ?d)) = (push_bit 8 (ucast (?d ! 5)) OR ucast (?d ! 4) :: 32 word)"
    using assms by (simp add: block_ok_def Let_def dec_docrc_mdc)
  have "?l ! (32 + i) = (\<not> bit ?r (15 - i))" if "i < 16" for i
  proof -
    have "bit (ucast (mdc_crc (take 4 ?d)) :: 32 word) i = (\<not> bit ?r (15 - i))"
      using that by (auto simp: mdc_crc_def pre bit_simps bit_word_reverse_iff)
    moreover have "bit (push_bit 8 (ucast (?d ! 5)) OR ucast (?d ! 4) :: 32 word) i = ?l ! (32 + i)"
    proof (cases "i < 8")
      case True
      then show ?thesis using nth_unpack [of 4 i ?l] by (simp add: bit_simps)
    next
      case False
      then have "\<not> bit (?d ! 4) i" using bit_imp_le_length by fastforce
      moreover have "i - 8 < 8" "i < 32" using False that by arith+
      ultimately show ?thesis using False nth_unpack [of 5 "i - 8" ?l] by (simp add: bit_simps)
    qed
    ultimately show ?thesis using eq by simp
  qed
  then have x: "bxor (msb_bits ?r) (take 16 (drop 32 ?l)) = replicate 16 True"
    by (intro nth_equalityI) (auto simp: nth_bxor msb_bits_def simp del: upt_rec_numeral)
  have "take 48 ?l = take 32 ?l @ take 16 (drop 32 ?l)" using take_add [of 32 16 ?l] by simp
  then show ?thesis using crc16_append [of "take 16 (drop 32 ?l)" "take 32 ?l"] x by simp
qed

text \<open>Two accepted blocks differ in none of the 48 bits, or in an even number of at least four.\<close>

lemma block_ok_apart:
  assumes "block_ok bs" and "block_ok cs"
    and E: "E = {i. i < 48 \<and> deinterleave bs ! i \<noteq> deinterleave cs ! i}"
  shows "even (card E) \<and> card E \<noteq> 2"
proof (rule ccontr)
  assume "\<not> (even (card E) \<and> card E \<noteq> 2)"
  then have ne: "crc16 (map (\<lambda>i. i \<in> E) [0..<48]) \<noteq> 0"
    using E by (intro crc16_small_error) auto
  have "map (\<lambda>i. i \<in> E) [0..<48] = bxor (take 48 (deinterleave bs)) (take 48 (deinterleave cs))"
    by (rule nth_equalityI) (auto simp: E nth_bxor simp del: upt_rec_numeral)
  then have "crc16 (map (\<lambda>i. i \<in> E) [0..<48])
      = crc16 (take 48 (deinterleave bs)) XOR crc16 (take 48 (deinterleave cs))"
    by (simp add: crc16_xor del: upt_rec_numeral)
  with block_ok_crc [OF assms(1)] block_ok_crc [OF assms(2)] ne show False by simp
qed

lemma enc_block_ok: "length d = 4 \<Longrightarrow> block_ok (tx_bits (enc_str d))"
  using block_accepted [of d "ex_dec False\<lparr>bits := [tx_bits (enc_str d)]\<rparr>" 0]
  by (simp add: block_ok_def Let_def)

section \<open>The properties\<close>

text \<open>C10. The checksum: a block that the encoder built and that reached the decoder with one, two, three
  or any odd number of its 48 payload and checksum bits inverted is turned down. The packet
  fields and the flag are left alone and the channel goes back to hunting. (The other 64 bits of a block, the
  parity bytes, are never looked at by the decoder, so errors there neither matter nor help.)\<close>

theorem mdc_checksum_rejects:
  assumes "length d = 4" and "bits dec ! x = bs"
    and "E = {i. i < 48 \<and> deinterleave bs ! i \<noteq> deinterleave (tx_bits (enc_str d)) ! i}"
    and "odd (card E) \<or> card E = 2"
  shows "procbits x dec = dec\<lparr>shstate := (shstate dec)[x := 0]\<rparr>"
proof -
  have "\<not> block_ok bs" using block_ok_apart [OF _ enc_block_ok assms(3)] assms(1,4) by blast
  then show ?thesis by (simp add: procbits_def block_ok_def assms(2) Let_def)
qed

lemma deinterleave_flip:
  assumes "j < 112" and "length l = 112"
  shows "(deinterleave (l[0 := \<not> l ! 0]) ! j \<noteq> deinterleave l ! j) = (j = 0)"
proof -
  have p0: "interleave_pos 0 0 112 ! 0 = 0" by (simp add: interleave_pos.simps(2) numeral_eq_Suc)
  have "interleave_pos 0 0 112 ! j = 0 \<longleftrightarrow> j = 0"
    using p0 assms interleave_pos_ok nth_eq_iff_index_eq [of "interleave_pos 0 0 112" j 0] by auto
  with assms interleave_pos_ok show ?thesis by (auto simp: deinterleave_pos nth_list_update)
qed

lemma flip_set:
  assumes "length l = 112"
  shows "{i. i < 48 \<and> deinterleave (l[0 := \<not> l ! 0]) ! i \<noteq> deinterleave l ! i} = {0}"
proof (rule set_eqI)
  fix i
  show "i \<in> {i. i < 48 \<and> deinterleave (l[0 := \<not> l ! 0]) ! i \<noteq> deinterleave l ! i} \<longleftrightarrow> i \<in> {0}"
    using deinterleave_flip [of i l] assms by (cases "i < 48") simp_all
qed

theorem mdc_checksum_rejects_witness:
  "\<exists>bs. bs \<noteq> tx_bits (enc_str [1, 0x80, 0x12, 0x34])
    \<and> procbits 0 ((ex_dec False)\<lparr>bits := [bs]\<rparr>) = (ex_dec False)\<lparr>bits := [bs]\<rparr>"
proof -
  let ?cs = "tx_bits (enc_str [1, 0x80, 0x12, 0x34])"
  let ?bs = "?cs[0 := \<not> ?cs ! 0]"
  have "{i. i < 48 \<and> deinterleave ?bs ! i \<noteq> deinterleave ?cs ! i} = {0}"
    by (rule flip_set) simp
  then have rej: "procbits 0 ((ex_dec False)\<lparr>bits := [?bs]\<rparr>)
      = ((ex_dec False)\<lparr>bits := [?bs]\<rparr>)\<lparr>shstate := (shstate ((ex_dec False)\<lparr>bits := [?bs]\<rparr>))[0 := 0]\<rparr>"
    using mdc_checksum_rejects [of "[1, 0x80, 0x12, 0x34]" "(ex_dec False)\<lparr>bits := [?bs]\<rparr>" 0 ?bs "{0}"] by simp
  have "l[0 := \<not> l ! 0] \<noteq> l" if "length l = 112" for l
    using that by (cases l) auto
  then have ne: "?bs \<noteq> ?cs" by (simp only: length_tx_bits length_enc_str) simp
  have "(replicate 4 (0::nat))[0 := 0] = replicate 4 0" by (simp add: numeral_eq_Suc)
  with rej ne show ?thesis by (intro exI [of _ ?bs]) (simp add: ex_dec_def)
qed

text \<open>C17. The sync hunt: while a channel hunts, the bit shifted in makes it lock exactly if the last 40 bits
  differ from the sync word in at most five places, or in at least 35, and in the second case
  the bit register is turned over.\<close>

theorem mdc_sync_tolerance:
  assumes "dec_wf x dec" and "shstate dec ! x = 0"
    and "regs x dec = foldl (\<lambda>r b. sync_shift b r) r0 hist" and "39 \<le> length hist"
    and "n = hamming (drop (length hist - 39) hist @ [xorb dec ! x]) sync_word"
  shows "shstate (shiftin x dec) ! x = (if n \<le> 5 \<or> 35 \<le> n then 1 else 0)
    \<and> xorb (shiftin x dec) ! x = (xorb dec ! x \<noteq> (35 \<le> n))"
proof -
  let ?b = "xorb dec ! x"
  obtain hi lo where s: "sync_shift ?b (synchigh dec ! x, synclow dec ! x) = (hi, lo)" by fastforce
  have "(hi, lo) = foldl (\<lambda>r b. sync_shift b r) r0 (hist @ [?b])" using assms(3) s by (simp add: regs_def)
  then have "reg_list (hi, lo) = rev (drop (length hist - 39) hist @ [?b])"
    using assms(4) by (intro nth_equalityI)
      (auto simp: reg_list_def regbit_shift regbit_run rev_nth nth_append nth_Cons' simp del: upt_rec_numeral)
  moreover have "hamming (rev as) (rev bs) = hamming as bs" if "length as = length bs" for as bs
    using that by (simp add: hamming_def zip_rev rev_filter [symmetric])
  moreover have "length sync_word = 40" by (simp add: sync_word_def)
  ultimately have c: "sync_count (hi, lo) = n"
    using assms(4,5) by (simp add: sync_count_hamming del: rev_append)
  show ?thesis
    using assms(1,2) s c by (auto simp: shiftin_def dec_wf_def Let_def clearbits_def)
qed

theorem mdc_sync_tolerance_witness:
  "shstate (shiftin 1 (ex_dec False)) ! 1 = 0"
proof -
  have "foldl (\<lambda>r b. sync_shift b r) (0, 0) (replicate 39 False) = (0, 0)" by code_simp
  then have r: "regs 1 (ex_dec False) = foldl (\<lambda>r b. sync_shift b r) (0, 0) (replicate 39 False)"
    by (simp add: regs_def ex_dec_def)
  have n: "hamming (drop (length (replicate 39 False) - 39) (replicate 39 False) @ [xorb (ex_dec False) ! 1]) sync_word = 16"
    by code_simp
  show ?thesis
    using mdc_sync_tolerance [OF _ _ r _ n [symmetric]] by (simp add: dec_wf_def ex_dec_def)
qed

text \<open>The checksum is CRC-16 over the bits of the payload, each byte lowest bit first, with the remainder
  reversed and complemented; the encoder, which computes it in a long, and the decoder, which
  computes it in an int, agree.\<close>

lemma mdc_checksum_is_crc16:
  "enc_docrc ps = ucast (mdc_crc ps) \<and> dec_docrc ps = ucast (mdc_crc ps)"
  by (simp add: enc_docrc_mdc dec_docrc_mdc)

end
