(* ===== verification/Pocsag.thy ===== *)
theory Pocsag
  imports Prelude
begin

unbundle bit_operations_syntax

text \<open>
  The POCSAG paging encoder \<^verbatim>\<open>allstar/pocsag.c\<close>: the check and parity bits of a codeword, the
  packing of numeric and alphanumeric text into 20 bit payloads, and the batches of eight frames
  of two codewords. \<^verbatim>\<open>uint32_t\<close> is \<open>32 word\<close>, a character is a byte, a string the bytes of the
  array including the final zero. Allocation is a parameter: \<open>mem\<close> calls of \<^verbatim>\<open>malloc\<close> succeed.
\<close>

type_synonym byte = "8 word"

datatype pocsag_msgtype = TONE | NUMERIC | ALPHA

text \<open>\<open>NoMemory\<close> and \<open>BadTone\<close> are the two reasons for a \<^verbatim>\<open>NULL\<close> result, \<open>OutOfBounds\<close> an access outside an array.\<close>

datatype pocsag_error = NoMemory | BadTone | OutOfBounds

record pocsag_batch =
  b_sc :: "32 word"
  b_frame :: "32 word list list"

abbreviation SYNCH :: "32 word" where "SYNCH \<equiv> 0x7CD215D8"
abbreviation IDLE :: "32 word" where "IDLE \<equiv> 0x7A89C197"

section \<open>Check and parity bits\<close>

definition parity_step :: "32 word \<Rightarrow> 32 word" where
  "parity_step codeword =
     push_bit 1 (if codeword AND 0x80000000 \<noteq> 0 then codeword XOR 0xED200000 else codeword)"

fun parity_shift :: "nat \<Rightarrow> 32 word \<Rightarrow> 32 word" where
  "parity_shift 0 codeword = codeword"
| "parity_shift (Suc n) codeword = parity_shift n (parity_step codeword)"

fun count_ones :: "nat \<Rightarrow> 32 word \<Rightarrow> nat \<Rightarrow> nat" where
  "count_ones 0 codeword p = p"
| "count_ones (Suc n) codeword p =
     count_ones n (push_bit 1 codeword) (if codeword AND 0x80000000 \<noteq> 0 then p + 1 else p)"

definition do_parity_stuff :: "32 word \<Rightarrow> 32 word" where
  "do_parity_stuff codeword =
    (let myword = codeword OR drop_bit 21 (parity_shift 21 codeword);
         p = count_ones 32 myword 0
     in myword + of_nat (p mod 2))"

section \<open>Packing\<close>

definition nstr :: "byte list" where
  "nstr = [0x30, 0x31, 0x32, 0x33, 0x34, 0x35, 0x36, 0x37, 0x38, 0x39, 0x2A, 0x55, 0x20, 0x2D, 0x28, 0x29]"

definition digit_of :: "byte \<Rightarrow> nat" where
  "digit_of c = (let i = length (takeWhile (\<lambda>d. d \<noteq> c) nstr) in if i = length nstr then 0xc else i)"

definition rev_digit :: "nat \<Rightarrow> nat" where
  "rev_digit i = push_bit 3 (i AND 1) + push_bit 1 (i AND 2) + drop_bit 1 (i AND 4) + drop_bit 3 (i AND 8)"

text \<open>The loop over the digits; \<open>n\<close> is \<^verbatim>\<open>mysize - idx\<close>.\<close>

fun pack_digits ::
  "byte list \<Rightarrow> nat \<Rightarrow> nat \<Rightarrow> nat \<Rightarrow> nat \<Rightarrow> 32 word list \<Rightarrow> pocsag_error + 32 word list" where
  "pack_digits str sz 0 idx pi packed = Inr packed"
| "pack_digits str sz (Suc n) idx pi packed =
     (if length str \<le> idx \<or> length packed \<le> pi then Inl OutOfBounds
      else
        let x = rev_digit (digit_of (str ! idx));
            v = push_bit 4 (packed ! pi) + (if idx < sz then of_nat x else 3);
            idx' = idx + 1
        in pack_digits str sz n idx' (if idx' mod 5 \<noteq> 0 then pi else pi + 1) (packed[pi := v]))"

text \<open>The state of the alphanumeric packer: \<^verbatim>\<open>packed\<close>, \<^verbatim>\<open>pi\<close>, \<^verbatim>\<open>acc\<close> and \<^verbatim>\<open>n\<close>.\<close>

type_synonym packer = "32 word list \<times> nat \<times> 32 word \<times> nat"

definition alpha_bit :: "bool \<Rightarrow> packer \<Rightarrow> pocsag_error + packer" where
  "alpha_bit b s =
    (let (packed, pi, acc, n) = s;
         acc' = (if b then acc OR push_bit n 1 else acc)
     in if n \<le> 0 then
          if pi < length packed then Inr (packed[pi := acc'], pi + 1, 0, 19) else Inl OutOfBounds
        else Inr (packed, pi, acc', n - 1))"

fun alpha_bits :: "bool list \<Rightarrow> packer \<Rightarrow> pocsag_error + packer" where
  "alpha_bits [] s = Inr s"
| "alpha_bits (b # bs) s = (case alpha_bit b s of Inl e \<Rightarrow> Inl e | Inr s' \<Rightarrow> alpha_bits bs s')"

definition char_bits :: "byte \<Rightarrow> bool list" where
  "char_bits c = map (\<lambda>j. c AND push_bit j 1 \<noteq> 0) [0..<7]"

fun alpha_chars :: "byte list \<Rightarrow> packer \<Rightarrow> pocsag_error + packer" where
  "alpha_chars [] s = Inl OutOfBounds"
| "alpha_chars (c # cs) s =
     (if c = 0 then Inr s
      else case alpha_bits (char_bits c) s of Inl e \<Rightarrow> Inl e | Inr s' \<Rightarrow> alpha_chars cs s')"

text \<open>Padding with more EOT characters; here \<^verbatim>\<open>n\<close> runs down to \<open>- 1\<close>.\<close>

fun pad_char :: "bool list \<Rightarrow> 32 word \<Rightarrow> int \<Rightarrow> 32 word \<times> int" where
  "pad_char [] acc n = (acc, n)"
| "pad_char (b # bs) acc n =
     (let acc' = (if b then acc OR push_bit (nat n) 1 else acc)
      in if n \<le> 0 then (acc', n - 1) else pad_char bs acc' (n - 1))"

lemma pad_char_le: "snd (pad_char bs acc n) \<le> n"
proof (induction bs arbitrary: acc n)
  case (Cons b bs)
  show ?case using Cons [of "if b then acc OR push_bit (nat n) 1 else acc" "n - 1"]
    by (simp add: Let_def)
qed simp

lemma pad_char_less: "bs \<noteq> [] \<Longrightarrow> snd (pad_char bs acc n) < n"
  using pad_char_le [of "tl bs" _ "n - 1"] by (cases bs) (auto simp: Let_def le_less_trans)

function alpha_pad :: "32 word \<Rightarrow> int \<Rightarrow> 32 word" where
  "alpha_pad acc n =
     (if n \<ge> 0 then let (acc', n') = pad_char (char_bits 4) acc n in alpha_pad acc' n' else acc)"
  by pat_completeness auto

termination alpha_pad
proof (relation "measure (\<lambda>(acc, n). nat (n + 1))")
  fix acc n x acc' n'
  assume n: "(0 :: int) \<le> n" and x: "x = pad_char (char_bits 4) acc n" "(acc', n') = x"
  have "char_bits 4 \<noteq> []" by (simp add: char_bits_def)
  then have "n' < n" using pad_char_less [of "char_bits 4" acc n] x by (metis snd_conv)
  then show "((acc', n'), acc, n) \<in> measure (\<lambda>(acc, n). nat (n + 1))" using n by simp
qed simp

declare alpha_pad.simps [simp del]

definition pack_pogsag_string ::
  "32 word list \<Rightarrow> byte list \<Rightarrow> nat \<Rightarrow> pocsag_msgtype \<Rightarrow> pocsag_error + (nat \<times> 32 word list)" where
  "pack_pogsag_string packed str sz type =
    (case type of
       TONE \<Rightarrow> Inr (0, packed)
     | NUMERIC \<Rightarrow>
        (let mysize = (if sz mod 5 = 0 then sz else (sz div 5 + 1) * 5)
         in case pack_digits str sz mysize 0 0 packed of
              Inl e \<Rightarrow> Inl e | Inr packed' \<Rightarrow> Inr (mysize div 5, packed'))
     | ALPHA \<Rightarrow>
        (case alpha_chars str (packed, 0, 0, 19) of Inl e \<Rightarrow> Inl e
         | Inr s \<Rightarrow>
           (case alpha_bits (char_bits 4) s of Inl e \<Rightarrow> Inl e
            | Inr (packed', pi, acc, n) \<Rightarrow>
               if pi < length packed' then Inr (pi + 1, packed'[pi := alpha_pad acc (int n)])
               else Inl OutOfBounds)))"

section \<open>Batches\<close>

definition empty_batch :: pocsag_batch where
  "empty_batch = \<lparr>b_sc = SYNCH, b_frame = replicate 8 (replicate 2 IDLE)\<rparr>"

definition set_slot :: "nat \<Rightarrow> nat \<Rightarrow> 32 word \<Rightarrow> pocsag_batch \<Rightarrow> pocsag_batch" where
  "set_slot j k w b = b\<lparr>b_frame := (b_frame b)[j := (b_frame b ! j)[k := w]]\<rparr>"

definition message_word :: "32 word \<Rightarrow> 32 word" where
  "message_word w = do_parity_stuff (push_bit 11 w OR 0x80000000)"

text \<open>
  The two nested loops that place the message: \<open>ws\<close> are the words still to be placed, \<open>k > 1\<close> is the
  end of the inner loop. \<open>bs\<close> are the full batches, \<open>cur\<close> the one being filled.
\<close>

function place_words ::
  "nat \<Rightarrow> 32 word list \<Rightarrow> nat \<Rightarrow> nat \<Rightarrow> pocsag_batch list \<Rightarrow> pocsag_batch \<Rightarrow> pocsag_error + pocsag_batch list" where
  "place_words mem [] j k bs cur = Inr (bs @ [cur])"
| "place_words mem (w # ws) j k bs cur =
     (if k > 1 then place_words mem (w # ws) (j + 1) 0 bs cur
      else if j = 8 then
        (if mem = 0 then Inl NoMemory
         else place_words (mem - 1) ws 0 1 (bs @ [cur]) (set_slot 0 0 (message_word w) empty_batch))
      else place_words mem ws j (k + 1) bs (set_slot j k (message_word w) cur))"
  by pat_completeness auto

termination place_words
  by (relation "measure (\<lambda>(mem, ws, j, k, bs, cur). 2 * length ws + (if k > 1 then 1 else 0))") auto

definition address_word :: "32 word \<Rightarrow> int \<Rightarrow> 32 word option" where
  "address_word ric toneno =
    (let w = push_bit 13 (drop_bit 3 ric) AND 0xFFFFE700
     in if toneno = 0 then Some w
        else if toneno = 1 then Some (w OR 0x00000800)
        else if toneno = 2 then Some (w OR 0x00001000)
        else if toneno = 3 then Some (w OR 0x00001800)
        else None)"

definition make_pocsag_batch ::
  "nat \<Rightarrow> 32 word list \<Rightarrow> 32 word \<Rightarrow> byte list \<Rightarrow> nat \<Rightarrow> pocsag_msgtype \<Rightarrow> int
     \<Rightarrow> pocsag_error + pocsag_batch list" where
  "make_pocsag_batch mem packed ric data size_of_data type toneno =
    (if mem = 0 then Inl NoMemory
     else
       let curaddr = unat (ric AND 7)
       in case address_word ric toneno of
            None \<Rightarrow> Inl BadTone
          | Some w \<Rightarrow>
             let cur = set_slot curaddr 0 (do_parity_stuff w) empty_batch
             in if type \<noteq> TONE then
                  (case pack_pogsag_string packed data size_of_data type of
                     Inl e \<Rightarrow> Inl e
                   | Inr (mylen, packed') \<Rightarrow>
                      place_words (mem - 1) (take mylen packed') curaddr 1 [] cur)
                else Inr [cur])"

text \<open>\<^verbatim>\<open>free_batch\<close> releases a chain from its end.\<close>

fun free_batch :: "'a list \<Rightarrow> 'a list" where
  "free_batch [] = []"
| "free_batch (batch # nxt) = free_batch nxt @ [batch]"

end
