(* ===== verification/PocsagCode.thy ===== *)
theory PocsagCode
  imports Pocsag
begin

unbundle bit_operations_syntax

text \<open>
  The codewords of POCSAG as a code: \<open>do_parity_stuff\<close> keeps the 21 information bits, makes
  the word a multiple of the generator and gives it an even number of ones, and two different
  codewords differ in at least six places, so that a receiver can correct any two errors.
\<close>

section \<open>The division is linear\<close>

lemma top_bit: "(w AND 0x80000000 \<noteq> 0) = bit w 31" for w :: "32 word"
  using and_exp_eq_0_iff_not_bit [of w 31] by simp

lemma push_xor: "push_bit 1 (u XOR v) = push_bit 1 u XOR push_bit 1 v" for u v :: "32 word"
  by (rule bit_word_eqI) (auto simp: bit_simps)

lemma parity_step_xor: "parity_step (a XOR b) = parity_step a XOR parity_step b"
proof -
  have x: "(a XOR g) XOR (b XOR g) = a XOR b" "(a XOR g) XOR b = (a XOR b) XOR g"
    "a XOR (b XOR g) = (a XOR b) XOR g" for g :: "32 word"
    by (rule bit_word_eqI; auto simp: bit_simps)+
  show ?thesis
    unfolding parity_step_def top_bit bit_xor_iff push_xor [symmetric]
    by (cases "bit a 31"; cases "bit b 31") (simp_all only: x(1) x(2) x(3) simp_thms if_True if_False)
qed

lemma parity_shift_xor: "parity_shift n (a XOR b) = parity_shift n a XOR parity_shift n b"
  by (induction n arbitrary: a b) (simp_all add: parity_step_xor)

lemma gen_bits: "i < 21 \<Longrightarrow> \<not> bit (0xED200000 :: 32 word) i"
proof -
  assume "i < 21"
  moreover have "(0xED200000 :: 32 word) = push_bit 21 0x769" by simp
  ultimately show ?thesis by (metis bit_push_bit_iff not_le)
qed

lemma bit_parity_step_low: "i \<le> 21 \<Longrightarrow> bit (parity_step c) i = (0 < i \<and> bit c (i - 1))"
  using gen_bits [of "i - 1"] by (auto simp: parity_step_def bit_simps simp del: push_bit_Suc)

lemma bit_parity_shift_low: "i \<le> 21 \<Longrightarrow> bit (parity_shift n c) i = (n \<le> i \<and> bit c (i - n))"
  by (induction n arbitrary: c) (auto simp: bit_parity_step_low Suc_le_eq)

text \<open>A word of eleven bits is only shifted.\<close>

lemma parity_shift_small: "n \<le> 21 \<Longrightarrow> (\<And>i. 11 \<le> i \<Longrightarrow> \<not> bit q i) \<Longrightarrow> parity_shift n q = push_bit n q"
proof (induction n arbitrary: q rule: nat_induct)
  case 0
  then show ?case by simp
next
  case (Suc n)
  have comm: "parity_shift n (parity_step c) = parity_step (parity_shift n c)" for c
    by (induction n arbitrary: c) simp_all
  have "\<not> bit (push_bit n q) 31" using Suc.prems by (auto simp: bit_simps)
  then have "parity_step (push_bit n q) = push_bit (Suc n) q"
    by (simp add: parity_step_def top_bit push_bit_push_bit del: push_bit_Suc)
  with Suc comm [of q] show ?case by (simp del: push_bit_Suc)
qed

section \<open>Counting ones\<close>

definition ones :: "32 word \<Rightarrow> nat" where
  "ones w = length (filter (bit w) [0..<32])"

lemma count_ones_add: "n \<le> 32 \<Longrightarrow> count_ones n w p = p + length (filter (bit w) [32 - n..<32])"
proof (induction n arbitrary: w p)
  case 0
  then show ?case by simp
next
  case (Suc n)
  have "filter (bit (push_bit 1 w)) [32 - n..<32] = map Suc (filter (bit w) [31 - n..<31])"
  proof -
    have "[32 - n..<32] = map Suc [31 - n..<31]" using Suc.prems by (simp add: map_Suc_upt Suc_diff_le flip: Suc_diff_Suc)
    moreover have "bit (push_bit 1 w) (Suc i) = bit w i" if "i < 31" for i using that by (simp add: bit_simps del: push_bit_Suc One_nat_def)
    ultimately show ?thesis by (auto simp: filter_map comp_def intro!: filter_cong)
  qed
  moreover have "[31 - n..<32] = [31 - n..<31] @ [31]" using Suc.prems upt_Suc [of "31 - n" 31] by simp
  ultimately show ?case using Suc by (simp add: top_bit)
qed

lemma count_ones_32: "count_ones 32 w 0 = ones w"
  using count_ones_add [of 32 w 0] by (simp add: ones_def)

lemma ones_card: "ones w = card {i. bit w i}"
proof -
  have "{i. bit w i} = set (filter (bit w) [0..<32])" using bit_imp_le_length [of w] by auto
  moreover have "distinct (filter (bit w) [0..<32])" by simp
  ultimately show ?thesis unfolding ones_def by (metis distinct_card)
qed

lemma even_ones_xor: "even (ones a) \<Longrightarrow> even (ones b) \<Longrightarrow> even (ones (a XOR b))"
proof -
  have "even (length (filter (\<lambda>i. P i \<noteq> Q i) xs)) = (even (length (filter P xs)) = even (length (filter Q xs)))"
    for P Q :: "nat \<Rightarrow> bool" and xs by (induction xs) auto
  moreover assume "even (ones a)" "even (ones b)"
  ultimately show ?thesis unfolding ones_def bit_xor_iff by simp
qed

section \<open>Codewords\<close>

text \<open>The 21 information bits, the remainder, and the code.\<close>

definition info_word :: "32 word \<Rightarrow> bool" where
  "info_word m \<longleftrightarrow> (\<forall>i<11. \<not> bit m i)"

definition syndrome :: "32 word \<Rightarrow> 32 word" where
  "syndrome c = drop_bit 22 (parity_shift 21 c)"

definition codeword :: "32 word \<Rightarrow> bool" where
  "codeword c \<longleftrightarrow> syndrome c = 0 \<and> even (ones c)"

lemma syndrome_xor: "syndrome (a XOR b) = syndrome a XOR syndrome b"
  by (simp add: syndrome_def parity_shift_xor)

lemma parity_word:
  assumes "info_word m"
  defines "q \<equiv> drop_bit 21 (parity_shift 21 m)"
  shows "m OR q = m XOR q" and "\<not> bit (m OR q) 0" and "\<And>i. 11 \<le> i \<Longrightarrow> \<not> bit q i"
    and "parity_shift 21 (m OR q) = 0"
proof -
  let ?r = "parity_shift 21 m"
  have low: "\<not> bit ?r i" if "i \<le> 21" for i
    using bit_parity_shift_low [OF that] that assms(1) by (auto simp: info_word_def)
  show hi: "\<not> bit q i" if "11 \<le> i" for i
    using that bit_imp_le_length [of ?r "21 + i"] by (auto simp: q_def bit_simps)
  show or: "m OR q = m XOR q"
  proof (rule bit_word_eqI)
    fix n
    show "bit (m OR q) n = bit (m XOR q) n"
      using hi [of n] assms(1) by (cases "n < 11") (auto simp: info_word_def bit_simps)
  qed
  show "\<not> bit (m OR q) 0" using low [of 21] assms(1) by (auto simp: info_word_def q_def bit_simps)
  have "push_bit 21 q = ?r"
  proof (rule bit_word_eqI)
    fix n assume "n < LENGTH(32)"
    then show "bit (push_bit 21 q) n = bit ?r n"
      using low [of n] by (cases "n < 21") (simp_all add: q_def bit_simps)
  qed
  then show "parity_shift 21 (m OR q) = 0"
    using parity_shift_small [of 21 q] hi by (simp add: or parity_shift_xor)
qed

lemma add_low_bit: "\<not> bit w 0 \<Longrightarrow> w + of_bool b = w OR of_bool b" for w :: "32 word"
proof (rule disjunctive_add_eq_or, rule bit_word_eqI)
  fix n assume "\<not> bit w 0"
  then show "bit (w AND of_bool b) n = bit 0 n" by (cases n) (auto simp: bit_simps)
qed

lemma syndrome_low: "syndrome 0 = 0 \<and> syndrome 1 = 0"
  by code_simp

lemma do_parity_codeword:
  assumes "info_word m"
  shows "codeword (do_parity_stuff m)" and "11 \<le> i \<Longrightarrow> bit (do_parity_stuff m) i = bit m i"
proof -
  define q where "q = drop_bit 21 (parity_shift 21 m)"
  note pw = parity_word [OF assms, folded q_def]
  let ?w = "m OR q"
  define b where "b = odd (ones ?w)"
  have "of_nat (ones ?w mod 2) = (of_bool b :: 32 word)" by (simp add: b_def mod2_eq_if)
  then have d: "do_parity_stuff m = ?w OR of_bool b"
    using add_low_bit [OF pw(2), of b]
    by (simp add: do_parity_stuff_def q_def [symmetric] count_ones_32 Let_def)
  have x: "?w OR of_bool b = ?w XOR of_bool b"
    by (rule bit_word_eqI) (use pw(2) in \<open>auto simp: bit_simps intro: gr0I\<close>)
  have "syndrome (of_bool b) = 0"
    using syndrome_low by (cases b) simp_all
  moreover have "syndrome ?w = 0" unfolding syndrome_def pw(4) by simp
  ultimately have s: "syndrome (do_parity_stuff m) = 0" unfolding d x syndrome_xor by simp
  have "{i. bit (?w OR of_bool b) i} = (if b then insert 0 {i. bit ?w i} else {i. bit ?w i})"
    by (auto simp: bit_simps)
  moreover have "finite {i. bit ?w i}"
    by (rule finite_subset [of _ "{..<32}"]) (auto dest: bit_imp_le_length)
  ultimately have "ones (?w OR of_bool b) = ones ?w + of_bool b"
    using pw(2) by (simp add: ones_card)
  then have "even (ones (do_parity_stuff m))" by (auto simp: d b_def)
  with s show "codeword (do_parity_stuff m)" by (simp add: codeword_def)
  show "11 \<le> i \<Longrightarrow> bit (do_parity_stuff m) i = bit m i"
    using pw(3) by (auto simp: d bit_simps)
qed

section \<open>The distance of the code\<close>

text \<open>A merge sort, so that a list of a few hundred numbers is seen to be distinct by evaluation.\<close>

fun weave :: "int list \<Rightarrow> int list \<Rightarrow> int list" where
  "weave (a # u) (b # v) = (if b < a then b # weave (a # u) v else a # weave u (b # v))"
| "weave u v = u @ v"

fun merge_pairs :: "int list list \<Rightarrow> int list list" where
  "merge_pairs (xs # ys # xss) = weave xs ys # merge_pairs xss"
| "merge_pairs xss = xss"

fun merge_all :: "nat \<Rightarrow> int list list \<Rightarrow> int list" where
  "merge_all 0 xss = concat xss"
| "merge_all (Suc n) xss = merge_all n (merge_pairs xss)"

fun increasing :: "int list \<Rightarrow> bool" where
  "increasing (x # y # zs) = (x < y \<and> increasing (y # zs))"
| "increasing _ = True"

lemma mset_weave [simp]: "mset (weave u v) = mset u + mset v"
  by (induction u v rule: weave.induct) simp_all

lemma mset_merge_pairs: "mset (concat (merge_pairs xss)) = mset (concat xss)"
  by (induction xss rule: merge_pairs.induct) auto

lemma mset_merge_all: "mset (merge_all n xss) = mset (concat xss)"
  by (induction n xss rule: merge_all.induct) (simp_all add: mset_merge_pairs)

lemma increasing_distinct: "increasing xs \<Longrightarrow> distinct xs"
proof -
  have "increasing xs \<Longrightarrow> sorted_wrt (<) xs"
    by (induction xs rule: increasing.induct) (auto intro: less_trans)
  then show "increasing xs \<Longrightarrow> distinct xs" by (metis strict_sorted_iff)
qed

text \<open>The columns of the check matrix, and their sums in pairs.\<close>

definition column :: "nat \<Rightarrow> 32 word" where
  "column i = parity_shift 21 (push_bit i 1)"

lemma column_Suc: "i < 31 \<Longrightarrow> column (Suc i) = parity_step (column i)"
proof -
  assume i: "i < 31"
  have comm: "parity_shift n (parity_step c) = parity_step (parity_shift n c)" for n c
    by (induction n arbitrary: c) simp_all
  have "\<not> bit (push_bit i (1 :: 32 word)) 31" using i by (simp add: bit_simps)
  then have "push_bit (Suc i) 1 = parity_step (push_bit i 1)"
    by (simp add: parity_step_def top_bit)
  then show ?thesis by (simp only: column_def comm)
qed

fun column_list :: "nat \<Rightarrow> 32 word \<Rightarrow> int list" where
  "column_list 0 c = []"
| "column_list (Suc n) c = uint (drop_bit 22 c) # column_list n (parity_step c)"

definition table :: "int list" where
  "table = [0, 1, 2, 4, 8, 16, 32, 64, 128, 256, 512, 873, 443, 886, 389, 778, 381, 762, 669, 595,
     975, 247, 494, 988, 209, 418, 836, 481, 962, 237, 474, 948]"

lemma column_list_table: "column_list 32 0x200000 = table"
  by code_simp

fun pair_sums :: "int list \<Rightarrow> int list" where
  "pair_sums [] = []"
| "pair_sums (c # cs) = map (\<lambda>d. c XOR d) cs @ pair_sums cs"

lemma sums_increasing: "increasing (merge_all 9 (map (\<lambda>p. [p]) (0 # pair_sums table)))"
  by code_simp

lemma nth_column_list:
  "i < n \<Longrightarrow> k + n \<le> 32 \<Longrightarrow> column_list n (column k) ! i = uint (drop_bit 22 (column (k + i)))"
proof (induction n arbitrary: i k)
  case (Suc n)
  show ?case
  proof (cases i)
    case (Suc j)
    then have "k < 31" using Suc.prems by simp
    with Suc.IH [of j "Suc k"] Suc.prems Suc show ?thesis by (simp add: column_Suc)
  qed simp
qed simp

lemma column_0: "column 0 = 0x200000"
  by code_simp

lemma nth_table: "i < 32 \<Longrightarrow> table ! i = uint (syndrome (push_bit i 1))"
  using nth_column_list [of i 32 0] unfolding column_0 column_list_table
  by (simp only: syndrome_def column_def add_0)

lemma pair_sums_mem: "i < j \<Longrightarrow> j < length cs \<Longrightarrow> cs ! i XOR cs ! j \<in> set (pair_sums cs)"
proof (induction cs arbitrary: i j)
  case (Cons c cs)
  then obtain j' where j': "j = Suc j'" by (cases j) auto
  with Cons show ?case by (cases i) auto
qed simp

lemma pair_sums_inj:
  "distinct (pair_sums cs) \<Longrightarrow> i < j \<Longrightarrow> j < length cs \<Longrightarrow> k < l \<Longrightarrow> l < length cs \<Longrightarrow>
   cs ! i XOR cs ! j = cs ! k XOR cs ! l \<Longrightarrow> i = k"
proof (induction cs arbitrary: i j k l)
  case (Cons c cs)
  obtain j' l' where s: "j = Suc j'" "l = Suc l'" using Cons.prems by (cases j; cases l; simp)
  have first: "c XOR cs ! m \<notin> set (pair_sums cs)" if "m < length cs" for m
    proof
    assume "c XOR cs ! m \<in> set (pair_sums cs)"
    moreover have "c XOR cs ! m \<in> (XOR) c ` set cs" using nth_mem [OF that] by blast
    ultimately show False using Cons.prems(1) by (simp, blast)
  qed
  show ?case
  proof (cases i; cases k)
    fix k' assume "i = 0" "k = Suc k'"
    then show ?thesis using Cons.prems s first [of j'] pair_sums_mem [of k' l' cs] by simp
  next
    fix i' assume "i = Suc i'" "k = 0"
    then show ?thesis using Cons.prems s first [of l'] pair_sums_mem [of i' j' cs] by simp
  next
    fix i' k' assume "i = Suc i'" "k = Suc k'"
    then show ?thesis using Cons.prems s Cons.IH [of i' j' k' l'] by simp
  qed simp
qed simp

lemma sums_ok: "distinct (0 # pair_sums table)"
proof -
  have "concat (map (\<lambda>p. [p]) xs) = xs" for xs :: "int list" by (induction xs) auto
  moreover have "distinct xs = distinct ys" if "mset xs = mset ys" for xs ys :: "int list"
    using that by (metis mset_eq_imp_distinct_iff)
  ultimately show ?thesis
    using increasing_distinct [OF sums_increasing] mset_merge_all [of 9 "map (\<lambda>p. [p]) (0 # pair_sums table)"] by metis
qed

lemma ones_list:
  obtains xs where "length xs = ones e" "sorted_wrt (<) xs" "\<And>i. bit e i \<longleftrightarrow> i \<in> set xs" "set xs \<subseteq> {..<32}"
proof
  show "length (filter (bit e) [0..<32]) = ones e" by (simp add: ones_def del: upt_rec_numeral)
  show "sorted_wrt (<) (filter (bit e) [0..<32])" by (rule sorted_wrt_filter) (rule sorted_wrt_upt)
  show "bit e i \<longleftrightarrow> i \<in> set (filter (bit e) [0..<32])" for i by (auto dest: bit_imp_le_length)
  show "set (filter (bit e) [0..<32]) \<subseteq> {..<32}" by auto
qed

lemma unit_bit: "n < 32 \<Longrightarrow> bit (2 ^ i :: 32 word) n \<longleftrightarrow> n = i"
  by (auto simp: bit_exp_iff)

lemma codeword_weight:
  assumes c: "codeword e" and ne: "e \<noteq> 0"
  shows "6 \<le> ones e"
proof (rule ccontr)
  assume "\<not> 6 \<le> ones e"
  moreover have "even (ones e)" "syndrome e = 0" using c by (simp_all add: codeword_def)
  moreover have "ones e \<noteq> 0"
  proof
    assume "ones e = 0"
    then have "\<not> bit e i" if "i < 32" for i using that by (auto simp: ones_def filter_empty_conv simp del: upt_rec_numeral)
    then have "e = 0" by (intro bit_word_eqI) simp
    with ne show False ..
  qed
  ultimately have w: "ones e = 2 \<or> ones e = 4" and s: "syndrome e = 0" by presburger+
  obtain xs where xs: "length xs = ones e" "sorted_wrt (<) xs" "\<And>i. bit e i \<longleftrightarrow> i \<in> set xs" "set xs \<subseteq> {..<32}"
    using ones_list [of e] by blast
  let ?u = "\<lambda>i. 2 ^ i :: 32 word"
  have t: "uint (syndrome (?u i XOR ?u j)) = table ! i XOR table ! j" if "i < 32" "j < 32" for i j
    using that by (simp add: syndrome_xor unsigned_xor_eq nth_table)
  have len: "length table = 32" by (simp add: table_def)
  from w show False
  proof
    assume "ones e = 2"
    then obtain i j where ij: "xs = [i, j]" using xs(1) by (auto simp: length_Suc_conv numeral_eq_Suc)
    then have lt: "i < j" "j < 32" using xs(2,4) by auto
    have "e = ?u i XOR ?u j"
      by (rule bit_word_eqI) (use lt xs(3) in \<open>auto simp: ij bit_xor_iff unit_bit\<close>)
    then have "table ! i XOR table ! j = 0" using t [of i j] s lt by simp
    then show False using pair_sums_mem [of i j table] sums_ok lt len by simp
  next
    assume "ones e = 4"
    then obtain i j k l where ij: "xs = [i, j, k, l]" using xs(1) by (auto simp: length_Suc_conv numeral_eq_Suc)
    then have lt: "i < j" "j < k" "k < l" "l < 32" using xs(2,4) by auto
    have e: "e = (?u i XOR ?u j) XOR (?u k XOR ?u l)"
      by (rule bit_word_eqI) (use lt xs(3) in \<open>auto simp: ij bit_xor_iff unit_bit\<close>)
    have "i < 32" "j < 32" "k < 32" using lt by auto
    then have "uint (syndrome e) = (table ! i XOR table ! j) XOR (table ! k XOR table ! l)"
      using lt(4) by (simp only: e syndrome_xor [of "?u i XOR ?u j"] unsigned_xor_eq t)
    then have "(table ! i XOR table ! j) XOR (table ! k XOR table ! l) = 0" by (simp only: s unsigned_0)
    then have "table ! i XOR table ! j = table ! k XOR table ! l"
      by (metis xor.assoc xor.right_neutral xor_self_eq xor.left_neutral)
    then show False using pair_sums_inj [of table i j k l] sums_ok lt len by simp
  qed
qed

text \<open>C5. The code: the word that goes out carries the 21 information bits unchanged, is a multiple of the
  generator polynomial and has an even number of ones; and two words made from different information differ
  in at least six of the 32 bits, so that a receiver can correct any two errors and still detect a third.\<close>

theorem pocsag_code_distance:
  assumes "info_word m" and "info_word m'" and "m \<noteq> m'"
  shows "codeword (do_parity_stuff m) \<and> (\<forall>i\<ge>11. bit (do_parity_stuff m) i = bit m i)
    \<and> 6 \<le> ones (do_parity_stuff m XOR do_parity_stuff m')"
proof -
  note d = do_parity_codeword [OF assms(1)] do_parity_codeword [OF assms(2)]
  have "codeword (do_parity_stuff m XOR do_parity_stuff m')"
    using d(1,3) by (simp add: codeword_def syndrome_xor even_ones_xor)
  moreover have "do_parity_stuff m \<noteq> do_parity_stuff m'"
  proof
    assume "do_parity_stuff m = do_parity_stuff m'"
    then have "bit m i = bit m' i" for i
      using d(2,4) [of i] assms(1,2) by (cases "i < 11") (auto simp: info_word_def)
    then have "m = m'" by (simp add: bit_eq_iff)
    then show False using assms(3) by simp
  qed
  then have "do_parity_stuff m XOR do_parity_stuff m' \<noteq> 0"
    by (metis xor.assoc xor.right_neutral xor_self_eq xor.left_neutral)
  ultimately show ?thesis using codeword_weight d(1,2) by blast
qed

theorem pocsag_code_distance_witness:
  "6 \<le> ones (do_parity_stuff 0x80000000 XOR do_parity_stuff 0x800)"
proof -
  have "info_word (push_bit 31 1)" "info_word (push_bit 11 1)"
    unfolding info_word_def bit_push_bit_iff by simp_all
  then show ?thesis using pocsag_code_distance [of "0x80000000" "0x800"] by simp
qed

end
