(* ===== verification/PocsagBatch.thy ===== *)
theory PocsagBatch
  imports PocsagCode
begin

unbundle bit_operations_syntax

text \<open>
  The layout of the POCSAG batches: the slots of a chain of batches read in the order in which
  they are sent, and where the loops of \<^verbatim>\<open>make_pocsag_batch\<close> put the codewords.
\<close>

definition slots :: "pocsag_batch list \<Rightarrow> 32 word list" where
  "slots bs = concat (map (\<lambda>b. concat (b_frame b)) bs)"

definition batch_shape :: "pocsag_batch \<Rightarrow> bool" where
  "batch_shape b \<longleftrightarrow> b_sc b = SYNCH \<and> length (b_frame b) = 8 \<and> (\<forall>f\<in>set (b_frame b). length f = 2)"

lemma slots_append [simp]: "slots (as @ bs) = slots as @ slots bs"
  by (simp add: slots_def)

lemma slots_single: "slots [b] = concat (b_frame b)"
  by (simp add: slots_def)

lemma empty_batch_shape [simp]: "batch_shape empty_batch"
  by (simp add: batch_shape_def empty_batch_def)

lemma empty_batch_slots: "concat (b_frame empty_batch) = replicate 16 IDLE"
  by (simp add: empty_batch_def numeral_eq_Suc)

lemma length_concat_pairs: "\<forall>f\<in>set fs. length f = 2 \<Longrightarrow> length (concat fs) = 2 * length fs"
  by (induction fs) auto

lemma concat_pairs_update:
  "\<forall>f\<in>set fs. length f = 2 \<Longrightarrow> j < length fs \<Longrightarrow> k < 2 \<Longrightarrow>
   concat (fs[j := (fs ! j)[k := w]]) = (concat fs)[2 * j + k := w]"
proof (induction fs arbitrary: j)
  case (Cons f fs)
  then show ?case by (cases j) (simp_all add: list_update_append)
qed simp

lemma set_slot_shape: "batch_shape b \<Longrightarrow> j < 8 \<Longrightarrow> batch_shape (set_slot j k w b)"
  by (auto simp: batch_shape_def set_slot_def dest!: subsetD [OF set_update_subset_insert])

lemma set_slot_slots:
  "batch_shape b \<Longrightarrow> j < 8 \<Longrightarrow> k < 2 \<Longrightarrow>
   concat (b_frame (set_slot j k w b)) = (concat (b_frame b))[2 * j + k := w]"
  by (simp add: batch_shape_def set_slot_def concat_pairs_update)

lemma update_at_front: "length pc < n \<Longrightarrow>
  (pc @ replicate (n - length pc) a)[length pc := w] = (pc @ [w]) @ replicate (n - length (pc @ [w])) a"
  by (cases "n - length pc") (auto simp: list_update_append)

text \<open>The loops fill the slots from the given place on, without a gap, and take a new batch only for a word.\<close>

lemma place_words_layout:
  assumes "batch_shape cur" and "\<forall>b\<in>set bs. batch_shape b"
    and "concat (b_frame cur) = pc @ replicate (16 - length pc) IDLE"
    and "length pc = 2 * j + k" and "j \<le> 8" and "k \<le> 2" and "2 * j + k \<le> 16" and "0 < length pc"
    and "length pc + length ws \<le> 16 * (mem + 1)"
  shows "\<exists>bs' r. place_words mem ws j k bs cur = Inr bs' \<and> (\<forall>b\<in>set bs'. batch_shape b)
    \<and> slots bs' = slots bs @ pc @ map message_word ws @ replicate r IDLE \<and> r < 16"
  using assms
proof (induction mem ws j k bs cur arbitrary: pc rule: place_words.induct)
  case (1 mem j k bs cur)
  then show ?case by (intro exI [of _ "bs @ [cur]"] exI [of _ "16 - length pc"]) (auto simp: slots_single)
next
  case (2 mem w ws j k bs cur)
  consider (wrap) "k > 1" | (full) "\<not> k > 1" "j = 8" | (slot) "\<not> k > 1" "j < 8"
    using "2.prems"(5) by linarith
  then show ?case
  proof cases
    case wrap
    then have "k = 2" using "2.prems"(6) by simp
    then show ?thesis using "2.IH"(1) [OF wrap "2.prems"(1,2,3)] "2.prems" wrap by simp
  next
    case full
    let ?c = "set_slot 0 0 (message_word w) empty_batch"
    have k: "k = 0" "length pc = 16" using full "2.prems" by auto
    have "mem \<noteq> 0" using k "2.prems"(9) by simp
    have b: "\<forall>b\<in>set (bs @ [cur]). batch_shape b" using "2.prems"(1,2) by simp
    have c: "concat (b_frame ?c) = [message_word w] @ replicate (16 - length [message_word w]) IDLE"
      by (simp add: set_slot_slots empty_batch_slots numeral_eq_Suc)
    have "length [message_word w] + length ws \<le> 16 * (mem - 1 + 1)"
      using k "2.prems"(9) \<open>mem \<noteq> 0\<close> by simp
    from "2.IH"(2) [OF full \<open>mem \<noteq> 0\<close> set_slot_shape [OF empty_batch_shape] b c _ _ _ _ _ this]
    show ?thesis using full k \<open>mem \<noteq> 0\<close> "2.prems"(3) by (auto simp: slots_single)
  next
    case slot
    let ?c = "set_slot j k (message_word w) cur"
    have lt: "length pc < 16" using slot "2.prems" by simp
    have c: "concat (b_frame ?c) = (pc @ [message_word w]) @ replicate (16 - length (pc @ [message_word w])) IDLE"
      using set_slot_slots [OF "2.prems"(1) slot(2), of k "message_word w"] slot(1) "2.prems"(3,4)
        update_at_front [OF lt, of IDLE "message_word w"] by simp
    have "j \<noteq> 8" using slot by simp
    from "2.IH"(3) [OF slot(1) this set_slot_shape [OF "2.prems"(1) slot(2)] "2.prems"(2) c]
    show ?thesis using slot "2.prems" by simp
  qed
qed

text \<open>The number of batches a message of \<open>n\<close> words takes behind the address word of frame \<open>a\<close>.\<close>

definition batches_for :: "nat \<Rightarrow> nat \<Rightarrow> nat" where
  "batches_for a n = (2 * a + 1 + n + 15) div 16"

lemma length_slots: "\<forall>b\<in>set bs. batch_shape b \<Longrightarrow> length (slots bs) = 16 * length bs"
  by (induction bs) (auto simp: slots_def batch_shape_def length_concat_pairs)

lemma page_layout:
  assumes w: "address_word ric toneno = Some w" and t: "type \<noteq> TONE"
    and p: "pack_pogsag_string packed data sz type = Inr (n, packed')" and n: "n \<le> length packed'"
    and a: "a = unat (ric AND 7)" and mem: "batches_for a n \<le> mem"
  shows "\<exists>bs r. make_pocsag_batch mem packed ric data sz type toneno = Inr bs
    \<and> slots bs = replicate (2 * a) IDLE @ do_parity_stuff w # map message_word (take n packed') @ replicate r IDLE
    \<and> length bs = batches_for a n \<and> (\<forall>b\<in>set bs. batch_shape b)"
proof -
  have a7: "a < 8" unfolding a using word_and_le1 [of ric 7] by (simp add: word_le_nat_alt and.commute)
  let ?c = "set_slot a 0 (do_parity_stuff w) empty_batch"
  let ?pc = "replicate (2 * a) IDLE @ [do_parity_stuff w]"
  have "concat (b_frame ?c) = (replicate 16 IDLE)[2 * a := do_parity_stuff w]"
    using a7 by (simp add: set_slot_slots empty_batch_slots)
  also have "replicate 16 IDLE = replicate (2 * a) IDLE @ replicate (16 - 2 * a) IDLE"
    using a7 by (simp flip: replicate_add)
  also have "\<dots>[2 * a := do_parity_stuff w] = ?pc @ replicate (16 - length ?pc) IDLE"
    using update_at_front [of "replicate (2 * a) IDLE" 16 IDLE "do_parity_stuff w"] a7 by simp
  finally have c: "concat (b_frame ?c) = ?pc @ replicate (16 - length ?pc) IDLE" .
  have m: "0 < mem" "length ?pc + length (take n packed') \<le> 16 * (mem - 1 + 1)"
    using mem n by (auto simp: batches_for_def)
  obtain bs r where bs: "place_words (mem - 1) (take n packed') a 1 [] ?c = Inr bs"
    "\<forall>b\<in>set bs. batch_shape b"
    "slots bs = slots [] @ ?pc @ map message_word (take n packed') @ replicate r IDLE" "r < 16"
    using place_words_layout [OF set_slot_shape [OF empty_batch_shape a7] _ c _ _ _ _ _ m(2), of "[]" a 1] a7
    by auto
  have "16 * length bs = 2 * a + 1 + n + r"
    using length_slots [OF bs(2)] bs(3) n by (simp add: slots_def)
  then have "length bs = batches_for a n" using bs(4) by (simp add: batches_for_def)
  then show ?thesis
    using bs w t p m(1) a by (intro exI [of _ bs] exI [of _ r]) (simp add: make_pocsag_batch_def slots_def Let_def)
qed

text \<open>C9. The layout of a page: in the slots of the batches, read in the order of transmission, the address word
  stands in the first half of the frame that the low three bits of the address choose, the words
  of the message follow without a gap, over as many batches as they need and no more, every other
  slot is idle, and every batch begins with the sync word and has eight frames of two words.\<close>

theorem pocsag_page_layout:
  assumes w: "address_word ric toneno = Some w" and t: "type \<noteq> TONE"
    and p: "pack_pogsag_string packed data sz type = Inr (n, packed')" and n: "n \<le> length packed'"
    and a: "a = unat (ric AND 7)" and mem: "batches_for a n \<le> mem"
  shows "\<exists>bs r. make_pocsag_batch mem packed ric data sz type toneno = Inr bs
    \<and> slots bs = replicate (2 * a) IDLE @ do_parity_stuff w # map message_word (take n packed') @ replicate r IDLE
    \<and> length bs = batches_for a n \<and> (\<forall>b\<in>set bs. batch_shape b)"
  using page_layout [OF assms] .

theorem pocsag_page_layout_witness:
  "\<exists>bs r. make_pocsag_batch 2 (replicate 100 0) 15 [0x41, 0] 1 ALPHA 3 = Inr bs
    \<and> slots bs = replicate 14 IDLE @ do_parity_stuff 0x3800 # map message_word [0x82408] @ replicate r IDLE"
proof -
  have "pack_pogsag_string (replicate 100 0) [0x41, 0] 1 ALPHA = Inr (1, (replicate 100 0)[0 := 0x82408])"
    by code_simp
  moreover have "address_word 15 3 = Some 0x3800" "unat (15 AND 7 :: 32 word) = 7" by code_simp+
  moreover have t: "take (Suc 0) ((replicate 100 0)[0 := 0x82408]) = [0x82408 :: 32 word]" by code_simp
  ultimately show ?thesis
    using pocsag_page_layout [of 15 3 "0x3800" ALPHA "replicate 100 0" "[0x41, 0]" 1 1 "(replicate 100 0)[0 := 0x82408]" 7 2]
    by (fastforce simp: batches_for_def t)
qed

end
