(* ===== verification/PocsagText.thy ===== *)
theory PocsagText
  imports PocsagBatch
begin

unbundle bit_operations_syntax

text \<open>
  What a pager reads: the twenty payload bits of each message word, taken together, are the
  characters of the text, seven bits each with the lowest first and an EOT behind, or the digits
  of the number, four bits each.
\<close>

section \<open>Payloads\<close>

text \<open>The word with the given bits, the first one at place 19.\<close>

definition word_of :: "bool list \<Rightarrow> 32 word" where
  "word_of bs = foldl (\<lambda>w i. if bs ! i then w OR push_bit (19 - i) 1 else w) 0 [0..<length bs]"

definition payload :: "32 word \<Rightarrow> bool list" where
  "payload c = map (\<lambda>i. bit c (30 - i)) [0..<20]"

lemma word_of_Nil [simp]: "word_of [] = 0"
  by (simp add: word_of_def)

lemma word_of_snoc:
  "word_of (bs @ [b]) = (if b then word_of bs OR push_bit (19 - length bs) 1 else word_of bs)"
proof -
  have "foldl (\<lambda>w i. if (bs @ [b]) ! i then w OR push_bit (19 - i) 1 else w) 0 [0..<length bs]
      = foldl (\<lambda>w i. if bs ! i then w OR push_bit (19 - i) 1 else w) (0 :: 32 word) [0..<length bs]"
    by (rule foldl_cong) (auto simp: nth_append)
  then show ?thesis by (simp add: word_of_def)
qed

lemma bit_unit: "bit (2 ^ i :: 32 word) k \<longleftrightarrow> k = i \<and> i < 32"
  by (auto simp: bit_exp_iff)

lemma bit_word_of: "length bs \<le> 20 \<Longrightarrow> bit (word_of bs) k \<longleftrightarrow> k < 20 \<and> 19 - k < length bs \<and> bs ! (19 - k)"
proof (induction bs rule: rev_induct)
  case (snoc b bs)
  have l: "length bs < 20" using snoc.prems by simp
  have ih: "bit (word_of bs) k \<longleftrightarrow> k < 20 \<and> 19 - k < length bs \<and> bs ! (19 - k)" using snoc by simp
  show ?case
  proof (cases "k < 20 \<and> 19 - k = length bs")
    case True
    then have "k = 19 - length bs" by auto
    with True l ih show ?thesis by (simp add: word_of_snoc bit_or_iff bit_unit)
  next
    case False
    then have "k \<noteq> 19 - length bs" using l by auto
    with False ih show ?thesis by (auto simp: word_of_snoc bit_or_iff bit_unit nth_append less_Suc_eq)
  qed
qed simp

lemma top_word: "bit (0x80000000 :: 32 word) i \<longleftrightarrow> i = 31"
  using bit_unit [of 31 i] by simp

lemma message_word_info: "info_word (push_bit 11 w OR 0x80000000)"
  by (auto simp: info_word_def bit_or_iff bit_push_bit_iff top_word simp del: bit_numeral_word_iff)

lemma bit_message_word: "11 \<le> i \<Longrightarrow> i < 32 \<Longrightarrow> bit (message_word w) i = (i = 31 \<or> bit w (i - 11))"
  using do_parity_codeword(2) [OF message_word_info, of i w]
  by (auto simp: message_word_def bit_or_iff bit_push_bit_iff top_word simp del: bit_numeral_word_iff)

lemma payload_message_word: "length bs = 20 \<Longrightarrow> payload (message_word (word_of bs)) = bs"
  by (rule nth_equalityI) (auto simp: payload_def bit_message_word bit_word_of)

section \<open>The alphanumeric packer\<close>

text \<open>The packer holds the bits \<open>B\<close>: whole words in \<open>packed\<close>, the rest in \<open>acc\<close>.\<close>

definition holds :: "packer \<Rightarrow> bool list \<Rightarrow> bool" where
  "holds s B \<longleftrightarrow> (case s of (packed, pi, acc, n) \<Rightarrow>
     n \<le> 19 \<and> pi \<le> length packed \<and> length B = 20 * pi + (19 - n)
     \<and> take pi packed = map (\<lambda>q. word_of (take 20 (drop (20 * q) B))) [0..<pi]
     \<and> acc = word_of (drop (20 * pi) B))"

abbreviation room :: "packer \<Rightarrow> nat" where
  "room s \<equiv> length (fst s)"

lemma alpha_bit_cases:
  assumes h: "holds s B"
  shows "alpha_bit b s = Inl OutOfBounds \<and> 20 * room s \<le> length B
    \<or> (\<exists>s'. alpha_bit b s = Inr s' \<and> holds s' (B @ [b]) \<and> room s' = room s)"
proof -
  obtain packed pi acc n where s: "s = (packed, pi, acc, n)" by (cases s) auto
  have f: "n \<le> 19" "length B = 20 * pi + (19 - n)" "acc = word_of (drop (20 * pi) B)"
    "take pi packed = map (\<lambda>q. word_of (take 20 (drop (20 * q) B))) [0..<pi]" "pi \<le> length packed"
    using h by (auto simp: holds_def s)
  have acc: "(if b then acc OR push_bit n 1 else acc) = word_of (drop (20 * pi) (B @ [b]))"
    using f by (simp add: word_of_snoc)
  have old: "map (\<lambda>q. word_of (take 20 (drop (20 * q) (B @ [b])))) [0..<pi] = take pi packed"
    unfolding f(4) by (rule map_cong) (use f(2) in auto)
  show ?thesis
  proof (cases "n = 0")
    case n0: True
    show ?thesis
    proof (cases "pi < length packed")
      case False
      then show ?thesis using n0 f(2) by (simp add: s alpha_bit_def)
    next
    case True
    have "take 20 (drop (20 * pi) (B @ [b])) = drop (20 * pi) (B @ [b])" using f(2) n0 by simp
    with n0 True acc old f(2) show ?thesis by (auto simp: s alpha_bit_def holds_def take_Suc_conv_app_nth)
    qed
  next
    case False
    then show ?thesis using acc old f by (auto simp: s alpha_bit_def holds_def)
  qed
qed

lemma alpha_bit_holds:
  assumes "holds s B" and "length B + 1 \<le> 20 * room s"
  shows "\<exists>s'. alpha_bit b s = Inr s' \<and> holds s' (B @ [b]) \<and> room s' = room s"
  using alpha_bit_cases [OF assms(1), of b] assms(2) by auto

lemma alpha_bits_holds:
  "holds s B \<Longrightarrow> length B + length bs \<le> 20 * room s \<Longrightarrow>
   \<exists>s'. alpha_bits bs s = Inr s' \<and> holds s' (B @ bs) \<and> room s' = room s"
proof (induction bs arbitrary: s B)
  case (Cons b bs)
  have "length B + 1 \<le> 20 * room s" using Cons.prems(2) by simp
  from alpha_bit_holds [OF Cons.prems(1) this, of b]
  obtain s1 where s1: "alpha_bit b s = Inr s1" "holds s1 (B @ [b])" "room s1 = room s" by blast
  with Cons.IH [OF s1(2)] Cons.prems(2) show ?case by auto
qed auto

lemma length_char_bits [simp]: "length (char_bits c) = 7"
  by (simp add: char_bits_def)

lemma alpha_chars_holds:
  "holds s B \<Longrightarrow> \<forall>c\<in>set cs. c \<noteq> 0 \<Longrightarrow> length B + 7 * length cs \<le> 20 * room s \<Longrightarrow>
   \<exists>s'. alpha_chars (cs @ 0 # rest) s = Inr s' \<and> holds s' (B @ concat (map char_bits cs)) \<and> room s' = room s"
proof (induction cs arbitrary: s B)
  case (Cons c cs)
  have "length B + length (char_bits c) \<le> 20 * room s" using Cons.prems(3) by simp
  from alpha_bits_holds [OF Cons.prems(1) this]
  obtain s1 where s1: "alpha_bits (char_bits c) s = Inr s1" "holds s1 (B @ char_bits c)" "room s1 = room s" by blast
  with Cons.IH [OF s1(2)] Cons.prems(2,3) show ?case by auto
qed auto

text \<open>The padding of the last word.\<close>

lemma pad_char_word:
  "length C = 19 - n \<Longrightarrow> n \<le> 19 \<Longrightarrow>
   pad_char bs (word_of C) (int n) = (if length bs \<le> n then (word_of (C @ bs), int n - int (length bs))
     else (word_of (C @ take (n + 1) bs), - 1))"
proof (induction bs arbitrary: C n)
  case (Cons b bs)
  have a: "(if b then word_of C OR push_bit n 1 else word_of C) = word_of (C @ [b])"
    using Cons.prems by (simp add: word_of_snoc)
  show ?case
  proof (cases n)
    case 0
    then have "pad_char (b # bs) (word_of C) (int n)
        = ((if b then word_of C OR push_bit n 1 else word_of C), - 1)" by (simp only: pad_char.simps Let_def) simp
    then show ?thesis unfolding a using 0 by simp
  next
    case (Suc m)
    then have "pad_char (b # bs) (word_of C) (int n)
        = pad_char bs (if b then word_of C OR push_bit n 1 else word_of C) (int m)" by (simp only: pad_char.simps Let_def nat_int) simp
    then show ?thesis unfolding a using Suc Cons.IH [of "C @ [b]" m] Cons.prems by simp
  qed
qed simp

lemma alpha_pad_word:
  "length C = 19 - n \<Longrightarrow> n \<le> 19 \<Longrightarrow> n < 7 * m \<Longrightarrow>
   alpha_pad (word_of C) (int n) = word_of (C @ take (n + 1) (concat (replicate m (char_bits 4))))"
proof (induction m arbitrary: C n)
  case (Suc m)
  let ?e = "char_bits 4"
  have step: "alpha_pad (word_of C) (int n) = (let (acc', n') = pad_char ?e (word_of C) (int n) in alpha_pad acc' n')"
    by (subst alpha_pad.simps) simp
  note pad = pad_char_word [OF Suc.prems(1,2), of ?e]
  show ?case
  proof (cases "7 \<le> n")
    case True
    then have "pad_char ?e (word_of C) (int n) = (word_of (C @ ?e), int (n - 7))" using pad by simp
    moreover have "Suc (n - 7) = n - 6" using True by simp
    ultimately show ?thesis using step Suc.IH [of "C @ ?e" "n - 7"] Suc.prems True by simp
  next
    case False
    then have "pad_char ?e (word_of C) (int n) = (word_of (C @ take (n + 1) ?e), - 1)" using pad by simp
    moreover have "alpha_pad w (- 1) = w" for w by (subst alpha_pad.simps) simp
    ultimately show ?thesis using step False by simp
  qed
qed simp

section \<open>The pager\<close>

text \<open>
  The message words behind the address word of frame \<open>a\<close>, up to the first idle word, whose top bit is
  clear; the text in their bits, up to the EOT character.
\<close>

definition message_bits :: "nat \<Rightarrow> pocsag_batch list \<Rightarrow> bool list" where
  "message_bits a bs = concat (map payload (takeWhile (\<lambda>c. bit c 31) (drop (2 * a + 1) (slots bs))))"

definition bits_char :: "bool list \<Rightarrow> byte" where
  "bits_char bs = foldl (\<lambda>d j. if bs ! j then d OR push_bit j 1 else d) 0 [0..<7]"

function read_alpha :: "bool list \<Rightarrow> byte list" where
  "read_alpha bs =
     (if length bs < 7 \<or> bits_char (take 7 bs) = 4 then []
      else bits_char (take 7 bs) # read_alpha (drop 7 bs))"
  by pat_completeness auto

termination read_alpha
  by (relation "measure length") auto

declare read_alpha.simps [simp del]

lemma bits_char_bits: "bits_char (char_bits c) = c AND 0x7F"
proof (rule bit_word_eqI)
  fix n assume "n < LENGTH(8)"
  have m: "(0x7F :: byte) = mask 7" by (simp add: mask_eq_exp_minus_1)
  have "bit (foldl (\<lambda>d j. if f j then d OR push_bit j 1 else d) d js) n \<longleftrightarrow>
     bit d n \<or> (n < 8 \<and> n \<in> set js \<and> f n)" for d :: byte and f js
    by (induction js arbitrary: d) (auto simp: bit_simps)
  then have "bit (bits_char (char_bits c)) n \<longleftrightarrow> n < 7 \<and> char_bits c ! n"
    by (auto simp: bits_char_def)
  also have "\<dots> \<longleftrightarrow> n < 7 \<and> bit c n"
    using and_exp_eq_0_iff_not_bit [of c n] by (auto simp: char_bits_def simp del: upt_rec_numeral)
  finally show "bit (bits_char (char_bits c)) n = bit (c AND 0x7F) n"
    by (auto simp: m bit_simps)
qed

lemma read_alpha_chars:
  "\<forall>c\<in>set cs. c AND 0x7F \<noteq> 4 \<Longrightarrow>
   read_alpha (concat (map char_bits cs) @ char_bits 4 @ rest) = map (\<lambda>c. c AND 0x7F) cs"
proof (induction cs)
  case Nil
  have "(4 :: byte) AND 0x7F = 4" by simp
  then show ?case by (subst read_alpha.simps) (simp add: bits_char_bits)
next
  case (Cons c cs)
  then show ?case by (subst read_alpha.simps) (simp add: bits_char_bits)
qed

lemma message_bits_page:
  assumes "slots bs = replicate (2 * a) IDLE @ w # map message_word ws @ replicate r IDLE"
  shows "message_bits a bs = concat (map (payload \<circ> message_word) ws)"
proof -
  have m: "bit (message_word v) 31" for v by (simp add: bit_message_word)
  have "\<not> bit IDLE 31" by code_simp
  then have "takeWhile (\<lambda>c. bit c 31) (map message_word ws @ replicate r IDLE) = map message_word ws"
    by (subst takeWhile_append2) (use m in \<open>auto simp: takeWhile_eq_Nil_iff hd_replicate simp del: bit_numeral_word_iff\<close>)
  then show ?thesis using assms by (simp add: message_bits_def)
qed

lemma alpha_pack:
  assumes nz: "\<forall>c\<in>set cs. c \<noteq> 0" and room: "7 * (length cs + 1) div 20 < length packed"
  shows "\<exists>n packed' pad. pack_pogsag_string packed (cs @ 0 # rest) sz ALPHA = Inr (n, packed')
    \<and> n = 7 * (length cs + 1) div 20 + 1 \<and> n \<le> length packed'
    \<and> concat (map (payload \<circ> message_word) (take n packed')) = concat (map char_bits cs) @ char_bits 4 @ pad"
proof -
  let ?T = "concat (map char_bits cs)"
  have lT: "length ?T = 7 * length cs" by (induction cs) auto
  have r: "7 * (length cs + 1) \<le> 20 * length packed" using room by auto
  have h0: "holds (packed, 0, 0, 19) []" by (simp add: holds_def)
  obtain s1 where s1: "alpha_chars (cs @ 0 # rest) (packed, 0, 0, 19) = Inr s1" "holds s1 ?T"
    "room s1 = length packed"
    using alpha_chars_holds [OF h0 nz, of rest] r by auto
  obtain s2 where s2: "alpha_bits (char_bits 4) s1 = Inr s2" "holds s2 (?T @ char_bits 4)" "room s2 = length packed"
    using alpha_bits_holds [OF s1(2), of "char_bits 4"] s1(3) lT r by auto
  obtain packed' pi acc n where e: "s2 = (packed', pi, acc, n)" by (cases s2) auto
  let ?B = "?T @ char_bits 4"
  have h: "n \<le> 19" "length ?B = 20 * pi + (19 - n)" "acc = word_of (drop (20 * pi) ?B)"
    "take pi packed' = map (\<lambda>q. word_of (take 20 (drop (20 * q) ?B))) [0..<pi]"
    using s2(2) by (auto simp: holds_def e)
  have lB: "length ?B = 7 * (length cs + 1)" using lT by simp
  then have pi: "pi = 7 * (length cs + 1) div 20" using h(1,2) by simp
  define P where "P = take (n + 1) (concat (replicate 3 (char_bits 4)))"
  have lP: "length P = n + 1" using h(1) by (simp add: P_def numeral_eq_Suc)
  have last: "alpha_pad acc (int n) = word_of (drop (20 * pi) ?B @ P)"
    unfolding h(3) P_def using h(1,2) by (intro alpha_pad_word) auto
  let ?ws = "packed'[pi := alpha_pad acc (int n)]"
  have pl: "pi < length packed'" using pi room s2(3) by (simp add: e)
  have "take (pi + 1) ?ws = map (\<lambda>q. word_of (take 20 (drop (20 * q) (?B @ P)))) [0..<pi + 1]"
  proof -
    have "map (\<lambda>q. word_of (take 20 (drop (20 * q) ?B))) [0..<pi]
        = map (\<lambda>q. word_of (take 20 (drop (20 * q) (?B @ P)))) [0..<pi]"
      by (rule map_cong) (use h(2) in auto)
    moreover have "take 20 (drop (20 * pi) (?B @ P)) = drop (20 * pi) ?B @ P" using h(1,2) lP by simp
    ultimately show ?thesis using pl h(4) last by (simp add: take_Suc_conv_app_nth)
  qed
  then have "map (payload \<circ> message_word) (take (pi + 1) ?ws)
      = map (\<lambda>q. take 20 (drop (20 * q) (?B @ P))) [0..<pi + 1]"
    using h(1,2) lP by (auto intro!: payload_message_word)
  moreover have "concat (map (\<lambda>q. take 20 (drop (20 * q) xs)) [0..<k]) = take (20 * k) xs" for k and xs :: "bool list"
  proof (induction k)
    case (Suc k)
    have "20 * Suc k = 20 * k + 20" by simp
    then show ?case using Suc take_add [of "20 * k" 20 xs] by (simp del: mult_Suc_right)
  qed simp
  ultimately have "concat (map (payload \<circ> message_word) (take (pi + 1) ?ws)) = take (20 * (pi + 1)) (?B @ P)"
    by (simp only:)
  moreover have "length (?B @ P) = 20 * (pi + 1)" using h(1,2) lP by simp
  ultimately have "concat (map (payload \<circ> message_word) (take (pi + 1) ?ws)) = ?B @ P"
    by (simp only: take_all order_refl)
  then show ?thesis
    using s1(1) s2(1) pl pi e by (intro exI [of _ "pi + 1"] exI [of _ ?ws] exI [of _ P]) (simp add: pack_pogsag_string_def)
qed

lemma address_word_Some:
  assumes "0 \<le> t" and "t \<le> 3"
  shows "\<exists>w. address_word ric t = Some w"
proof -
  have "t = 0 \<or> t = 1 \<or> t = 2 \<or> t = 3" using assms by arith
  then show ?thesis by (auto simp: address_word_def Let_def)
qed

text \<open>C7. An alphanumeric page is read back: for a text of characters of seven bits without a zero and an EOT,
  with room for it in \<^verbatim>\<open>packed\<close> and enough memory, the batches carry exactly the text, whatever lies in the eighth
  bits, behind the string and in the uninitialised array.\<close>

theorem pocsag_alpha_roundtrip:
  assumes "\<forall>c\<in>set cs. c \<noteq> 0 \<and> c AND 0x7F \<noteq> 4" and "7 * (length cs + 1) div 20 < length packed"
    and "0 \<le> toneno" and "toneno \<le> 3" and "a = unat (ric AND 7)"
    and "batches_for a (7 * (length cs + 1) div 20 + 1) \<le> mem"
  shows "\<exists>bs. make_pocsag_batch mem packed ric (cs @ 0 # rest) sz ALPHA toneno = Inr bs
    \<and> read_alpha (message_bits a bs) = map (\<lambda>c. c AND 0x7F) cs"
proof -
  obtain w where w: "address_word ric toneno = Some w"
    using address_word_Some [OF assms(3,4)] by blast
  obtain n packed' pad where p: "pack_pogsag_string packed (cs @ 0 # rest) sz ALPHA = Inr (n, packed')"
    "n = 7 * (length cs + 1) div 20 + 1" "n \<le> length packed'"
    "concat (map (payload \<circ> message_word) (take n packed')) = concat (map char_bits cs) @ char_bits 4 @ pad"
    using alpha_pack [of cs packed rest sz] assms(1,2) by auto
  obtain bs r where bs: "make_pocsag_batch mem packed ric (cs @ 0 # rest) sz ALPHA toneno = Inr bs"
    "slots bs = replicate (2 * a) IDLE @ do_parity_stuff w # map message_word (take n packed') @ replicate r IDLE"
    using page_layout [OF w _ p(1,3) assms(5), of mem] assms(6) p(2) by auto
  with message_bits_page [OF bs(2)] p(4) read_alpha_chars assms(1) show ?thesis by simp
qed

theorem pocsag_alpha_roundtrip_witness:
  "\<exists>bs. make_pocsag_batch 1 (replicate 100 0) 1234 ([0x48, 0x69] @ 0 # []) 2 ALPHA 3 = Inr bs
    \<and> read_alpha (message_bits 2 bs) = map (\<lambda>c. c AND 0x7F) [0x48, 0x69]"
proof -
  have "2 = unat (1234 AND 7 :: 32 word)" by code_simp
  then show ?thesis
    by (intro pocsag_alpha_roundtrip) (simp_all add: batches_for_def del: One_nat_def)
qed

section \<open>Texts that are too long\<close>

lemma alpha_bits_cases:
  "holds s B \<Longrightarrow> alpha_bits bs s = Inl OutOfBounds
     \<or> (\<exists>s'. alpha_bits bs s = Inr s' \<and> holds s' (B @ bs) \<and> room s' = room s)"
proof (induction bs arbitrary: s B)
  case (Cons b bs)
  from alpha_bit_cases [OF Cons.prems, of b] show ?case using Cons.IH by fastforce
qed auto

lemma alpha_chars_cases:
  "holds s B \<Longrightarrow> \<forall>c\<in>set cs. c \<noteq> 0 \<Longrightarrow> alpha_chars (cs @ 0 # rest) s = Inl OutOfBounds
     \<or> (\<exists>s'. alpha_chars (cs @ 0 # rest) s = Inr s' \<and> holds s' (B @ concat (map char_bits cs)) \<and> room s' = room s)"
proof (induction cs arbitrary: s B)
  case (Cons c cs)
  from alpha_bits_cases [OF Cons.prems(1), of "char_bits c"] show ?case using Cons by fastforce
qed auto

text \<open>C18. The array of packed words is not protected: a text whose bits, with the EOT, reach the size of the
  array is packed past its end. With the hundred words of \<^verbatim>\<open>make_pocsag_batch\<close> this is a text of 285
  characters or more.\<close>

theorem pocsag_long_text_overruns:
  assumes "\<forall>c\<in>set cs. c \<noteq> 0" and "length packed \<le> 7 * (length cs + 1) div 20"
    and "0 < mem" and "0 \<le> toneno" and "toneno \<le> 3"
  shows "make_pocsag_batch mem packed ric (cs @ 0 # rest) sz ALPHA toneno = Inl OutOfBounds"
proof -
  have lT: "length (concat (map char_bits cs)) = 7 * length cs" by (induction cs) auto
  have h0: "holds (packed, 0, 0, 19) []" by (simp add: holds_def)
  have "pack_pogsag_string packed (cs @ 0 # rest) sz ALPHA = Inl OutOfBounds"
  proof (cases "alpha_chars (cs @ 0 # rest) (packed, 0, 0, 19) = Inl OutOfBounds")
    case True
    then show ?thesis by (simp add: pack_pogsag_string_def)
  next
    case False
    then obtain s1 where s1: "alpha_chars (cs @ 0 # rest) (packed, 0, 0, 19) = Inr s1"
      "holds s1 (concat (map char_bits cs))" "room s1 = length packed"
      using alpha_chars_cases [OF h0 assms(1), of rest] by auto
    show ?thesis
    proof (cases "alpha_bits (char_bits 4) s1 = Inl OutOfBounds")
      case True
      then show ?thesis using s1 by (simp add: pack_pogsag_string_def)
    next
      case False
      then obtain packed' pi acc n where s2: "alpha_bits (char_bits 4) s1 = Inr (packed', pi, acc, n)"
        "holds (packed', pi, acc, n) (concat (map char_bits cs) @ char_bits 4)" "length packed' = length packed"
        using alpha_bits_cases [OF s1(2), of "char_bits 4"] s1(3) by auto
      then have "n \<le> 19" "7 * (length cs + 1) = 20 * pi + (19 - n)" using lT by (auto simp: holds_def)
      then have "\<not> pi < length packed'" using assms(2) s2(3) by simp
      then show ?thesis using s1(1) s2(1) by (simp add: pack_pogsag_string_def)
    qed
  qed
  then show ?thesis
    using address_word_Some [OF assms(4,5), of ric] assms(3) by (auto simp: make_pocsag_batch_def Let_def)
qed

theorem pocsag_long_text_overruns_witness:
  "make_pocsag_batch 9 (replicate 100 0) 8 (replicate 285 0x41 @ 0 # []) 285 ALPHA 0 = Inl OutOfBounds"
  by (rule pocsag_long_text_overruns) simp_all

section \<open>Numbers\<close>

definition low_bits :: "nat \<Rightarrow> 32 word \<Rightarrow> bool list" where
  "low_bits k w = map (\<lambda>i. bit w (k - 1 - i)) [0..<k]"

text \<open>The bits of a digit, lowest first; behind the number it is the space, digit 12.\<close>

definition digit_at :: "byte list \<Rightarrow> nat \<Rightarrow> nat \<Rightarrow> nat" where
  "digit_at str sz idx = (if idx < sz then digit_of (str ! idx) else 12)"

definition digit_bits :: "nat \<Rightarrow> bool list" where
  "digit_bits d = map (bit d) [0..<4]"

lemma rev_digit_table:
  "list_all (\<lambda>d. rev_digit d < 16 \<and> list_all (\<lambda>i. bit (rev_digit d) (3 - i) = bit d i) [0..<4]) [0..<16]"
  by code_simp

lemma digit_of_less: "digit_of c < 16"
proof -
  have "length (takeWhile (\<lambda>d. d \<noteq> c) nstr) \<le> length nstr" by (rule length_takeWhile_le)
  moreover have "length nstr = 16" by (simp add: nstr_def)
  ultimately show ?thesis by (auto simp: digit_of_def Let_def)
qed

lemma low_bits_step:
  assumes "d < 16" and "k \<le> 28"
  shows "low_bits (k + 4) (push_bit 4 w + of_nat (rev_digit d)) = low_bits k w @ digit_bits d"
proof -
  have d: "rev_digit d < 16" "\<And>i. i < 4 \<Longrightarrow> bit (rev_digit d) (3 - i) = bit d i"
    using rev_digit_table assms(1) by (auto simp: list_all_iff)
  have hi: "\<not> bit (rev_digit d) i" if "4 \<le> i" for i
  proof -
    have "rev_digit d < 2 ^ i" using d(1) power_increasing [OF that, of "2 :: nat"] by simp
    then show ?thesis by (simp add: bit_iff_odd)
  qed
  have b: "bit (of_nat (rev_digit d) :: 32 word) i \<longleftrightarrow> i < 32 \<and> bit (rev_digit d) i" for i
    by (simp add: bit_of_nat_iff)
  have "push_bit 4 w AND of_nat (rev_digit d) = 0"
    by (rule bit_word_eqI) (use hi in \<open>auto simp: bit_and_iff bit_push_bit_iff b\<close>)
  then have "push_bit 4 w + of_nat (rev_digit d) = push_bit 4 w OR of_nat (rev_digit d)"
    by (rule disjunctive_add_eq_or)
  then have n: "bit (push_bit 4 w + of_nat (rev_digit d)) i
      \<longleftrightarrow> (if i < 4 then bit (rev_digit d) i else bit w (i - 4))" if "i < 32" for i
    using hi [of i] that by (auto simp: bit_or_iff bit_push_bit_iff b)
  show ?thesis
  proof (rule nth_equalityI)
    fix i assume i: "i < length (low_bits (k + 4) (push_bit 4 w + of_nat (rev_digit d)))"
    show "low_bits (k + 4) (push_bit 4 w + of_nat (rev_digit d)) ! i = (low_bits k w @ digit_bits d) ! i"
    proof (cases "i < k")
      case True
      then have "\<not> k + 4 - 1 - i < 4" "k + 4 - 1 - i - 4 = k - 1 - i" by arith+
      with True show ?thesis
        using assms(2) n [of "k + 4 - 1 - i"] by (simp add: low_bits_def digit_bits_def nth_append del: upt_Suc)
    next
      case False
      then have e: "k + 4 - 1 - i = 3 - (i - k)" "i - k < 4" "k + 4 - 1 - i < 4" using i by (auto simp: low_bits_def)
      have "low_bits (k + 4) (push_bit 4 w + of_nat (rev_digit d)) ! i = bit d (i - k)"
        using i n [of "k + 4 - 1 - i"] d(2) [OF e(2)] e by (simp add: low_bits_def del: upt_Suc)
      then show ?thesis using False e(2) by (simp add: low_bits_def digit_bits_def nth_append del: upt_Suc)
    qed
  qed (simp add: low_bits_def digit_bits_def)
qed

lemma pack_digits_bits:
  assumes "pack_digits str sz n idx pi packed = Inr packed'" and "pi = idx div 5"
    and "(idx + n) mod 5 = 0" and "(idx + n) div 5 \<le> length packed"
    and "concat (map (low_bits 20) (take pi packed)) @ low_bits (4 * (idx mod 5)) (packed ! pi)
      = concat (map (\<lambda>i. digit_bits (digit_at str sz i)) [0..<idx])"
  shows "length packed' = length packed \<and> concat (map (low_bits 20) (take ((idx + n) div 5) packed'))
    = concat (map (\<lambda>i. digit_bits (digit_at str sz i)) [0..<idx + n])"
  using assms
proof (induction str sz n idx pi packed rule: pack_digits.induct)
  case (1 str sz idx pi packed)
  then show ?case by (simp add: low_bits_def)
next
  case (2 str sz n idx pi packed)
  let ?d = "digit_at str sz idx"
  define v where "v = push_bit 4 (packed ! pi) + of_nat (rev_digit ?d)"
  have ok: "\<not> (length str \<le> idx \<or> length packed \<le> pi)" using "2.prems"(1) by (auto split: if_splits)
  have "rev_digit 12 = 3" by code_simp
  then have v: "push_bit 4 (packed ! pi) + (if idx < sz then of_nat (rev_digit (digit_of (str ! idx))) else 3) = v"
    by (auto simp: v_def digit_at_def)
  have lt: "?d < 16" using digit_of_less by (auto simp: digit_at_def)
  have r: "idx mod 5 < 5" by simp
  have step: "low_bits (4 * (idx mod 5) + 4) v = low_bits (4 * (idx mod 5)) (packed ! pi) @ digit_bits ?d"
    unfolding v_def by (rule low_bits_step [OF lt]) (use r in linarith)
  let ?pi = "if (idx + 1) mod 5 \<noteq> 0 then pi else pi + 1"
  have pi': "?pi = (idx + 1) div 5" using "2.prems"(2) by (simp add: div_Suc)
  have call: "pack_digits str sz n (idx + 1) ?pi (packed[pi := v]) = Inr packed'"
    using "2.prems"(1) ok v by (simp add: Let_def)
  have content: "concat (map (low_bits 20) (take ?pi (packed[pi := v]))) @ low_bits (4 * ((idx + 1) mod 5)) (packed[pi := v] ! ?pi)
      = concat (map (\<lambda>i. digit_bits (digit_at str sz i)) [0..<idx + 1])"
  proof (cases "(idx + 1) mod 5 = 0")
    case True
    then have "idx mod 5 = 4" by presburger
    moreover have "low_bits 20 v = low_bits (4 * (idx mod 5)) (packed ! pi) @ digit_bits ?d"
      using step \<open>idx mod 5 = 4\<close> by simp
    moreover have "take (pi + 1) (packed[pi := v]) = take pi packed @ [v]" using ok by (simp add: take_Suc_conv_app_nth)
    ultimately show ?thesis using True "2.prems"(5) by (simp add: low_bits_def [of 0] flip: append_assoc)
  next
    case False
    then have "(idx + 1) mod 5 = idx mod 5 + 1" by presburger
    moreover have "low_bits (4 * (idx mod 5 + 1)) v = low_bits (4 * (idx mod 5)) (packed ! pi) @ digit_bits ?d"
      using step by (simp add: add.commute)
    moreover have "take pi (packed[pi := v]) = take pi packed" "packed[pi := v] ! pi = v" using ok by simp_all
    ultimately show ?thesis using False "2.prems"(5) by (simp flip: append_assoc)
  qed
  have IH: "length packed' = length (packed[pi := v]) \<and> concat (map (low_bits 20) (take ((idx + 1 + n) div 5) packed'))
      = concat (map (\<lambda>i. digit_bits (digit_at str sz i)) [0..<idx + 1 + n])"
    using "2.IH" [OF ok refl _ refl, of v] v call pi' content "2.prems"(3,4) by simp
  then show ?case by simp
qed

lemma pack_digits_ok:
  "idx + n \<le> length str \<Longrightarrow> pi = idx div 5 \<Longrightarrow> (idx + n) mod 5 = 0 \<Longrightarrow>
   (idx + n) div 5 \<le> length packed \<Longrightarrow> \<exists>packed'. pack_digits str sz n idx pi packed = Inr packed'"
proof (induction n arbitrary: idx pi packed)
  case (Suc n)
  have "idx div 5 < (idx + Suc n) div 5" using Suc.prems(3) by presburger
  then have ok: "\<not> (length str \<le> idx \<or> length packed \<le> pi)" using Suc.prems by simp
  have "(if (idx + 1) mod 5 \<noteq> 0 then pi else pi + 1) = (idx + 1) div 5" using Suc.prems(2) by (simp add: div_Suc)
  with Suc.IH [of "idx + 1" "(idx + 1) div 5"] Suc.prems ok show ?case by (auto simp: Let_def)
qed auto

lemma payload_low_bits: "payload (message_word w) = low_bits 20 w"
  by (rule nth_equalityI) (auto simp: payload_def low_bits_def bit_message_word simp del: upt_rec_numeral)

definition digit_val :: "bool list \<Rightarrow> nat" where
  "digit_val bs = (if bs ! 0 then 1 else 0) + (if bs ! 1 then 2 else 0) + (if bs ! 2 then 4 else 0) + (if bs ! 3 then 8 else 0)"

fun read_digits :: "bool list \<Rightarrow> byte list" where
  "read_digits (a # b # c # d # bs) = nstr ! digit_val [a, b, c, d] # read_digits bs"
| "read_digits _ = []"

lemma digit_val_table: "list_all (\<lambda>d. digit_val (digit_bits d) = d) [0..<16]"
  by code_simp

lemma read_digit_bits: "d < 16 \<Longrightarrow> read_digits (digit_bits d @ bs) = nstr ! d # read_digits bs"
proof -
  assume "d < 16"
  then have v: "digit_val (digit_bits d) = d" using digit_val_table by (auto simp: list_all_iff)
  have "digit_bits d = [bit d 0, bit d 1, bit d 2, bit d 3]" by (simp add: digit_bits_def numeral_eq_Suc)
  then show ?thesis using v by simp
qed

lemma read_all_digits: "\<forall>d\<in>set ds. d < 16 \<Longrightarrow> read_digits (concat (map digit_bits ds)) = map (\<lambda>d. nstr ! d) ds"
  by (induction ds) (simp_all add: read_digit_bits)

lemma nstr_digit_of: "nstr ! digit_of c = (if c \<in> set nstr then c else 0x20)"
proof (cases "c \<in> set nstr")
  case True
  then have "takeWhile (\<lambda>d. d \<noteq> c) nstr \<noteq> nstr" by (auto simp: takeWhile_eq_all_conv)
  moreover have "nstr = takeWhile (\<lambda>d. d \<noteq> c) nstr @ dropWhile (\<lambda>d. d \<noteq> c) nstr" by simp
  ultimately have "length (takeWhile (\<lambda>d. d \<noteq> c) nstr) < length nstr"
    by (metis append_eq_conv_conj le_neq_implies_less length_takeWhile_le take_all order_refl)
  then show ?thesis
    using True nth_length_takeWhile [of "\<lambda>d. d \<noteq> c" nstr] by (auto simp: digit_of_def Let_def)
next
  case False
  then have "takeWhile (\<lambda>d. d \<noteq> c) nstr = nstr" by (auto simp: takeWhile_eq_all_conv)
  then show ?thesis using False by (simp add: digit_of_def Let_def) (simp add: nstr_def)
qed

text \<open>C15. A numeric page is read back: each character of the number that the pager can show comes out as it
  went in and every other one as a space, and spaces fill the last word; nothing of the uninitialised
  array of packed words gets out. (The code reads the string up to the next multiple of five
  characters, so the array behind it has to reach that far.)\<close>

theorem pocsag_numeric_roundtrip:
  assumes m: "m = (if sz mod 5 = 0 then sz else (sz div 5 + 1) * 5)"
    and "m \<le> length str" and "m div 5 \<le> length packed"
    and "0 \<le> toneno" and "toneno \<le> 3" and "a = unat (ric AND 7)" and "batches_for a (m div 5) \<le> mem"
  shows "\<exists>bs. make_pocsag_batch mem packed ric str sz NUMERIC toneno = Inr bs
    \<and> read_digits (message_bits a bs)
      = map (\<lambda>c. if c \<in> set nstr then c else 0x20) (take sz str) @ replicate (m - sz) 0x20"
proof -
  obtain w where w: "address_word ric toneno = Some w" using address_word_Some [OF assms(4,5)] by blast
  have "sz \<le> (sz div 5 + 1) * 5" by presburger
  then have m5: "m mod 5 = 0" "sz \<le> m" using m by (simp_all split: if_splits)
  obtain packed' where p: "pack_digits str sz m 0 0 packed = Inr packed'"
    using pack_digits_ok [of 0 m str 0 packed sz] assms(2,3) m5 by auto
  let ?ds = "map (digit_at str sz) [0..<m]"
  have bits: "length packed' = length packed \<and> concat (map (low_bits 20) (take (m div 5) packed')) = concat (map digit_bits ?ds)"
    using pack_digits_bits [OF p] assms(3) m5 by (simp add: low_bits_def comp_def)
  have pack: "pack_pogsag_string packed str sz NUMERIC = Inr (m div 5, packed')"
    using p by (simp add: pack_pogsag_string_def m Let_def)
  obtain bs r where bs: "make_pocsag_batch mem packed ric str sz NUMERIC toneno = Inr bs"
    "slots bs = replicate (2 * a) IDLE @ do_parity_stuff w # map message_word (take (m div 5) packed') @ replicate r IDLE"
    using page_layout [OF w _ pack _ assms(6), of mem] bits assms(3,7) by auto
  have lt: "\<forall>d\<in>set ?ds. d < 16" using digit_of_less by (auto simp: digit_at_def)
  have "message_bits a bs = concat (map (low_bits 20) (take (m div 5) packed'))"
    using message_bits_page [OF bs(2)] by (simp add: comp_def payload_low_bits)
  then have "read_digits (message_bits a bs) = map (\<lambda>d. nstr ! d) ?ds"
    using bits read_all_digits [OF lt] by simp
  also have "\<dots> = map (\<lambda>c. if c \<in> set nstr then c else 0x20) (take sz str) @ replicate (m - sz) 0x20"
  proof (rule nth_equalityI)
    fix i assume i: "i < length (map (\<lambda>d. nstr ! d) ?ds)"
    have "nstr ! 12 = 0x20" by (simp add: nstr_def)
    with i m5(2) assms(2) show "map (\<lambda>d. nstr ! d) ?ds ! i
        = (map (\<lambda>c. if c \<in> set nstr then c else 0x20) (take sz str) @ replicate (m - sz) 0x20) ! i"
      by (simp add: nth_append digit_at_def nstr_digit_of)
  qed (use m5(2) assms(2) in simp)
  finally show ?thesis using bs(1) by blast
qed

theorem pocsag_numeric_roundtrip_witness:
  "\<exists>bs. make_pocsag_batch 1 (replicate 100 7) 8 [0x35, 0x2D, 0x61, 0, 0] 3 NUMERIC 0 = Inr bs
    \<and> read_digits (message_bits 0 bs) = [0x35, 0x2D, 0x20, 0x20, 0x20]"
proof -
  have "0 = unat (8 AND 7 :: 32 word)" by code_simp
  then have "\<exists>bs. make_pocsag_batch 1 (replicate 100 7) 8 [0x35, 0x2D, 0x61, 0, 0] 3 NUMERIC 0 = Inr bs
    \<and> read_digits (message_bits 0 bs)
      = map (\<lambda>c. if c \<in> set nstr then c else 0x20) (take 3 [0x35, 0x2D, 0x61, 0, 0]) @ replicate (5 - 3) 0x20"
    by (intro pocsag_numeric_roundtrip) (simp_all add: batches_for_def del: One_nat_def)
  moreover have "map (\<lambda>c. if c \<in> set nstr then c else 0x20) (take 3 [0x35, 0x2D, 0x61, 0, 0]) @ replicate (5 - 3) 0x20
      = [0x35, 0x2D, 0x20, 0x20, 0x20]" by code_simp
  ultimately show ?thesis by simp
qed

end
