(* ===== verification/CText.thy ===== *)
theory CText
  imports Prelude
begin

text \<open>
  Strings and numbers as C handles them, for the components that build or read texts: printing with
  the conversions d and 0wd, the library functions atoi, strchr and strncpy, and the facts that
  relate printing and reading. A string of C is the list of the characters in front of its zero.
\<close>

section \<open>Outcomes\<close>

text \<open>
  A function ends with a value or with behaviour the C standard leaves undefined: a division by
  zero, an index outside an array, an overflow.
\<close>

datatype outcome = Ret int | Undefined

section \<open>Characters\<close>

definition lower :: "char \<Rightarrow> char" where
  "lower c = (if of_char c \<ge> (65 :: nat) \<and> of_char c \<le> (90 :: nat) then char_of (of_char c + 32 :: nat) else c)"

definition is_digit :: "char \<Rightarrow> bool" where
  "is_digit c \<longleftrightarrow> 48 \<le> (of_char c :: nat) \<and> (of_char c :: nat) \<le> 57"

definition digit_val :: "char \<Rightarrow> int" where
  "digit_val c = int (of_char c) - 48"

definition is_space :: "char \<Rightarrow> bool" where
  "is_space c \<longleftrightarrow> c = CHR '' '' \<or> (9 \<le> (of_char c :: nat) \<and> (of_char c :: nat) \<le> 13)"

section \<open>Printing\<close>

definition digit_char :: "int \<Rightarrow> char" where
  "digit_char d = char_of (nat (48 + d))"

function decimal_nat :: "int \<Rightarrow> string" where
  "decimal_nat n = (if n < 10 then [digit_char n] else decimal_nat (n div 10) @ [digit_char (n mod 10)])"
  by pat_completeness auto
termination by (relation "measure nat") auto

declare decimal_nat.simps [simp del]

definition decimal :: "int \<Rightarrow> string" where
  "decimal n = (if n < 0 then CHR ''-'' # decimal_nat (- n) else decimal_nat n)"

text \<open>The conversion 0wd: zeros between the sign and the digits.\<close>

definition zeros :: "nat \<Rightarrow> string" where
  "zeros n = replicate n CHR ''0''"

definition padded :: "nat \<Rightarrow> int \<Rightarrow> string" where
  "padded w n =
    (if n < 0 then CHR ''-'' # zeros (w - 1 - length (decimal_nat (- n))) @ decimal_nat (- n)
     else zeros (w - length (decimal_nat n)) @ decimal_nat n)"

section \<open>Reading\<close>

fun digits_value :: "int \<Rightarrow> string \<Rightarrow> int" where
  "digits_value n [] = n"
| "digits_value n (c # cs) = (if is_digit c then digits_value (10 * n + digit_val c) cs else n)"

text \<open>The C standard leaves the value undefined that does not fit an int; here it is the number itself.\<close>

definition atoi :: "string \<Rightarrow> int" where
  "atoi str = (case dropWhile is_space str of
     [] \<Rightarrow> 0
   | c # cs \<Rightarrow>
      if c = CHR ''-'' then - digits_value 0 cs
      else if c = CHR ''+'' then digits_value 0 cs
      else digits_value 0 (c # cs))"

text \<open>\<open>strchr\<close> as the programs use it: the string in front of the first occurrence and what follows it.\<close>

fun split_at :: "char \<Rightarrow> string \<Rightarrow> (string \<times> string) option" where
  "split_at c [] = None"
| "split_at c (d # ds) =
    (if d = c then Some ([], ds) else map_option (\<lambda>(u, v). (d # u, v)) (split_at c ds))"

text \<open>What \<open>strncpy\<close> leaves of a string in an array of \<open>room\<close> characters whose last one is zero.\<close>

definition fit :: "nat \<Rightarrow> string \<Rightarrow> string" where
  "fit room str = take (room - 1) str"

section \<open>Reading what was printed\<close>

lemma split_at_Some: "split_at c s = Some (u, v) \<Longrightarrow> s = u @ c # v \<and> c \<notin> set u"
  by (induction s arbitrary: u) (auto split: if_splits)

lemma split_at_append: "c \<notin> set u \<Longrightarrow> split_at c (u @ c # v) = Some (u, v)"
  by (induction u) auto

lemma split_at_None: "split_at c s = None \<longleftrightarrow> c \<notin> set s"
  by (induction s) auto

lemma is_digit_digit_char [simp]: "0 \<le> d \<Longrightarrow> d < 10 \<Longrightarrow> is_digit (digit_char d)"
  by (auto simp: is_digit_def digit_char_def)

lemma digit_val_digit_char [simp]: "0 \<le> d \<Longrightarrow> d < 10 \<Longrightarrow> digit_val (digit_char d) = d"
  by (auto simp: digit_val_def digit_char_def)

lemma digit_val_range: "is_digit c \<Longrightarrow> 0 \<le> digit_val c \<and> digit_val c < 10"
  by (auto simp: is_digit_def digit_val_def)

lemma is_digit_special [simp]:
  "\<not> is_digit CHR ''.''" "\<not> is_digit CHR ''-''" "\<not> is_digit CHR ''+''" "\<not> is_digit CHR ''*''" "\<not> is_digit CHR '' ''"
  "is_digit CHR ''0''" "digit_val CHR ''0'' = 0"
  by (simp_all add: is_digit_def digit_val_def)

lemma is_digit_not_space: "is_digit c \<Longrightarrow> \<not> is_space c"
  by (auto simp: is_digit_def is_space_def)

lemma digits_value_append:
  "list_all is_digit u \<Longrightarrow> digits_value n (u @ v) = digits_value (digits_value n u) v"
  by (induction u arbitrary: n) auto

lemma digits_value_stop: "cs = [] \<or> \<not> is_digit (hd cs) \<Longrightarrow> digits_value n cs = n"
  by (cases cs) auto

lemma digits_value_zeros [simp]: "digits_value 0 (zeros k) = 0"
  by (induction k) (simp_all add: zeros_def)

lemma digits_zeros [simp]: "list_all is_digit (zeros k)"
  by (simp add: zeros_def list_all_iff)

lemma length_zeros [simp]: "length (zeros k) = k"
  by (simp add: zeros_def)

lemma digits_decimal_nat [simp]: "0 \<le> n \<Longrightarrow> list_all is_digit (decimal_nat n)"
proof (induction n rule: decimal_nat.induct)
  case (1 n)
  then show ?case by (subst decimal_nat.simps) auto
qed

lemma decimal_nat_nonempty [simp]: "decimal_nat n \<noteq> []"
  by (subst decimal_nat.simps) simp

lemma digits_value_decimal_nat [simp]: "0 \<le> n \<Longrightarrow> digits_value 0 (decimal_nat n) = n"
proof (induction n rule: decimal_nat.induct)
  case (1 n)
  show ?case
  proof (cases "n < 10")
    case True
    then show ?thesis using 1 by (subst decimal_nat.simps) simp
  next
    case False
    then show ?thesis using 1 by (subst decimal_nat.simps) (simp add: digits_value_append)
  qed
qed

lemma length_decimal_nat: "0 \<le> n \<Longrightarrow> n < 10 ^ k \<Longrightarrow> length (decimal_nat n) \<le> max 1 k"
proof (induction k arbitrary: n)
  case 0
  then show ?case by (subst decimal_nat.simps) simp
next
  case (Suc k)
  have "length (decimal_nat (n div 10)) \<le> max 1 k" if "\<not> n < 10"
    using Suc that by (intro Suc.IH) auto
  moreover have "k \<noteq> 0" if "\<not> n < 10" using Suc.prems that by (cases k) auto
  ultimately show ?case by (subst decimal_nat.simps) auto
qed

lemma atoi_digits: "list_all is_digit u \<Longrightarrow> u \<noteq> [] \<Longrightarrow> atoi (u @ v) = digits_value 0 (u @ v)"
  by (cases u) (auto simp: atoi_def is_digit_not_space)

lemma atoi_padded [simp]: "0 \<le> n \<Longrightarrow> atoi (padded w n) = n"
  using atoi_digits [of "padded w n" "[]"] by (simp add: padded_def digits_value_append)

lemma digits_padded [simp]: "0 \<le> n \<Longrightarrow> list_all is_digit (padded w n)"
  by (simp add: padded_def)

lemma length_padded: "0 \<le> n \<Longrightarrow> n < 10 ^ w \<Longrightarrow> 0 < w \<Longrightarrow> length (padded w n) = w"
  using length_decimal_nat [of n w] by (simp add: padded_def)

lemma atoi_decimal [simp]: "atoi (decimal n) = n"
proof (cases "n < 0")
  case True
  then show ?thesis by (simp add: decimal_def atoi_def is_space_def)
next
  case False
  then show ?thesis using atoi_digits [of "decimal_nat n" "[]"] by (simp add: decimal_def)
qed

lemma not_in_digits: "list_all is_digit u \<Longrightarrow> \<not> is_digit c \<Longrightarrow> c \<notin> set u"
  by (auto simp: list_all_iff)

end
