(* ===== verification/Say.thy ===== *)
theory Say
  imports CText
begin

text \<open>
  The common part of the functions of main/say.c that say a number, a digit string or a text:
  each of them plays a sequence of sound files and stops at the first one the caller interrupts
  with a key. The control flow of these functions depends on the channel only by that stop, so
  each is modelled by its speech: the files it plays when nobody interrupts it and the value it
  returns then. \<open>play\<close> turns a speech into what happens on a channel whose files may be
  missing and whose caller may press keys; streaming a file and waiting for its end belong to the
  rest of the server and are the parameters of \<open>play\<close>.
\<close>

section \<open>Sound files\<close>

text \<open>
  A file of the directory digits: a number, printed in decimal, with a suffix; a word; or a power
  of ten with a prefix, as in 5_E6. A file of another directory is named in full. A file played
  by \<open>wait_file\<close> is required: the speech fails when it is missing, where the others are
  left out.
\<close>

datatype sound = Number int string | Word string | Power string int | File string | Required string

fun filename :: "sound \<Rightarrow> string" where
  "filename (Number n suffix) = ''digits/'' @ decimal n @ suffix"
| "filename (Word w) = ''digits/'' @ w"
| "filename (Power p e) = ''digits/'' @ p @ ''_E'' @ decimal e"
| "filename (File f) = f"
| "filename (Required f) = f"

fun required :: "sound \<Rightarrow> bool" where
  "required (Required f) = True"
| "required _ = False"

section \<open>Speeches\<close>

type_synonym speech = "sound list \<times> outcome"

abbreviation silence :: speech where
  "silence \<equiv> ([], Ret 0)"

abbreviation too_big :: speech where
  "too_big \<equiv> ([], Ret (-1))"

abbreviation undefined_behaviour :: speech where
  "undefined_behaviour \<equiv> ([], Undefined)"

definition say1 :: "sound \<Rightarrow> speech \<Rightarrow> speech" where
  "say1 f s = (f # fst s, snd s)"

text \<open>A call whose result is returned at once when it is not zero.\<close>

definition after :: "speech \<Rightarrow> speech \<Rightarrow> speech" where
  "after r s = (if snd r = Ret 0 then (fst r @ fst s, snd s) else r)"

definition INT_MIN :: int where "INT_MIN = -(2 ^ 31)"
definition INT_MAX :: int where "INT_MAX = 2 ^ 31 - 1"

lemma int_range: "INT_MIN \<le> sint (n :: 32 word)" "sint (n :: 32 word) \<le> INT_MAX"
  using sint_range_size [of n] by (simp_all add: INT_MIN_def INT_MAX_def word_size)

text \<open>The entry of every number function: zero is said as a digit string.\<close>

definition from_zero :: "int \<Rightarrow> speech \<Rightarrow> speech" where
  "from_zero n s = (if n = 0 then say1 (Number 0 '''') silence else s)"

text \<open>What follows the file minus.\<close>

definition negated :: "int \<Rightarrow> int" where
  "negated n = (if INT_MIN < n then - n else 0)"

text \<open>The loops stop: the weight of the number left, with one for each flag, falls.\<close>

definition weight :: "int \<Rightarrow> nat" where
  "weight n = nat (4 * \<bar>n\<bar> + (if n < 0 then 3 else 0))"

lemma weight_negated: "n < 0 \<Longrightarrow> weight (negated n) < weight n"
  by (auto simp: weight_def negated_def)

lemma weight_smaller:
  "0 \<le> m \<Longrightarrow> m < n \<Longrightarrow> weight m < weight n"
  "0 \<le> m \<Longrightarrow> m < n \<Longrightarrow> weight m < Suc (weight n)"
  "0 \<le> m \<Longrightarrow> m < n \<Longrightarrow> Suc (weight m) < weight n"
  "0 \<le> m \<Longrightarrow> m < n \<Longrightarrow> Suc (Suc (weight m)) < weight n"
  by (auto simp: weight_def)

lemma weight_minus: "0 \<le> m \<Longrightarrow> m + 1 < n \<Longrightarrow> weight (- m) < weight n"
  by (auto simp: weight_def)

lemma weight_minus_one: "n < 0 \<Longrightarrow> weight (- n) < weight n" "n < 0 \<Longrightarrow> weight (- n) < Suc (weight n)"
  by (auto simp: weight_def)

lemma weight_0: "weight 0 = 0" "0 < weight n \<longleftrightarrow> n \<noteq> 0"
  by (auto simp: weight_def)

lemmas weight_simps = weight_negated weight_smaller

text \<open>\<open>strncasecmp(options, "c", 1)\<close> on options that may be absent.\<close>

fun option_is :: "char \<Rightarrow> string option \<Rightarrow> bool" where
  "option_is c (Some (d # _)) = (lower d = c)"
| "option_is c _ = False"

lemma say1_simps [simp]: "fst (say1 f s) = f # fst s" "snd (say1 f s) = snd s"
  by (simp_all add: say1_def)

lemma after_simps [simp]:
  "snd r = Ret 0 \<Longrightarrow> fst (after r s) = fst r @ fst s"
  "snd r = Ret 0 \<Longrightarrow> snd (after r s) = snd s"
  by (simp_all add: after_def)

lemma from_zero_simps [simp]:
  "n \<noteq> 0 \<Longrightarrow> from_zero n s = s"
  "from_zero 0 s = say1 (Number 0 '''') silence"
  by (simp_all add: from_zero_def)

section \<open>Playing a speech\<close>

text \<open>
  \<open>present\<close> says whether a file can be streamed, and \<open>wait\<close> what waiting for its end
  returns, 0 or the key or error that ends the speech; it may depend on what was played before.
\<close>

fun play :: "(string \<Rightarrow> bool) \<Rightarrow> (string list \<Rightarrow> string \<Rightarrow> int) \<Rightarrow> string list \<Rightarrow> sound list \<Rightarrow> outcome \<Rightarrow> string list \<times> outcome" where
  "play present wait heard [] r = (heard, r)"
| "play present wait heard (f # fs) r =
    (if present (filename f)
     then let k = wait heard (filename f); heard' = heard @ [filename f]
          in if k = 0 then play present wait heard' fs r else (heard', Ret k)
     else if required f then (heard, Ret (-1))
     else play present wait heard fs r)"

section \<open>What a listener understands\<close>

text \<open>
  The words of a number add to the total or scale its last group, where a scale with nothing
  before it stands for one of it, as cento and mille do.
\<close>

datatype meaning = Add int | Scale int | Minus | Pause

fun hear_word :: "meaning \<Rightarrow> int \<Rightarrow> int" where
  "hear_word (Add n) t = t + n"
| "hear_word (Scale k) t = t div k * k + (if t mod k = 0 then k else t mod k * k)"
| "hear_word Minus t = t"
| "hear_word Pause t = t"

abbreviation hear_words :: "meaning list \<Rightarrow> int \<Rightarrow> int" where
  "hear_words \<equiv> fold hear_word"

text \<open>
  A word that begins with digits, as the Polish 100m and 1000.5 or the Georgian 20_, has the value
  of these digits, as a scale from a thousand on; the words of a power of ten are its forms.
\<close>

definition digit_value :: "char \<Rightarrow> int option" where
  "digit_value c = map_of
    [(CHR ''0'', 0), (CHR ''1'', 1), (CHR ''2'', 2), (CHR ''3'', 3), (CHR ''4'', 4),
     (CHR ''5'', 5), (CHR ''6'', 6), (CHR ''7'', 7), (CHR ''8'', 8), (CHR ''9'', 9)] c"

declare digit_value_def [simp]

definition number_word :: "int \<Rightarrow> meaning" where
  "number_word n = (if n < 1000 then Add n else Scale n)"

declare number_word_def [simp]

fun leading_digits :: "int \<Rightarrow> string \<Rightarrow> int" where
  "leading_digits n [] = n"
| "leading_digits n (c # cs) = (case digit_value c of None \<Rightarrow> n | Some d \<Rightarrow> leading_digits (10 * n + d) cs)"

fun numeral_sense :: "string \<Rightarrow> meaning option" where
  "numeral_sense [] = Some Pause"
| "numeral_sense (c # cs) = (case digit_value c of
     None \<Rightarrow> None
   | Some d \<Rightarrow> Some (number_word (leading_digits d cs)))"

fun sense :: "sound \<Rightarrow> meaning option" where
  "sense (Number n suffix) =
    (if suffix \<in> {'''', ''F'', ''M'', ''N'', ''E'', ''-and'', ''m'', ''w'', ''n'', ''f''} then Some (Add n)
     else if suffix = ''00'' then Some (Add (n * 100))
     else if suffix = ''k'' then Some (if n = 1 then Scale 1000 else Add (n * 1000))
     else None)"
| "sense (Word w) = (case map_of
    [(''minus'', Minus), (''and'', Pause), (''et'', Pause), (''nl-en'', Pause),
     (''hundred'', Scale 100), (''thousand'', Scale 1000), (''thousands'', Scale 1000),
     (''million'', Scale 1000000), (''millions'', Scale 1000000),
     (''milliard'', Scale 1000000000), (''milliards'', Scale 1000000000),
     (''thousands-i'', Scale 1000), (''million-a'', Scale 1000000),
     (''sta'', Scale 100), (''set'', Scale 100), (''1sto'', Add 100), (''2ste'', Add 200),
     (''ve'', Pause), (''uu'', Pause), (''twomillion'', Add 2000000),
     (''wan'', Scale 10000), (''yi'', Scale 100000000),
     (''xilia'', Scale 1000), (''hundred-100'', Add 100), (''hundred-200'', Add 200),
     (''hundred-300'', Add 300), (''hundred-400'', Add 400), (''hundred-500'', Add 500),
     (''hundred-600'', Add 600), (''hundred-700'', Add 700), (''hundred-800'', Add 800),
     (''hundred-900'', Add 900)] w of
     Some m \<Rightarrow> Some m
   | None \<Rightarrow> numeral_sense w)"
| "sense (Power p e) = (if p \<in> {''1'', ''2-4'', ''5''} \<and> 0 \<le> e then Some (Scale (10 ^ nat e)) else None)"
| "sense (File _) = None"
| "sense (Required f) = map_of [(''digits/pt-e'', Pause), (''digits/0'', Add 0)] f"

definition meanings :: "sound list \<Rightarrow> meaning list option" where
  "meanings fs = those (map sense fs)"

definition understood :: "sound list \<Rightarrow> int option" where
  "understood fs = (case meanings fs of
     None \<Rightarrow> None
   | Some (Minus # ms) \<Rightarrow> Some (- hear_words ms 0)
   | Some ms \<Rightarrow> Some (hear_words ms 0))"

text \<open>
  What is expected of a number function that knows the numbers below a limit, for every value of
  a C int: the listener understands the number and the function returns 0; larger numbers are
  refused, after the sign, with -1. The least int has no positive counterpart; only its sign is
  said.
\<close>

definition spoken_ok :: "int \<Rightarrow> int \<Rightarrow> speech \<Rightarrow> bool" where
  "spoken_ok limit n s =
    (if n = INT_MIN then s = ([Word ''minus''], Ret 0)
     else if \<bar>n\<bar> < limit then snd s = Ret 0 \<and> understood (fst s) = Some n
     else s = (if n < 0 then [Word ''minus''] else [], Ret (-1)))"

section \<open>Speeches that say a number\<close>

text \<open>
  \<open>says k n s\<close>: \<open>s\<close> ends normally and adds \<open>n\<close> to whatever multiple of
  \<open>k\<close> was said before it. The rules below put speeches together the way the loops do.
\<close>

definition says :: "int \<Rightarrow> int \<Rightarrow> speech \<Rightarrow> bool" where
  "says k n s \<longleftrightarrow> snd s = Ret 0 \<and>
    (\<exists>ms. meanings (fst s) = Some ms \<and> Minus \<notin> set ms \<and> (\<forall>t. t mod k = 0 \<longrightarrow> hear_words ms t = t + n))"

lemma meanings_Nil [simp]: "meanings [] = Some []"
  by (simp add: meanings_def)

lemma meanings_Cons [simp]:
  "meanings (f # fs) = (case sense f of None \<Rightarrow> None | Some m \<Rightarrow> map_option ((#) m) (meanings fs))"
  by (simp add: meanings_def split: option.split)

lemma meanings_append:
  "meanings fs = Some ms \<Longrightarrow> meanings gs = Some ns \<Longrightarrow> meanings (fs @ gs) = Some (ms @ ns)"
  by (induction fs arbitrary: ms) (auto split: option.splits)

lemma after_say1 [simp]: "after (say1 f s) r = say1 f (after s r)"
  by (simp add: after_def say1_def)

lemma after_silence [simp]: "after silence r = r"
  by (simp add: after_def)

lemma says_silence [simp]: "says k 0 silence"
  by (simp add: says_def)

lemma says_ret: "says k n s \<Longrightarrow> snd s = Ret 0"
  by (simp add: says_def)

lemma says_mono: "says k n s \<Longrightarrow> k dvd l \<Longrightarrow> says l n s"
  by (auto simp: says_def dvd_eq_mod_eq_0 [symmetric] intro: dvd_trans)

lemma says_after:
  assumes s: "says k a s" and r: "says l b r" and "l dvd k" "l dvd a"
  shows "says k (a + b) (after s r)"
proof -
  from s obtain ms where ms: "snd s = Ret 0" "meanings (fst s) = Some ms" "Minus \<notin> set ms"
    "\<forall>t. k dvd t \<longrightarrow> hear_words ms t = t + a"
    by (auto simp: says_def dvd_eq_mod_eq_0)
  from r obtain ns where ns: "snd r = Ret 0" "meanings (fst r) = Some ns" "Minus \<notin> set ns"
    "\<forall>t. l dvd t \<longrightarrow> hear_words ns t = t + b"
    by (auto simp: says_def dvd_eq_mod_eq_0)
  have "hear_words (ms @ ns) t = t + (a + b)" if "k dvd t" for t
  proof -
    have "l dvd t + a" using that assms(3,4) dvd_trans by (metis dvd_add)
    then show ?thesis using ms(4) ns(4) that by simp
  qed
  then show ?thesis using ms ns
    by (auto simp: says_def after_def meanings_append dvd_eq_mod_eq_0)
qed

lemma says_add: "sense f = Some (Add c) \<Longrightarrow> says 1 b s \<Longrightarrow> says 1 (c + b) (say1 f s)"
  using says_after [of 1 c "say1 f silence" 1 b s] by (simp add: says_def)

lemma says_pause: "sense f = Some Pause \<Longrightarrow> says k b s \<Longrightarrow> says k b (say1 f s)"
  using says_after [of k 0 "say1 f silence" k b s] by (simp add: says_def)

lemma says_one_scale:
  assumes f: "sense f = Some (Scale k)" and r: "says l b r" and "l dvd k"
  shows "says k (k + b) (say1 f r)"
proof -
  have "says k k (say1 f silence)"
    using f by (auto simp: says_def dvd_eq_mod_eq_0 [symmetric])
  from says_after [OF this r \<open>l dvd k\<close> \<open>l dvd k\<close>] show ?thesis by simp
qed

lemma hear_scale: "k dvd t \<Longrightarrow> 0 < a \<Longrightarrow> a < k \<Longrightarrow> hear_word (Scale k) (t + a) = t + a * k"
proof -
  assume "k dvd t" "0 < a" "a < k"
  then obtain q where "t = k * q" by (auto elim: dvdE)
  moreover have "(k * q + a) div k = q" "(k * q + a) mod k = a"
    using \<open>0 < a\<close> \<open>a < k\<close> by simp_all
  ultimately show ?thesis using \<open>0 < a\<close> by simp
qed

lemma says_scale:
  assumes s: "says l a s" and f: "sense f = Some (Scale k)" and r: "says m b r"
    and "l dvd k" "m dvd k" "0 < a" "a < k"
  shows "says k (a * k + b) (after s (say1 f r))"
proof -
  from s obtain ms where ms: "snd s = Ret 0" "meanings (fst s) = Some ms" "Minus \<notin> set ms"
    "\<forall>t. l dvd t \<longrightarrow> hear_words ms t = t + a"
    by (auto simp: says_def dvd_eq_mod_eq_0)
  have "hear_words (ms @ [Scale k]) t = t + a * k" if "k dvd t" for t
    using ms(4) hear_scale [OF that \<open>0 < a\<close> \<open>a < k\<close>] dvd_trans [OF \<open>l dvd k\<close> that] by simp
  moreover have "meanings (fst s @ [f]) = Some (ms @ [Scale k])"
    using ms(2) f by (intro meanings_append) auto
  ultimately have "says k (a * k) (after s (say1 f silence))"
    using ms by (auto simp: says_def dvd_eq_mod_eq_0 [symmetric] after_def)
  moreover have "after (after s (say1 f silence)) r = after s (say1 f r)"
    using ms(1) by (simp add: after_def say1_def)
  moreover have "m dvd a * k" using \<open>m dvd k\<close> by simp
  ultimately show ?thesis using says_after [OF _ r \<open>m dvd k\<close>] by metis
qed

lemma says_understood: "says k n s \<Longrightarrow> snd s = Ret 0 \<and> understood (fst s) = Some n"
proof -
  assume "says k n s"
  then obtain ms where ms: "snd s = Ret 0" "meanings (fst s) = Some ms" "Minus \<notin> set ms"
    "hear_words ms 0 = 0 + n"
    by (auto simp: says_def dest!: spec [of _ 0])
  then show ?thesis by (auto simp: understood_def split: list.split meaning.split simp del: hear_word.simps)
qed

lemma says_minus_understood:
  "says k n s \<Longrightarrow> snd (say1 (Word ''minus'') s) = Ret 0
    \<and> understood (fst (say1 (Word ''minus'') s)) = Some (- n)"
  by (auto simp: says_def understood_def)

text \<open>Hundreds, thousands and millions, as most languages say them.\<close>

lemma div_less_square: "n < k * k \<Longrightarrow> 0 < k \<Longrightarrow> n div k < (k :: int)"
proof (rule ccontr)
  assume "n < k * k" "0 < k" "\<not> n div k < k"
  then have "k * k \<le> n div k * k" by (intro mult_right_mono) simp_all
  also have "\<dots> \<le> n" by (metis \<open>0 < k\<close> div_mult_mod_eq le_add_same_cancel1 pos_mod_sign)
  finally show False using \<open>n < k * k\<close> by simp
qed

lemma says_groups:
  assumes "says l (n div k) s" "sense f = Some (Scale k)" "says m (n mod k) r"
    and "l dvd k" "m dvd k" "k \<le> n" "n < k * k" "0 < k"
  shows "says k n (after s (say1 f r))"
proof -
  have "0 < n div k" using assms(6,8) by (simp add: pos_imp_zdiv_pos_iff)
  from says_scale [OF assms(1,2,3,4,5) this div_less_square [OF assms(7,8)]] show ?thesis by simp
qed

lemma says_Number [simp]: "says 1 n (say1 (Number n '''') silence)"
  by (simp add: says_def)

text \<open>An executable test of the speeches without scales.\<close>

fun plain :: "int \<Rightarrow> sound list \<Rightarrow> int option" where
  "plain t [] = Some t"
| "plain t (f # fs) = (case sense f of
     Some (Add n) \<Rightarrow> plain (t + n) fs
   | Some Pause \<Rightarrow> plain t fs
   | _ \<Rightarrow> None)"

definition plainly :: "(int \<Rightarrow> speech) \<Rightarrow> int \<Rightarrow> bool" where
  "plainly f n = (case f n of (s, r) \<Rightarrow> r = Ret 0 \<and> plain 0 s = Some n)"

lemma plain_hear:
  "plain t fs = Some n \<Longrightarrow> \<exists>ms. meanings fs = Some ms \<and> Minus \<notin> set ms \<and> (\<forall>u. hear_words ms (u + t) = u + n)"
proof (induction fs arbitrary: t)
  case (Cons f fs)
  then show ?case
    by (fastforce split: option.splits meaning.splits simp: add.assoc)
qed simp

lemma plainly_says: "plainly f n \<Longrightarrow> says 1 n (f n)"
  using plain_hear [of 0 "fst (f n)" n] by (auto simp: plainly_def says_def split: prod.splits)

lemma all_plainly_says: "list_all (plainly f) [i..j] \<Longrightarrow> i \<le> n \<Longrightarrow> n \<le> j \<Longrightarrow> says 1 n (f n)"
  by (auto simp: list_all_iff intro: plainly_says)

section \<open>The contract of the number functions\<close>

text \<open>
  A number function says zero as a digit, a negative number as minus and its positive
  counterpart, the numbers below its limit so that they are understood, and refuses the others.
\<close>

locale number_speaker =
  fixes say :: "int \<Rightarrow> speech" and limit :: int
  assumes zero: "say 0 = say1 (Number 0 '''') silence"
    and negative: "INT_MIN < n \<Longrightarrow> n < 0 \<Longrightarrow> say n = say1 (Word ''minus'') (say (- n))"
    and positive: "0 < n \<Longrightarrow> n < limit \<Longrightarrow> \<exists>k. says k n (say n)"
    and large: "limit \<le> n \<Longrightarrow> n \<le> INT_MAX \<Longrightarrow> 0 < n \<Longrightarrow> say n = too_big"
begin

lemma spoken:
  assumes "INT_MIN < n" "n \<le> INT_MAX" "0 < limit"
  shows "spoken_ok limit n (say n)"
proof -
  consider "n = 0" | "0 < n" | "INT_MIN < n" "n < 0"
    using assms(1) by linarith
  then show ?thesis
  proof cases
    case 1 then show ?thesis
      using assms(3) by (simp add: spoken_ok_def zero understood_def INT_MIN_def)
  next
    case 2
    show ?thesis
    proof (cases "n < limit")
      case True
      with 2 positive [of n] have "snd (say n) = Ret 0 \<and> understood (fst (say n)) = Some n"
        using says_understood by blast
      with 2 True show ?thesis by (simp add: spoken_ok_def INT_MIN_def)
    next
      case False
      with 2 assms(2) large [of n] show ?thesis by (simp add: spoken_ok_def INT_MIN_def)
    qed
  next
    case 3
    then have say: "say n = say1 (Word ''minus'') (say (- n))" using negative [of n] by simp
    have "- n \<le> INT_MAX" using 3 by (simp add: INT_MIN_def INT_MAX_def)
    show ?thesis
    proof (cases "- n < limit")
      case True
      with 3 positive [of "- n"] obtain k where "says k (- n) (say (- n))" by auto
      from says_minus_understood [OF this] have "snd (say n) = Ret 0 \<and> understood (fst (say n)) = Some n"
        by (simp add: say del: say1_simps)
      with 3 True show ?thesis by (simp add: spoken_ok_def)
    next
      case False
      with 3 \<open>- n \<le> INT_MAX\<close> large [of "- n"] have "say (- n) = too_big" by simp
      with 3 False show ?thesis by (simp add: spoken_ok_def say say1_def)
    qed
  qed
qed

end

text \<open>Most functions also guard against the int that has no negation.\<close>

locale complete_speaker = number_speaker +
  assumes least: "say INT_MIN = say1 (Word ''minus'') silence"
begin

lemma spoken_all:
  assumes "INT_MIN \<le> n" "n \<le> INT_MAX" "0 < limit"
  shows "spoken_ok limit n (say n)"
proof (cases "n = INT_MIN")
  case True
  then show ?thesis by (simp add: spoken_ok_def least say1_def)
qed (use assms spoken [of n] in simp)

end

text \<open>
  The functions are loops behind the test for zero; their laws are laws of the loop.
\<close>

locale number_loop =
  fixes loop :: "int \<Rightarrow> speech" and limit :: int
  assumes loop_zero: "loop 0 = silence"
    and loop_negative: "n < 0 \<Longrightarrow> loop n = say1 (Word ''minus'') (loop (negated n))"
    and loop_positive: "0 < n \<Longrightarrow> n < limit \<Longrightarrow> \<exists>k. says k n (loop n)"
    and loop_large: "limit \<le> n \<Longrightarrow> n \<le> INT_MAX \<Longrightarrow> 0 < n \<Longrightarrow> loop n = too_big"

sublocale number_loop \<subseteq> complete_speaker "\<lambda>n. from_zero n (loop n)" limit
  by unfold_locales
     (simp_all add: loop_zero loop_negative loop_positive loop_large negated_def INT_MIN_def)

text \<open>One group of three digits, or of two, in front of a scale.\<close>

lemma says_hundreds:
  "says 1 (n mod 100) r \<Longrightarrow> sense g = Some (Add (n div 100)) \<Longrightarrow> 100 \<le> n \<Longrightarrow> n < 10000 \<Longrightarrow>
    says 100 n (say1 g (say1 (Word ''hundred'') r))"
  using says_groups [of 1 n 100 "say1 g silence" "Word ''hundred''" 1 r]
  by (simp add: says_def)

lemma says_thousands:
  "says 100 (n div 1000) s \<Longrightarrow> says 100 (n mod 1000) r \<Longrightarrow> sense f = Some (Scale 1000) \<Longrightarrow>
    1000 \<le> n \<Longrightarrow> n < 1000000 \<Longrightarrow> says 1000 n (after s (say1 f r))"
  using says_groups [of 100 n 1000 s f 100 r] by simp

lemma says_millions:
  "says 1000 (n div 1000000) s \<Longrightarrow> says 1000 (n mod 1000000) r \<Longrightarrow> sense f = Some (Scale 1000000) \<Longrightarrow>
    1000000 \<le> n \<Longrightarrow> n < 1000000000000 \<Longrightarrow> says 1000000 n (after s (say1 f r))"
  using says_groups [of 1000 n 1000000 s f 1000 r] by simp

lemma says_one_thousand:
  "says 100 (n mod 1000) r \<Longrightarrow> sense f = Some (Scale 1000) \<Longrightarrow> n div 1000 = 1 \<Longrightarrow>
    says 1000 n (say1 f r)"
  using says_one_scale [of f 1000 100 "n mod 1000" r] div_mult_mod_eq [of n 1000] by simp

lemma says_unit_scale:
  assumes "sense g = Some (Add 1)" "sense f = Some (Scale k)" "says l (n mod k) r"
    and "l dvd k" "n div k = 1" "1 < k"
  shows "says k n (say1 g (say1 f r))"
proof -
  have "says 1 1 (say1 g silence)" using assms(1) by (simp add: says_def)
  from says_scale [OF this assms(2,3) _ assms(4)] assms(5,6) show ?thesis
    using div_mult_mod_eq [of n k] by simp
qed

lemma says_milliards:
  "says 1 (n div 1000000000) s \<Longrightarrow> says 1000000 (n mod 1000000000) r \<Longrightarrow>
    sense f = Some (Scale 1000000000) \<Longrightarrow> 1000000000 \<le> n \<Longrightarrow> n \<le> INT_MAX \<Longrightarrow>
    says 1000000000 n (after s (say1 f r))"
  using says_groups [of 1 n 1000000000 s f 1000000 r] by (simp add: INT_MAX_def)

lemma says_wider:
  "says 1 n s \<Longrightarrow> says 100 n s" "says 100 n s \<Longrightarrow> says 1000 n s" "says 1000 n s \<Longrightarrow> says 1000000 n s"
  by (auto intro: says_mono)

end
