(* ===== verification/SayGermanic.thy ===== *)
theory SayGermanic
  imports Say
begin

text \<open>
  The number functions of main/say.c for English (American and British), Norwegian, Danish,
  Swedish, Dutch and German. The loop of each function is a recursive function of its loop state,
  the flags \<open>playh\<close> (say hundred next), \<open>playa\<close> (say and next), \<open>t\<close> and the
  number left; the gender is a parameter of the loop. The branches that divide are reached with
  positive numbers only, where the division of C and \<open>div\<close> agree.
\<close>

section \<open>English\<close>

function en_loop :: "bool \<Rightarrow> int \<Rightarrow> speech" where
  "en_loop playh num =
    (if num = 0 \<and> \<not> playh then silence
     else if num < 0 then say1 (Word ''minus'') (en_loop playh (negated num))
     else if playh then say1 (Word ''hundred'') (en_loop False num)
     else if num < 20 then say1 (Number num '''') (en_loop False 0)
     else if num < 100 then
       say1 (Number (num div 10 * 10) '''') (en_loop False (num - num div 10 * 10))
     else if num < 1000 then
       say1 (Number (num div 100) '''') (en_loop True (num - num div 100 * 100))
     else if num < 1000000 then
       after (from_zero (num div 1000) (en_loop False (num div 1000)))
         (say1 (Word ''thousand'') (en_loop False (num mod 1000)))
     else if num < 1000000000 then
       after (from_zero (num div 1000000) (en_loop False (num div 1000000)))
         (say1 (Word ''million'') (en_loop False (num mod 1000000)))
     else too_big)"
  by pat_completeness auto
termination by (relation "measure (\<lambda>(p, n). weight n + of_bool p)") (auto simp: weight_simps)

definition ast_say_number_full_en :: "int \<Rightarrow> speech" where
  "ast_say_number_full_en num = from_zero num (en_loop False num)"

section \<open>British English\<close>

function gb_loop :: "bool \<Rightarrow> bool \<Rightarrow> int \<Rightarrow> speech" where
  "gb_loop playh playa num =
    (if num = 0 \<and> \<not> playh \<and> \<not> playa then silence
     else if num < 0 then say1 (Word ''minus'') (gb_loop playh playa (negated num))
     else if playh then say1 (Word ''hundred'') (gb_loop False playa num)
     else if playa then say1 (Word ''and'') (gb_loop False False num)
     else if num < 20 then say1 (Number num '''') (gb_loop False False 0)
     else if num < 100 then
       say1 (Number (num div 10 * 10) '''') (gb_loop False False (num - num div 10 * 10))
     else if num < 1000 then
       (let hundreds = num div 100; num' = num - 100 * hundreds
        in say1 (Number (num div 100) '''') (gb_loop True (num' \<noteq> 0) num'))
     else if num < 1000000 then
       (let num' = num mod 1000
        in after (from_zero (num div 1000) (gb_loop False False (num div 1000)))
             (say1 (Word ''thousand'') (gb_loop False (num' \<noteq> 0 \<and> num' < 100) num')))
     else if num < 1000000000 then
       (let millions = num div 1000000; num' = num mod 1000000
        in after (from_zero millions (gb_loop False False millions))
             (say1 (Word ''million'') (gb_loop False (num' \<noteq> 0 \<and> num' < 100) num')))
     else too_big)"
  by pat_completeness auto
termination
  by (relation "measure (\<lambda>(p, a, n). weight n + of_bool p + of_bool a)") (auto simp: weight_simps)

definition ast_say_number_full_en_GB :: "int \<Rightarrow> speech" where
  "ast_say_number_full_en_GB num = from_zero num (gb_loop False False num)"

section \<open>Norwegian\<close>

function no_loop :: "bool \<Rightarrow> bool \<Rightarrow> bool \<Rightarrow> int \<Rightarrow> speech" where
  "no_loop neuter playh playa num =
    (if num = 0 \<and> \<not> playh \<and> \<not> playa then silence
     else if num < 0 then say1 (Word ''minus'') (no_loop neuter playh playa (negated num))
     else if playh then say1 (Word ''hundred'') (no_loop neuter False playa num)
     else if playa then say1 (Word ''and'') (no_loop neuter False False num)
     else if num = 1 \<and> neuter then say1 (Number 1 ''N'') (no_loop neuter False False 0)
     else if num < 20 then say1 (Number num '''') (no_loop neuter False False 0)
     else if num < 100 then
       say1 (Number (num div 10 * 10) '''') (no_loop neuter False False (num - num div 10 * 10))
     else if num < 1000 then
       (let hundreds = num div 100; num' = num - 100 * hundreds
        in say1 (if hundreds = 1 then Number 1 ''N'' else Number (num div 100) '''')
             (no_loop neuter True (num' \<noteq> 0) num'))
     else if num < 1000000 then
       (let num' = num mod 1000
        in after (from_zero (num div 1000) (no_loop True False False (num div 1000)))
             (say1 (Word ''thousand'') (no_loop neuter False (num' \<noteq> 0 \<and> num' < 100) num')))
     else if num < 1000000000 then
       (let millions = num div 1000000; num' = num mod 1000000
        in after (from_zero millions (no_loop False False False millions))
             (say1 (Word ''million'') (no_loop neuter False (num' \<noteq> 0 \<and> num' < 100) num')))
     else too_big)"
  by pat_completeness auto
termination
  by (relation "measure (\<lambda>(g, p, a, n). weight n + of_bool p + of_bool a)") (auto simp: weight_simps)

definition ast_say_number_full_no :: "string option \<Rightarrow> int \<Rightarrow> speech" where
  "ast_say_number_full_no options num =
     from_zero num (no_loop (option_is CHR ''n'' options) False False num)"

section \<open>Danish\<close>

function da_loop :: "bool \<Rightarrow> bool \<Rightarrow> bool \<Rightarrow> int \<Rightarrow> speech" where
  "da_loop neuter playh playa num =
    (if num = 0 \<and> \<not> playh \<and> \<not> playa then silence
     else if num < 0 then say1 (Word ''minus'') (da_loop neuter playh playa (negated num))
     else if playh then say1 (Word ''hundred'') (da_loop neuter False playa num)
     else if playa then say1 (Word ''and'') (da_loop neuter False False num)
     else if num = 1 \<and> neuter then say1 (Number 1 ''N'') (da_loop neuter False False 0)
     else if num < 20 then say1 (Number num '''') (da_loop neuter False False 0)
     else if num < 100 then
       (let ones = num mod 10
        in if ones \<noteq> 0 then say1 (Number ones ''-and'') (da_loop neuter False False (num - ones))
           else say1 (Number num '''') (da_loop neuter False False 0))
     else if num < 1000 then
       (let hundreds = num div 100; num' = num - 100 * hundreds
        in say1 (if hundreds = 1 then Number 1 ''N'' else Number (num div 100) '''')
             (da_loop neuter True (num' \<noteq> 0) num'))
     else if num < 1000000 then
       (let num' = num mod 1000
        in after (from_zero (num div 1000) (da_loop True False False (num div 1000)))
             (say1 (Word ''thousand'') (da_loop neuter False (num' \<noteq> 0 \<and> num' < 100) num')))
     else if num < 1000000000 then
       (let millions = num div 1000000; num' = num mod 1000000
        in after (from_zero millions (da_loop False False False millions))
             (say1 (if millions = 1 then Word ''million'' else Word ''millions'')
               (da_loop neuter False (num' \<noteq> 0 \<and> num' < 100) num')))
     else too_big)"
  by pat_completeness auto
termination
  by (relation "measure (\<lambda>(g, p, a, n). weight n + of_bool p + of_bool a)") (auto simp: weight_simps)

definition ast_say_number_full_da :: "string option \<Rightarrow> int \<Rightarrow> speech" where
  "ast_say_number_full_da options num =
     from_zero num (da_loop (option_is CHR ''n'' options) False False num)"

section \<open>Swedish\<close>

text \<open>The test for a neuter one stands behind the numbers below 20 and is never reached.\<close>

function se_loop :: "bool \<Rightarrow> bool \<Rightarrow> int \<Rightarrow> speech" where
  "se_loop neuter playh num =
    (if num = 0 \<and> \<not> playh then silence
     else if num < 0 then say1 (Word ''minus'') (se_loop neuter playh (negated num))
     else if playh then say1 (Word ''hundred'') (se_loop neuter False num)
     else if num < 20 then say1 (Number num '''') (se_loop neuter False 0)
     else if num < 100 then
       say1 (Number (num div 10 * 10) '''') (se_loop neuter False (num - num div 10 * 10))
     else if num = 1 \<and> neuter then say1 (Number 1 ''N'') (se_loop neuter False 0)
     else if num < 1000 then
       say1 (Number (num div 100) '''') (se_loop neuter True (num - num div 100 * 100))
     else if num < 1000000 then
       after (from_zero (num div 1000) (se_loop neuter False (num div 1000)))
         (say1 (Word ''thousand'') (se_loop neuter False (num mod 1000)))
     else if num < 1000000000 then
       after (from_zero (num div 1000000) (se_loop neuter False (num div 1000000)))
         (say1 (Word ''million'') (se_loop neuter False (num mod 1000000)))
     else too_big)"
  by pat_completeness auto
termination
  by (relation "measure (\<lambda>(g, p, n). weight n + of_bool p)") (auto simp: weight_simps)

definition ast_say_number_full_se :: "string option \<Rightarrow> int \<Rightarrow> speech" where
  "ast_say_number_full_se options num =
     from_zero num (se_loop (option_is CHR ''n'' options) False num)"

section \<open>Dutch\<close>

function nl_loop :: "bool \<Rightarrow> int \<Rightarrow> speech" where
  "nl_loop playh num =
    (if num = 0 \<and> \<not> playh then silence
     else if num < 0 then say1 (Word ''minus'') (nl_loop playh (negated num))
     else if playh then say1 (Word ''hundred'') (nl_loop False num)
     else if num < 20 then say1 (Number num '''') (nl_loop False 0)
     else if num < 100 then
       (let units = num mod 10
        in if units > 0
           then after (from_zero units (nl_loop False units))
                  (say1 (Word ''nl-en'') (nl_loop False (num - units)))
           else say1 (Number (num - units) '''') (nl_loop False 0))
     else if num < 200 then
       say1 (Word ''hundred'') (nl_loop False (num - num div 100 * 100))
     else if num < 1000 then
       say1 (Number (num div 100) '''') (nl_loop True (num - num div 100 * 100))
     else if num < 1100 then
       say1 (Word ''thousand'') (nl_loop False (num mod 1000))
     else if num < 10000 then
       after (from_zero (num div 100) (nl_loop False (num div 100)))
         (say1 (Word ''hundred'') (nl_loop False (num mod 100)))
     else if num < 1000000 then
       after (from_zero (num div 1000) (nl_loop False (num div 1000)))
         (say1 (Word ''thousand'') (nl_loop False (num mod 1000)))
     else if num < 1000000000 then
       after (from_zero (num div 1000000) (nl_loop False (num div 1000000)))
         (say1 (Word ''million'') (nl_loop False (num mod 1000000)))
     else too_big)"
  by pat_completeness auto
termination
  by (relation "measure (\<lambda>(p, n). weight n + of_bool p)") (auto simp: weight_simps)

definition ast_say_number_full_nl :: "int \<Rightarrow> speech" where
  "ast_say_number_full_nl num = from_zero num (nl_loop False num)"

section \<open>German\<close>

text \<open>
  In one turn of the loop up to two files are played, \<open>fn\<close> and then \<open>fna\<close>.
\<close>

function de_loop :: "bool \<Rightarrow> bool \<Rightarrow> int \<Rightarrow> speech" where
  "de_loop female t num =
    (if num = 0 then silence
     else if num < 0 then say1 (Word ''minus'') (de_loop female t (negated num))
     else if num < 100 \<and> t then say1 (Word ''and'') (de_loop female False num)
     else if num = 1 \<and> female then say1 (Number num ''F'') (de_loop female t 0)
     else if num < 20 then say1 (Number num '''') (de_loop female t 0)
     else if num < 100 then
       (let ones = num mod 10
        in if ones \<noteq> 0 then say1 (Number ones ''-and'') (de_loop female t (num - ones))
           else say1 (Number num '''') (de_loop female t 0))
     else if num = 100 \<and> \<not> t then say1 (Word ''hundred'') (de_loop female t 0)
     else if num < 1000 then
       (let hundreds = num div 100; num' = num mod 100
        in say1 (if hundreds = 1 then Number 1 ''N'' else Number hundreds '''')
             (say1 (Word ''hundred'') (de_loop female True num')))
     else if num = 1000 \<and> \<not> t then say1 (Word ''thousand'') (de_loop female t 0)
     else if num < 1000000 then
       (let thousands = num div 1000; num' = num mod 1000
        in if thousands = 1
           then say1 (Number 1 ''N'') (say1 (Word ''thousand'') (de_loop female True num'))
           else after (from_zero thousands (de_loop female False thousands))
                  (say1 (Word ''thousand'') (de_loop female True num')))
     else if num < 1000000000 then
       (let millions = num div 1000000; num' = num mod 1000000
        in if millions = 1
           then say1 (Number 1 ''F'') (say1 (Word ''million'') (de_loop female True num'))
           else after (from_zero millions (de_loop female False millions))
                  (say1 (Word ''millions'') (de_loop female True num')))
     else if num \<le> INT_MAX then
       (let billions = num div 1000000000; num' = num mod 1000000000
        in if billions = 1
           then say1 (Number 1 ''F'') (say1 (Word ''milliard'') (de_loop female True num'))
           else after (from_zero billions (de_loop female False billions))
                  (say1 (Word ''milliards'') (de_loop female True num')))
     else too_big)"
  by pat_completeness auto
termination
  by (relation "measure (\<lambda>(g, t, n). weight n + of_bool t)") (auto simp: weight_simps)

definition ast_say_number_full_de :: "string option \<Rightarrow> int \<Rightarrow> speech" where
  "ast_say_number_full_de options num =
     from_zero num (de_loop (option_is CHR ''f'' options) False num)"

lemmas loop_unfold =
  en_loop.simps gb_loop.simps no_loop.simps da_loop.simps se_loop.simps nl_loop.simps de_loop.simps

declare loop_unfold [simp del]

end
