(* ===== verification/SayGermanicProps.thy ===== *)
theory SayGermanicProps
  imports SayGermanic
begin

text \<open>
  What the listener understands of the numbers in English, Norwegian, Danish, Swedish, Dutch and
  German: for each language the numbers below a hundred by evaluation, then the hundreds, thousands
  and millions by the composition rules of the theory Say, and the interpretation of
  \<open>number_loop\<close> on the loop of the function.
\<close>

section \<open>English\<close>

lemma en_tens: "list_all (plainly (en_loop False)) [1..99]"
  by code_simp

lemma en_flags [simp]:
  "en_loop False 0 = silence"
  "0 \<le> n \<Longrightarrow> en_loop True n = say1 (Word ''hundred'') (en_loop False n)"
  by (simp_all add: en_loop.simps [of False 0] en_loop.simps [of True])

lemma en_small: "0 \<le> n \<Longrightarrow> n < 100 \<Longrightarrow> says 1 n (en_loop False n)"
  using all_plainly_says [OF en_tens] by (cases "n = 0") simp_all

lemma en_hundreds: "0 \<le> n \<Longrightarrow> n < 1000 \<Longrightarrow> says 100 n (en_loop False n)"
  by (cases "n < 100", simp add: en_small says_wider, subst en_loop.simps)
     (simp add: en_small says_hundreds minus_div_mult_eq_mod)

lemma en_thousands: "0 \<le> n \<Longrightarrow> n < 1000000 \<Longrightarrow> says 1000 n (en_loop False n)"
  by (cases "n < 1000", simp add: en_hundreds says_wider, subst en_loop.simps)
     (simp add: en_hundreds says_thousands)

lemma en_millions: "0 \<le> n \<Longrightarrow> n < 1000000000 \<Longrightarrow> says 1000000 n (en_loop False n)"
  by (cases "n < 1000000", simp add: en_thousands says_wider, subst en_loop.simps)
     (simp add: en_thousands says_millions)

interpretation en: number_loop "en_loop False" 1000000000
proof
  show "\<exists>k. says k n (en_loop False n)" if "0 < n" "n < 1000000000" for n
    using en_millions [of n] that by auto
qed (simp_all add: en_loop.simps [of False])

lemma gb_tens: "list_all (plainly (gb_loop False False)) [1..99]"
  by code_simp

lemma gb_flags [simp]:
  "gb_loop False False 0 = silence"
  "0 \<le> n \<Longrightarrow> gb_loop True a n = say1 (Word ''hundred'') (gb_loop False a n)"
  "0 \<le> n \<Longrightarrow> gb_loop False True n = say1 (Word ''and'') (gb_loop False False n)"
  by (simp_all add: gb_loop.simps [of False False 0] gb_loop.simps [of True] gb_loop.simps [of False True])

lemma gb_and: "0 \<le> n \<Longrightarrow> says k n (gb_loop False False n) \<Longrightarrow> says k n (gb_loop False a n)"
  by (cases a) (simp_all add: says_pause)

lemma gb_small: "0 \<le> n \<Longrightarrow> n < 100 \<Longrightarrow> says 1 n (gb_loop False a n)"
  using all_plainly_says [OF gb_tens] by - (rule gb_and, simp, cases "n = 0", simp_all)

lemma gb_hundreds: "0 \<le> n \<Longrightarrow> n < 1000 \<Longrightarrow> says 100 n (gb_loop False a n)"
  by (rule gb_and, simp, cases "n < 100", simp add: gb_small says_wider, subst gb_loop.simps)
     (simp add: gb_small says_hundreds Let_def minus_mult_div_eq_mod)

lemma gb_thousands: "0 \<le> n \<Longrightarrow> n < 1000000 \<Longrightarrow> says 1000 n (gb_loop False a n)"
  by (rule gb_and, simp, cases "n < 1000", simp add: gb_hundreds says_wider, subst gb_loop.simps)
     (simp add: gb_hundreds says_thousands Let_def)

lemma gb_millions: "0 \<le> n \<Longrightarrow> n < 1000000000 \<Longrightarrow> says 1000000 n (gb_loop False False n)"
  by (cases "n < 1000000", simp add: gb_thousands says_wider, subst gb_loop.simps)
     (simp add: gb_thousands says_millions Let_def)

interpretation gb: number_loop "gb_loop False False" 1000000000
proof
  show "\<exists>k. says k n (gb_loop False False n)" if "0 < n" "n < 1000000000" for n
    using gb_millions [of n] that by auto
qed (simp_all add: gb_loop.simps [of False False])

section \<open>Norwegian\<close>

lemma no_tens:
  "list_all (plainly (no_loop False False False)) [1..99]"
  "list_all (plainly (no_loop True False False)) [1..99]"
  by code_simp+

lemma no_flags [simp]:
  "no_loop g False False 0 = silence"
  "0 \<le> n \<Longrightarrow> no_loop g True a n = say1 (Word ''hundred'') (no_loop g False a n)"
  "0 \<le> n \<Longrightarrow> no_loop g False True n = say1 (Word ''and'') (no_loop g False False n)"
  by (simp_all add: no_loop.simps [of g False False 0] no_loop.simps [of g True] no_loop.simps [of g False True])

lemma no_and: "0 \<le> n \<Longrightarrow> says k n (no_loop g False False n) \<Longrightarrow> says k n (no_loop g False a n)"
  by (cases a) (simp_all add: says_pause)

lemma no_small: "0 \<le> n \<Longrightarrow> n < 100 \<Longrightarrow> says 1 n (no_loop g False a n)"
  using no_tens [THEN all_plainly_says, of n] by - (rule no_and, simp, cases "n = 0"; cases g; simp)

lemma no_hundreds: "0 \<le> n \<Longrightarrow> n < 1000 \<Longrightarrow> says 100 n (no_loop g False a n)"
  by (rule no_and, simp, cases "n < 100", simp add: no_small says_wider, subst no_loop.simps)
     (simp add: no_small says_hundreds Let_def minus_mult_div_eq_mod)

lemma no_thousands: "0 \<le> n \<Longrightarrow> n < 1000000 \<Longrightarrow> says 1000 n (no_loop g False a n)"
  by (rule no_and, simp, cases "n < 1000", simp add: no_hundreds says_wider, subst no_loop.simps)
     (simp add: no_hundreds says_thousands Let_def)

lemma no_millions: "0 \<le> n \<Longrightarrow> n < 1000000000 \<Longrightarrow> says 1000000 n (no_loop g False False n)"
  by (cases "n < 1000000", simp add: no_thousands says_wider, subst no_loop.simps)
     (simp add: no_thousands says_millions Let_def)

interpretation no: number_loop "no_loop g False False" 1000000000 for g
proof
  show "\<exists>k. says k n (no_loop g False False n)" if "0 < n" "n < 1000000000" for n
    using no_millions [of n g] that by auto
qed (simp_all add: no_loop.simps [of g False False])

section \<open>Danish\<close>

lemma da_tens:
  "list_all (plainly (da_loop False False False)) [1..99]"
  "list_all (plainly (da_loop True False False)) [1..99]"
  by code_simp+

lemma da_flags [simp]:
  "da_loop g False False 0 = silence"
  "0 \<le> n \<Longrightarrow> da_loop g True a n = say1 (Word ''hundred'') (da_loop g False a n)"
  "0 \<le> n \<Longrightarrow> da_loop g False True n = say1 (Word ''and'') (da_loop g False False n)"
  by (simp_all add: da_loop.simps [of g False False 0] da_loop.simps [of g True] da_loop.simps [of g False True])

lemma da_and: "0 \<le> n \<Longrightarrow> says k n (da_loop g False False n) \<Longrightarrow> says k n (da_loop g False a n)"
  by (cases a) (simp_all add: says_pause)

lemma da_small: "0 \<le> n \<Longrightarrow> n < 100 \<Longrightarrow> says 1 n (da_loop g False a n)"
  using da_tens [THEN all_plainly_says, of n] by - (rule da_and, simp, cases "n = 0"; cases g; simp)

lemma da_hundreds: "0 \<le> n \<Longrightarrow> n < 1000 \<Longrightarrow> says 100 n (da_loop g False a n)"
  by (rule da_and, simp, cases "n < 100", simp add: da_small says_wider, subst da_loop.simps)
     (simp add: da_small says_hundreds Let_def minus_mult_div_eq_mod)

lemma da_thousands: "0 \<le> n \<Longrightarrow> n < 1000000 \<Longrightarrow> says 1000 n (da_loop g False a n)"
  by (rule da_and, simp, cases "n < 1000", simp add: da_hundreds says_wider, subst da_loop.simps)
     (simp add: da_hundreds says_thousands Let_def)

lemma da_millions: "0 \<le> n \<Longrightarrow> n < 1000000000 \<Longrightarrow> says 1000000 n (da_loop g False False n)"
  by (cases "n < 1000000", simp add: da_thousands says_wider, subst da_loop.simps)
     (simp add: da_thousands says_millions Let_def)

interpretation da: number_loop "da_loop g False False" 1000000000 for g
proof
  show "\<exists>k. says k n (da_loop g False False n)" if "0 < n" "n < 1000000000" for n
    using da_millions [of n g] that by auto
qed (simp_all add: da_loop.simps [of g False False])

section \<open>Swedish\<close>

text \<open>The gender makes no difference.\<close>

lemma se_is_en: "se_loop g p n = en_loop p n"
  by (induction p n rule: en_loop.induct) (subst se_loop.simps, subst en_loop.simps, simp add: after_def)

section \<open>Dutch\<close>

lemma nl_tens: "list_all (plainly (nl_loop False)) [1..99]"
  by code_simp

lemma nl_flags [simp]:
  "nl_loop False 0 = silence"
  "0 \<le> n \<Longrightarrow> nl_loop True n = say1 (Word ''hundred'') (nl_loop False n)"
  by (simp_all add: nl_loop.simps [of False 0] nl_loop.simps [of True])

lemma nl_small: "0 \<le> n \<Longrightarrow> n < 100 \<Longrightarrow> says 1 n (nl_loop False n)"
  using all_plainly_says [OF nl_tens] by (cases "n = 0") simp_all

lemma nl_hundreds: "0 \<le> n \<Longrightarrow> n < 1000 \<Longrightarrow> says 100 n (nl_loop False n)"
proof -
  assume n: "0 \<le> n" "n < 1000"
  consider "n < 100" | "100 \<le> n" "n < 200" | "200 \<le> n" by linarith
  then show ?thesis
  proof cases
    case 2
    then have "n div 100 = 1" by linarith
    moreover from this have "n mod 100 = n - 100" using div_mult_mod_eq [of n 100] by linarith
    ultimately
    show ?thesis using 2 says_one_scale [of "Word ''hundred''" 100 1 "n - 100", OF _ nl_small]
      by (subst nl_loop.simps) simp
  qed (use n in \<open>simp add: nl_small says_wider, subst nl_loop.simps,
         simp add: nl_small says_hundreds minus_div_mult_eq_mod\<close>)
qed

lemma nl_thousands: "0 \<le> n \<Longrightarrow> n < 1000000 \<Longrightarrow> says 1000 n (nl_loop False n)"
proof -
  assume n: "0 \<le> n" "n < 1000000"
  consider "n < 1000" | "1000 \<le> n" "n < 1100" | "1100 \<le> n" "n < 10000" | "10000 \<le> n" by linarith
  then show ?thesis
  proof cases
    case 1 with n show ?thesis by (simp add: nl_hundreds says_wider)
  next
    case 2
    moreover from 2 have "n div 1000 = 1" by linarith
    ultimately show ?thesis
      by (subst nl_loop.simps) (simp add: nl_hundreds says_one_thousand)
  next
    case 3
    then have "says 100 n (nl_loop False n)"
      using says_groups [of 1 n 100 _ "Word ''hundred''" 1, OF nl_small _ nl_small]
      by (subst nl_loop.simps) simp
    then show ?thesis by (rule says_wider)
  next
    case 4 with n show ?thesis
      by (subst nl_loop.simps) (simp add: nl_hundreds says_thousands)
  qed
qed

lemma nl_millions: "0 \<le> n \<Longrightarrow> n < 1000000000 \<Longrightarrow> says 1000000 n (nl_loop False n)"
  by (cases "n < 1000000", simp add: nl_thousands says_wider, subst nl_loop.simps)
     (simp add: nl_thousands says_millions)

interpretation nl: number_loop "nl_loop False" 1000000000
proof
  show "\<exists>k. says k n (nl_loop False n)" if "0 < n" "n < 1000000000" for n
    using nl_millions [of n] that by auto
qed (simp_all add: nl_loop.simps [of False])

section \<open>German\<close>

lemma de_tens:
  "list_all (plainly (de_loop False False)) [1..99]"
  "list_all (plainly (de_loop True False)) [1..99]"
  by code_simp+

lemma de_flags [simp]:
  "de_loop g t 0 = silence"
  "0 < n \<Longrightarrow> n < 100 \<Longrightarrow> de_loop g True n = say1 (Word ''and'') (de_loop g False n)"
  by (simp_all add: de_loop.simps [of g _ 0] de_loop.simps [of g True])

lemma de_small: "0 \<le> n \<Longrightarrow> n < 100 \<Longrightarrow> says 1 n (de_loop g t n)"
  using de_tens [THEN all_plainly_says, of n]
  by (cases "n = 0"; cases g; cases t; simp add: says_pause)

lemma de_hundreds: "0 \<le> n \<Longrightarrow> n < 1000 \<Longrightarrow> says 100 n (de_loop g t n)"
proof (cases "n < 100")
  case False
  assume n: "0 \<le> n" "n < 1000"
  have hundred: "says 100 100 (say1 (Word ''hundred'') silence)"
    using says_one_scale [of "Word ''hundred''" 100 1 0 silence] by simp
  show ?thesis
    using n False hundred by (subst de_loop.simps) (simp add: de_small says_hundreds Let_def)
qed (simp add: de_small says_wider)

lemma de_thousands: "0 \<le> n \<Longrightarrow> n < 1000000 \<Longrightarrow> says 1000 n (de_loop g t n)"
proof (cases "n < 1000")
  case False
  assume n: "0 \<le> n" "n < 1000000"
  have thousand: "says 1000 1000 (say1 (Word ''thousand'') silence)"
    using says_one_scale [of "Word ''thousand''" 1000 1 0 silence] by simp
  show ?thesis
    using n False thousand
    by (subst de_loop.simps)
       (simp add: de_hundreds says_thousands Let_def says_unit_scale [where l = 100])
qed (simp add: de_hundreds says_wider)

lemma de_millions: "0 \<le> n \<Longrightarrow> n < 1000000000 \<Longrightarrow> says 1000000 n (de_loop g t n)"
  by (cases "n < 1000000", simp add: de_thousands says_wider, subst de_loop.simps)
     (simp add: de_thousands says_millions Let_def says_unit_scale [where l = 1000])

lemma de_milliards: "0 \<le> n \<Longrightarrow> n \<le> INT_MAX \<Longrightarrow> says 1000000000 n (de_loop g t n)"
proof (cases "n < 1000000000")
  case False
  assume n: "0 \<le> n" "n \<le> INT_MAX"
  then have "n div 1000000000 < 3" by (simp add: INT_MAX_def)
  with n False show ?thesis
    by (subst de_loop.simps)
       (simp add: de_small de_millions says_milliards Let_def says_unit_scale [where l = 1000000])
qed (simp add: de_millions says_mono [of 1000000])

interpretation de: number_loop "de_loop g False" "INT_MAX + 1" for g
proof
  show "\<exists>k. says k n (de_loop g False n)" if "0 < n" "n < INT_MAX + 1" for n
    using de_milliards [of n g False] that by auto
qed (simp_all add: de_loop.simps [of g False])

section \<open>The properties\<close>

lemma say_number_english:
  fixes n :: "32 word"
  shows "spoken_ok 1000000000 (sint n) (ast_say_number_full_en (sint n))
    \<and> spoken_ok 1000000000 (sint n) (ast_say_number_full_en_GB (sint n))"
  using en.spoken_all [of "sint n"] gb.spoken_all [of "sint n"]
  by (simp add: ast_say_number_full_en_def ast_say_number_full_en_GB_def int_range)

lemma say_number_scandinavian:
  fixes n :: "32 word"
  shows "spoken_ok 1000000000 (sint n) (ast_say_number_full_no options (sint n))
    \<and> spoken_ok 1000000000 (sint n) (ast_say_number_full_da options (sint n))
    \<and> spoken_ok 1000000000 (sint n) (ast_say_number_full_se options (sint n))
    \<and> ast_say_number_full_se options (sint n) = ast_say_number_full_en (sint n)"
  using no.spoken_all [of "sint n"] da.spoken_all [of "sint n"] en.spoken_all [of "sint n"]
  by (simp add: ast_say_number_full_no_def ast_say_number_full_da_def ast_say_number_full_se_def
      ast_say_number_full_en_def se_is_en int_range)

lemma say_number_dutch_german:
  fixes n :: "32 word"
  shows "spoken_ok 1000000000 (sint n) (ast_say_number_full_nl (sint n))
    \<and> spoken_ok (INT_MAX + 1) (sint n) (ast_say_number_full_de options (sint n))"
  using nl.spoken_all [OF int_range, of n] de.spoken_all [OF int_range, of n]
  by (simp add: ast_say_number_full_nl_def ast_say_number_full_de_def INT_MAX_def)

text \<open>C21. English, Norwegian, Danish, Swedish, Dutch and German: for every value of a C int the files played name
  the number and the function returns 0, whatever the options say of the gender, when it is below a thousand
  million in size; larger numbers are refused with -1 after the sign (German says them too), and of the least
  int only the sign is said. The American and the British way agree; Swedish says the words of English.\<close>

theorem say_number_germanic:
  fixes n :: "32 word"
  shows "spoken_ok 1000000000 (sint n) (ast_say_number_full_en (sint n))
    \<and> spoken_ok 1000000000 (sint n) (ast_say_number_full_en_GB (sint n))
    \<and> spoken_ok 1000000000 (sint n) (ast_say_number_full_no options (sint n))
    \<and> spoken_ok 1000000000 (sint n) (ast_say_number_full_da options (sint n))
    \<and> spoken_ok 1000000000 (sint n) (ast_say_number_full_se options (sint n))
    \<and> ast_say_number_full_se options (sint n) = ast_say_number_full_en (sint n)
    \<and> spoken_ok 1000000000 (sint n) (ast_say_number_full_nl (sint n))
    \<and> spoken_ok (INT_MAX + 1) (sint n) (ast_say_number_full_de options (sint n))"
  using say_number_english [of n] say_number_scandinavian [of n options] say_number_dutch_german [of n options]
  by blast

end
