(* ===== verification/SayRomance.thy ===== *)
theory SayRomance
  imports Say
begin

text \<open>
  The number functions of main/say.c for Spanish, French, Italian and Portuguese, and what a
  listener understands of them. As in the theory SayGermanic, the loops are functions of the
  loop's state; the gender of the function's options is a parameter.
\<close>

section \<open>Spanish\<close>

text \<open>The gender \<open>mf\<close> is -1 for a feminine, 1 for a masculine and 0 for no choice.\<close>

definition es_gender :: "string option \<Rightarrow> int" where
  "es_gender options = (if option_is CHR ''f'' options then -1 else if option_is CHR ''m'' options then 1 else 0)"

function es_loop :: "int \<Rightarrow> bool \<Rightarrow> int \<Rightarrow> speech" where
  "es_loop mf playa num =
    (if num = 0 then silence
     else if num < 0 then say1 (Word ''minus'') (es_loop mf playa (negated num))
     else if playa then say1 (Word ''and'') (es_loop mf False num)
     else if num = 1 then
       say1 (if mf < 0 then Number num ''F'' else if mf > 0 then Number num ''M'' else Number num '''')
         (es_loop mf False 0)
     else if num < 31 then say1 (Number num '''') (es_loop mf False 0)
     else if num < 100 then
       (let num' = num - num div 10 * 10
        in say1 (Number (num div 10 * 10) '''') (es_loop mf (num' \<noteq> 0) num'))
     else if num = 100 then say1 (Number 100 '''') (es_loop mf False 0)
     else if num < 200 then say1 (Word ''100-and'') (es_loop mf False (num - 100))
     else if num < 1000 then
       say1 (Number (num div 100 * 100) '''') (es_loop mf False (num - num div 100 * 100))
     else if num < 2000 then say1 (Word ''thousand'') (es_loop mf False (num mod 1000))
     else if num < 1000000 then
       after (from_zero (num div 1000) (es_loop mf False (num div 1000)))
         (say1 (Word ''thousand'') (es_loop mf False (num mod 1000)))
     else if num < 2147483640 then
       (if num div 1000000 = 1
        then after (from_zero (num div 1000000) (es_loop 1 False (num div 1000000)))
               (say1 (Word ''million'') (es_loop mf False (num mod 1000000)))
        else after (from_zero (num div 1000000) (es_loop mf False (num div 1000000)))
               (say1 (Word ''millions'') (es_loop mf False (num mod 1000000))))
     else too_big)"
  by pat_completeness auto
termination
  by (relation "measure (\<lambda>(g, a, n). weight n + of_bool a)") (auto simp: weight_simps)

definition ast_say_number_full_es :: "string option \<Rightarrow> int \<Rightarrow> speech" where
  "ast_say_number_full_es options num = from_zero num (es_loop (es_gender options) False num)"

section \<open>French\<close>

function fr_loop :: "bool \<Rightarrow> bool \<Rightarrow> bool \<Rightarrow> int \<Rightarrow> speech" where
  "fr_loop female playh playa num =
    (if num = 0 \<and> \<not> playh \<and> \<not> playa then silence
     else if num < 0 then say1 (Word ''minus'') (fr_loop female playh playa (negated num))
     else if playh then say1 (Word ''hundred'') (fr_loop female False playa num)
     else if playa then say1 (Word ''et'') (fr_loop female False False num)
     else if num = 1 then
       say1 (if female then Number num ''F'' else Number num '''') (fr_loop female False False 0)
     else if num < 21 then say1 (Number num '''') (fr_loop female False False 0)
     else if num < 70 then
       say1 (Number (num div 10 * 10) '''') (fr_loop female False (num mod 10 = 1) (num mod 10))
     else if num < 80 then
       say1 (Number 60 '''') (fr_loop female False (num mod 10 = 1) (num - 60))
     else if num < 100 then say1 (Number 80 '''') (fr_loop female False False (num - 80))
     else if num < 200 then say1 (Word ''hundred'') (fr_loop female False False (num - 100))
     else if num < 1000 then
       say1 (Number (num div 100) '''') (fr_loop female True False (num mod 100))
     else if num < 2000 then say1 (Word ''thousand'') (fr_loop female False False (num - 1000))
     else if num < 1000000 then
       after (from_zero (num div 1000) (fr_loop female False False (num div 1000)))
         (say1 (Word ''thousand'') (fr_loop female False False (num mod 1000)))
     else if num < 1000000000 then
       after (from_zero (num div 1000000) (fr_loop female False False (num div 1000000)))
         (say1 (Word ''million'') (fr_loop female False False (num mod 1000000)))
     else too_big)"
  by pat_completeness auto
termination
  by (relation "measure (\<lambda>(g, p, a, n). weight n + of_bool p + of_bool a)") (auto simp: weight_simps)

definition ast_say_number_full_fr :: "string option \<Rightarrow> int \<Rightarrow> speech" where
  "ast_say_number_full_fr options num =
     from_zero num (fr_loop (option_is CHR ''f'' options) False False num)"

section \<open>Italian\<close>

function it_loop :: "bool \<Rightarrow> int \<Rightarrow> speech" where
  "it_loop playh num =
    (if num = 0 \<and> \<not> playh then silence
     else if num < 0 then say1 (Word ''minus'') (it_loop playh (negated num))
     else if playh then say1 (Word ''hundred'') (it_loop False num)
     else if num < 20 \<or> num = 21 \<or> num = 28 \<or> num = 31 \<or> num = 38 \<or> num = 41 \<or> num = 48
         \<or> num = 51 \<or> num = 58 \<or> num = 61 \<or> num = 68 \<or> num = 71 \<or> num = 78 \<or> num = 81 \<or> num = 88
         \<or> num = 91 \<or> num = 98 then
       say1 (Number num '''') (it_loop False 0)
     else if num < 100 then
       say1 (Number (num div 10 * 10) '''') (it_loop False (num - num div 10 * 10))
     else if num < 1000 then
       (if num div 100 > 1
        then say1 (Number (num div 100) '''') (it_loop True (num - num div 100 * 100))
        else say1 (Word ''hundred'') (it_loop False (num - num div 100 * 100)))
     else if num < 1000000 then
       after (if num div 1000 > 1 then from_zero (num div 1000) (it_loop False (num div 1000)) else silence)
         (say1 (if num div 1000 < 2 then Word ''thousand'' else Word ''thousands'')
           (it_loop False (num mod 1000)))
     else if num < 1000000000 then
       after (if num div 1000000 > 1 then from_zero (num div 1000000) (it_loop False (num div 1000000)) else silence)
         (say1 (if num div 1000000 < 2 then Word ''million'' else Word ''millions'')
           (it_loop False (num mod 1000000)))
     else too_big)"
  by pat_completeness auto
termination
  by (relation "measure (\<lambda>(p, n). weight n + of_bool p)") (auto simp: weight_simps)

definition ast_say_number_full_it :: "int \<Rightarrow> speech" where
  "ast_say_number_full_it num = from_zero num (it_loop False num)"

section \<open>Portuguese\<close>

text \<open>
  The flag \<open>playh\<close> is set and used in the same turn: the word and follows the file of the
  turn. It is played by \<open>wait_file\<close>.
\<close>

definition pt_e :: "bool \<Rightarrow> speech \<Rightarrow> speech" where
  "pt_e playh s = (if playh then say1 (Required ''digits/pt-e'') s else s)"

definition pt_and_thousand :: "int \<Rightarrow> bool" where
  "pt_and_thousand num = (num mod 1000 \<noteq> 0 \<and> (num mod 1000 < 100 \<or> num mod 100 = 0))"

definition pt_and_million :: "int \<Rightarrow> bool" where
  "pt_and_million num = (num mod 1000000 \<noteq> 0 \<and>
    ((num div 1000 mod 1000 = 0 \<and> (num mod 1000 < 100 \<or> num mod 100 = 0)) \<or>
     (num mod 1000 = 0 \<and> (num div 1000 mod 1000 < 100 \<or> num div 1000 mod 100 = 0))))"

function pt_loop :: "bool \<Rightarrow> int \<Rightarrow> speech" where
  "pt_loop female num =
    (if num = 0 then silence
     else if num < 0 then say1 (Word ''minus'') (pt_loop female (negated num))
     else if num < 20 then
       say1 (if (num = 1 \<or> num = 2) \<and> female then Number num ''F'' else Number num '''')
         (pt_loop female 0)
     else if num < 100 then
       say1 (Number (num div 10 * 10) '''') (pt_e (num mod 10 \<noteq> 0) (pt_loop female (num mod 10)))
     else if num < 1000 then
       (if num = 100 then say1 (Number 100 '''') (pt_loop female (num mod 100))
        else if num < 200 then say1 (Number 100 ''E'') (pt_loop female (num mod 100))
        else say1 (if female \<and> num > 199 then Number (num div 100 * 100) ''F''
                   else Number (num div 100 * 100) '''')
               (pt_e (num mod 100 \<noteq> 0) (pt_loop female (num mod 100))))
     else if num < 1000000 then
       (let thousands = num div 1000 * (if female then -1 else 1)
        in after (if num > 1999 then from_zero thousands (pt_loop female thousands) else silence)
             (say1 (Word ''1000'') (pt_e (pt_and_thousand num) (pt_loop female (num mod 1000)))))
     else if num < 1000000000 then
       after (from_zero (num div 1000000) (pt_loop female (num div 1000000)))
         (say1 (if num < 2000000 then Word ''1000000'' else Word ''1000000S'')
           (pt_e (pt_and_million num) (pt_loop female (num mod 1000000))))
     else too_big)"
  by pat_completeness auto
termination
  by (relation "measure (\<lambda>(g, n). weight n)") (auto simp: weight_simps weight_minus)

definition ast_say_number_full_pt :: "string option \<Rightarrow> int \<Rightarrow> speech" where
  "ast_say_number_full_pt options num = from_zero num (pt_loop (option_is CHR ''f'' options) num)"

declare es_loop.simps [simp del] fr_loop.simps [simp del] it_loop.simps [simp del] pt_loop.simps [simp del]

end
