(* ===== verification/SayRomanceProps.thy ===== *)
theory SayRomanceProps
  imports SayRomance
begin

text \<open>
  What the listener understands of the numbers in Spanish, French, Italian and Portuguese.
\<close>

section \<open>Spanish\<close>

lemma es_tens:
  "list_all (plainly (es_loop (-1) False)) [1..99]"
  "list_all (plainly (es_loop 0 False)) [1..99]"
  "list_all (plainly (es_loop 1 False)) [1..99]"
  by code_simp+

lemma es_done [simp]: "es_loop g a 0 = silence"
  by (simp add: es_loop.simps [of g a 0])

lemma es_small: "g \<in> {-1, 0, 1} \<Longrightarrow> 0 \<le> n \<Longrightarrow> n < 100 \<Longrightarrow> says 1 n (es_loop g False n)"
  using es_tens [THEN all_plainly_says, of n] by (cases "n = 0") auto

lemma es_hundreds: "g \<in> {-1, 0, 1} \<Longrightarrow> 0 \<le> n \<Longrightarrow> n < 1000 \<Longrightarrow> says 1 n (es_loop g False n)"
proof (cases "n < 100")
  case False
  assume g: "g \<in> {-1, 0, 1}" and n: "0 \<le> n" "n < 1000"
  have "says 1 (100 + (n - 100)) (say1 (Word ''100-and'') (es_loop g False (n - 100)))" if "n < 200"
    using that False g by (intro says_add es_small) simp_all
  moreover have "says 1 (n div 100 * 100 + n mod 100)
      (say1 (Number (n div 100 * 100) '''') (es_loop g False (n mod 100)))"
    using g by (intro says_add es_small) simp_all
  ultimately show ?thesis
    using n False by (subst es_loop.simps) (simp add: minus_div_mult_eq_mod)
qed (simp add: es_small)

lemma es_thousands: "g \<in> {-1, 0, 1} \<Longrightarrow> 0 \<le> n \<Longrightarrow> n < 1000000 \<Longrightarrow> says 1000 n (es_loop g False n)"
proof -
  assume g: "g \<in> {-1, 0, 1}" and n: "0 \<le> n" "n < 1000000"
  consider "n < 1000" | "1000 \<le> n" "n < 2000" | "2000 \<le> n" by linarith
  then show ?thesis
  proof cases
    case 1 with n g show ?thesis by (simp add: es_hundreds says_wider)
  next
    case 2
    moreover from 2 have "n div 1000 = 1" by linarith
    ultimately show ?thesis using g
      by (subst es_loop.simps) (simp add: es_hundreds says_wider says_one_thousand)
  next
    case 3 with n g show ?thesis
      by (subst es_loop.simps) (simp add: es_hundreds says_wider says_thousands)
  qed
qed

lemma es_millions: "g \<in> {-1, 0, 1} \<Longrightarrow> 0 \<le> n \<Longrightarrow> n < 2147483640 \<Longrightarrow> says 1000000 n (es_loop g False n)"
  by (cases "n < 1000000", simp add: es_thousands says_wider, subst es_loop.simps)
     (simp add: es_thousands says_millions)

interpretation es: number_loop "es_loop (es_gender options) False" 2147483640 for options
proof
  show "\<exists>k. says k n (es_loop (es_gender options) False n)" if "0 < n" "n < 2147483640" for n
    using es_millions [of "es_gender options" n] that by (auto simp: es_gender_def)
qed (simp_all add: es_loop.simps [of "es_gender options" False])

section \<open>French\<close>

lemma fr_tens:
  "list_all (plainly (fr_loop False False False)) [1..99]"
  "list_all (plainly (fr_loop True False False)) [1..99]"
  by code_simp+

lemma fr_flags [simp]:
  "fr_loop g False False 0 = silence"
  "0 \<le> n \<Longrightarrow> fr_loop g True False n = say1 (Word ''hundred'') (fr_loop g False False n)"
  by (simp_all add: fr_loop.simps [of g False False 0] fr_loop.simps [of g True])

lemma fr_small: "0 \<le> n \<Longrightarrow> n < 100 \<Longrightarrow> says 1 n (fr_loop g False False n)"
  using fr_tens [THEN all_plainly_says, of n] by (cases "n = 0"; cases g; simp)

lemma fr_hundreds: "0 \<le> n \<Longrightarrow> n < 1000 \<Longrightarrow> says 100 n (fr_loop g False False n)"
proof -
  assume n: "0 \<le> n" "n < 1000"
  consider "n < 100" | "100 \<le> n" "n < 200" | "200 \<le> n" by linarith
  then show ?thesis
  proof cases
    case 2
    then show ?thesis using says_one_scale [of "Word ''hundred''" 100 1 "n - 100", OF _ fr_small]
      by (subst fr_loop.simps) simp
  qed (use n in \<open>simp add: fr_small says_wider, subst fr_loop.simps, simp add: fr_small says_hundreds\<close>)
qed

lemma fr_thousands: "0 \<le> n \<Longrightarrow> n < 1000000 \<Longrightarrow> says 1000 n (fr_loop g False False n)"
proof -
  assume n: "0 \<le> n" "n < 1000000"
  consider "n < 1000" | "1000 \<le> n" "n < 2000" | "2000 \<le> n" by linarith
  then show ?thesis
  proof cases
    case 1 with n show ?thesis by (simp add: fr_hundreds says_wider)
  next
    case 2
    then have "says 1000 (1000 + (n - 1000)) (say1 (Word ''thousand'') (fr_loop g False False (n - 1000)))"
      by (intro says_one_scale [where l = 100] fr_hundreds) simp_all
    with 2 show ?thesis by (subst fr_loop.simps) simp
  next
    case 3 with n show ?thesis
      by (subst fr_loop.simps) (simp add: fr_hundreds says_thousands)
  qed
qed

lemma fr_millions: "0 \<le> n \<Longrightarrow> n < 1000000000 \<Longrightarrow> says 1000000 n (fr_loop g False False n)"
  by (cases "n < 1000000", simp add: fr_thousands says_wider, subst fr_loop.simps)
     (simp add: fr_thousands says_millions)

interpretation fr: number_loop "fr_loop g False False" 1000000000 for g
proof
  show "\<exists>k. says k n (fr_loop g False False n)" if "0 < n" "n < 1000000000" for n
    using fr_millions [of n g] that by auto
qed (simp_all add: fr_loop.simps [of g False False])

section \<open>Italian\<close>

lemma it_tens: "list_all (plainly (it_loop False)) [1..99]"
  by code_simp

lemma it_flags [simp]:
  "it_loop False 0 = silence"
  "0 \<le> n \<Longrightarrow> it_loop True n = say1 (Word ''hundred'') (it_loop False n)"
  by (simp_all add: it_loop.simps [of False 0] it_loop.simps [of True])

lemma it_small: "0 \<le> n \<Longrightarrow> n < 100 \<Longrightarrow> says 1 n (it_loop False n)"
  using it_tens [THEN all_plainly_says, of n] by (cases "n = 0") simp_all

lemma it_hundreds: "0 \<le> n \<Longrightarrow> n < 1000 \<Longrightarrow> says 100 n (it_loop False n)"
proof (cases "n < 100")
  case False
  assume n: "0 \<le> n" "n < 1000"
  have "says 100 n (say1 (Word ''hundred'') (it_loop False (n mod 100)))" if "\<not> n div 100 > 1"
  proof -
    from that False have "n div 100 = 1" by linarith
    then show ?thesis
      using says_one_scale [of "Word ''hundred''" 100 1 "n mod 100", OF _ it_small]
        div_mult_mod_eq [of n 100] by simp
  qed
  with n False show ?thesis
    by (subst it_loop.simps) (simp add: it_small says_hundreds minus_div_mult_eq_mod)
qed (simp add: it_small says_wider)

lemma it_thousands: "0 \<le> n \<Longrightarrow> n < 1000000 \<Longrightarrow> says 1000 n (it_loop False n)"
proof (cases "n < 1000")
  case False
  assume n: "0 \<le> n" "n < 1000000"
  have "n div 1000 = 1" if "\<not> n div 1000 > 1" using that False by linarith
  with n False show ?thesis
    by (subst it_loop.simps) (simp add: it_hundreds says_thousands says_one_thousand)
qed (simp add: it_hundreds says_wider)

lemma it_millions: "0 \<le> n \<Longrightarrow> n < 1000000000 \<Longrightarrow> says 1000000 n (it_loop False n)"
proof (cases "n < 1000000")
  case False
  assume n: "0 \<le> n" "n < 1000000000"
  have "says 1000000 n (say1 (Word ''million'') (it_loop False (n mod 1000000)))" if "\<not> n div 1000000 > 1"
  proof -
    from that False have "n div 1000000 = 1" by linarith
    then show ?thesis
      using says_one_scale [of "Word ''million''" 1000000 1000 "n mod 1000000", OF _ it_thousands]
        div_mult_mod_eq [of n 1000000] by simp
  qed
  with n False show ?thesis
    by (subst it_loop.simps) (simp add: it_thousands says_millions)
qed (simp add: it_thousands says_wider)

interpretation it: number_loop "it_loop False" 1000000000
proof
  show "\<exists>k. says k n (it_loop False n)" if "0 < n" "n < 1000000000" for n
    using it_millions [of n] that by auto
qed (simp_all add: it_loop.simps [of False])

section \<open>Portuguese\<close>

lemma pt_tens:
  "list_all (plainly (pt_loop False)) [1..99]"
  "list_all (plainly (pt_loop True)) [1..99]"
  by code_simp+

lemma pt_done [simp]: "pt_loop g 0 = silence"
  by (simp add: pt_loop.simps [of g 0])

lemma says_pt_e [simp]: "says k b s \<Longrightarrow> says k b (pt_e p s)"
  by (simp add: pt_e_def says_pause)

lemma pt_small: "0 \<le> n \<Longrightarrow> n < 100 \<Longrightarrow> says 1 n (pt_loop g n)"
  using pt_tens [THEN all_plainly_says, of n] by (cases "n = 0"; cases g; simp)

lemma pt_hundreds: "0 \<le> n \<Longrightarrow> n < 1000 \<Longrightarrow> says 1 n (pt_loop g n)"
proof (cases "n < 100")
  case False
  assume n: "0 \<le> n" "n < 1000"
  have parts: "says 1 n (say1 f s)" if "sense f = Some (Add (n div 100 * 100))" "says 1 (n mod 100) s" for f s
    using says_add [OF that] by simp
  have "n div 100 = 1" if "n < 200" using that False by linarith
  with n False show ?thesis
    by (subst pt_loop.simps) (simp add: parts pt_small)
qed (simp add: pt_small)

lemma pt_thousands: "0 \<le> n \<Longrightarrow> n < 1000000 \<Longrightarrow> says 1000 n (pt_loop False n)"
proof (cases "n < 1000")
  case False
  assume n: "0 \<le> n" "n < 1000000"
  have "n div 1000 = 1" if "\<not> n > 1999" using that False by linarith
  with n False show ?thesis
    by (subst pt_loop.simps)
       (simp add: Let_def pt_hundreds says_wider says_thousands says_one_thousand)
qed (simp add: pt_hundreds says_wider)

lemma pt_millions: "0 \<le> n \<Longrightarrow> n < 1000000000 \<Longrightarrow> says 1000000 n (pt_loop False n)"
  by (cases "n < 1000000", simp add: pt_thousands says_wider, subst pt_loop.simps)
     (simp add: pt_thousands says_millions)

interpretation pt: number_loop "pt_loop False" 1000000000
proof
  show "\<exists>k. says k n (pt_loop False n)" if "0 < n" "n < 1000000000" for n
    using pt_millions [of n] that by auto
qed (simp_all add: pt_loop.simps [of False])

section \<open>The properties\<close>

lemma say_number_es_fr_it:
  fixes n :: "32 word"
  shows "spoken_ok 2147483640 (sint n) (ast_say_number_full_es options (sint n))
    \<and> spoken_ok 1000000000 (sint n) (ast_say_number_full_fr options (sint n))
    \<and> spoken_ok 1000000000 (sint n) (ast_say_number_full_it (sint n))"
  using es.spoken_all [OF int_range, of n] fr.spoken_all [OF int_range, of n] it.spoken_all [OF int_range, of n]
  by (simp add: ast_say_number_full_es_def ast_say_number_full_fr_def ast_say_number_full_it_def)

lemma say_number_portuguese:
  fixes n :: "32 word"
  shows "(\<not> option_is CHR ''f'' options \<longrightarrow>
      spoken_ok 1000000000 (sint n) (ast_say_number_full_pt options (sint n)))
    \<and> (option_is CHR ''f'' options \<and> sint n \<in> {2000..999999} \<longrightarrow>
      understood (fst (ast_say_number_full_pt options (sint n))) = Some (- sint n))"
proof (cases "option_is CHR ''f'' options")
  case False
  then show ?thesis
    using pt.spoken_all [OF int_range, of n] by (simp add: ast_say_number_full_pt_def)
next
  case True
  have "understood (fst (pt_loop True m)) = Some (- m)" if m: "2000 \<le> m" "m \<le> 999999" for m
  proof -
    have neg: "pt_loop True (- (m div 1000)) = say1 (Word ''minus'') (pt_loop True (m div 1000))"
    proof -
      have "0 < m div 1000" "m div 1000 < 1000" using m by (simp_all add: pos_imp_zdiv_pos_iff)
      then show ?thesis by (subst pt_loop.simps) (simp add: negated_def INT_MIN_def)
    qed
    have "says 1000 m (after (pt_loop True (m div 1000))
        (say1 (Word ''1000'') (pt_e (pt_and_thousand m) (pt_loop True (m mod 1000)))))"
      using m by (simp add: says_thousands pt_hundreds says_wider)
    from says_minus_understood [OF this] show ?thesis
      using m neg by (subst pt_loop.simps) (simp add: Let_def del: say1_simps)
  qed
  with True show ?thesis by (simp add: ast_say_number_full_pt_def)
qed

text \<open>C22. Spanish, French, Italian and Portuguese: the files played name the number, whatever the options say of
  the gender; Spanish refuses 2147483640 and more, the others a thousand million and more. The exception is
  the feminine of Portuguese, which multiplies the count of thousands by the gender -1 before it says it, so
  that every feminine number from 2000 to 999999 is heard with a minus.\<close>

theorem say_number_romance:
  fixes n :: "32 word"
  shows "spoken_ok 2147483640 (sint n) (ast_say_number_full_es options (sint n))
    \<and> spoken_ok 1000000000 (sint n) (ast_say_number_full_fr options (sint n))
    \<and> spoken_ok 1000000000 (sint n) (ast_say_number_full_it (sint n))
    \<and> (\<not> option_is CHR ''f'' options \<longrightarrow>
      spoken_ok 1000000000 (sint n) (ast_say_number_full_pt options (sint n)))
    \<and> (option_is CHR ''f'' options \<and> sint n \<in> {2000..999999} \<longrightarrow>
      understood (fst (ast_say_number_full_pt options (sint n))) = Some (- sint n))"
  using say_number_es_fr_it [of n options] say_number_portuguese [of options n] by blast

theorem say_number_romance_witness:
  "understood (fst (ast_say_number_full_pt (Some ''f'') 2500)) = Some (-2500)"
  using say_number_romance [of 2500 "Some ''f''"] by (simp add: lower_def)

end
