(* ===== verification/SaySlavic.thy ===== *)
theory SaySlavic
  imports Say
begin

text \<open>
  The number functions of main/say.c for Czech, Polish and Russian.
\<close>

section \<open>Czech\<close>

function exp10_int :: "int \<Rightarrow> int" where
  "exp10_int p = (if p \<le> 0 then 1 else exp10_int (p - 1) * 10)"
  by pat_completeness auto
termination by (relation "measure nat") auto

text \<open>\<open>(int)log10(num)+1\<close>, the number of decimal digits.\<close>

function decimal_length :: "int \<Rightarrow> int" where
  "decimal_length n = (if n < 10 then 1 else decimal_length (n div 10) + 1)"
  by pat_completeness auto
termination by (relation "measure nat") auto

text \<open>The loop that lowers the length to one more than a multiple of three.\<close>

function group_length :: "int \<Rightarrow> int" where
  "group_length l = (if l mod 3 \<noteq> 1 \<and> 0 < l then group_length (l - 1) else l)"
  by pat_completeness auto
termination by (relation "measure nat") auto

declare exp10_int.simps [simp del] decimal_length.simps [simp del] group_length.simps [simp del]

text \<open>The power of ten of the highest group of three digits.\<close>

definition cz_exponent :: "int \<Rightarrow> int" where
  "cz_exponent num = group_length (decimal_length num) - 1"

lemma exp10_int_power: "exp10_int p = 10 ^ nat p"
proof (induction p rule: exp10_int.induct)
  case (1 p)
  then show ?case
    by (subst exp10_int.simps) (auto simp: nat_diff_distrib' Suc_nat_eq_nat_zadd1 [symmetric] simp flip: power_Suc2)
qed

lemma decimal_length_pos: "1 \<le> decimal_length n"
  by (induction n rule: decimal_length.induct) (subst decimal_length.simps, auto)

lemma decimal_length_power: "1 \<le> n \<Longrightarrow> 10 ^ nat (decimal_length n - 1) \<le> n"
proof (induction n rule: decimal_length.induct)
  case (1 n)
  show ?case
  proof (cases "n < 10")
    case True
    then show ?thesis using 1 by (simp add: decimal_length.simps [of n])
  next
    case False
    then have ih: "10 ^ nat (decimal_length (n div 10) - 1) \<le> n div 10" using 1 by simp
    have "nat (decimal_length n - 1) = Suc (nat (decimal_length (n div 10) - 1))"
      using False decimal_length_pos [of "n div 10"] by (simp add: decimal_length.simps [of n])
    then have "(10 :: int) ^ nat (decimal_length n - 1) = 10 * 10 ^ nat (decimal_length (n div 10) - 1)" by simp
    with ih show ?thesis by linarith
  qed
qed

lemma decimal_length_4: "1000 \<le> n \<Longrightarrow> 4 \<le> decimal_length n"
  using decimal_length_pos [of "n div 10 div 10 div 10"]
  by (subst decimal_length.simps, subst decimal_length.simps, subst decimal_length.simps) auto

lemma group_length_bounds: "4 \<le> l \<Longrightarrow> 4 \<le> group_length l \<and> group_length l \<le> l"
proof (induction l rule: group_length.induct)
  case (1 l)
  then show ?case
    by (subst (1 2) group_length.simps) (cases "l = 4", auto)
qed

lemma cz_exponent_bounds:
  assumes "1000 \<le> n"
  shows "1000 \<le> exp10_int (cz_exponent n)" "exp10_int (cz_exponent n) \<le> n"
proof -
  let ?l = "decimal_length n"
  have g: "4 \<le> group_length ?l" "group_length ?l \<le> ?l"
    using group_length_bounds [OF decimal_length_4 [OF assms]] by auto
  then have "(10 :: int) ^ 3 \<le> 10 ^ nat (cz_exponent n)"
    by (intro power_increasing) (auto simp: cz_exponent_def)
  then show "1000 \<le> exp10_int (cz_exponent n)" by (simp add: exp10_int_power)
  have "(10 :: int) ^ nat (cz_exponent n) \<le> 10 ^ nat (?l - 1)"
    using g by (intro power_increasing) (auto simp: cz_exponent_def)
  also have "\<dots> \<le> n" using decimal_length_power [of n] assms by simp
  finally show "exp10_int (cz_exponent n) \<le> n" by (simp add: exp10_int_power)
qed

lemma group_smaller:
  fixes n e :: int
  assumes "1000 \<le> e" "e \<le> n"
  shows "n div e < n" "1 \<le> n div e" "0 \<le> n - n div e * e" "n - n div e * e < n"
proof -
  show "1 \<le> n div e" using assms pos_imp_zdiv_pos_iff [of e n] by linarith
  then show "n - n div e * e < n" using assms mult_pos_pos [of "n div e" e] by linarith
  show "n div e < n" using assms by (intro int_div_less_self) auto
  show "0 \<le> n - n div e * e" using assms by (simp add: minus_div_mult_eq_mod)
qed

lemmas cz_smaller = group_smaller [OF cz_exponent_bounds]

lemma cz_weights:
  assumes "1000 \<le> n"
  shows "weight (n div exp10_int (cz_exponent n)) < weight n"
    "weight (n - n div exp10_int (cz_exponent n) * exp10_int (cz_exponent n)) < weight n"
  using cz_smaller [OF assms assms] weight_smaller(1) by auto

text \<open>
  The character \<open>options[0]\<close> ends the file name: a suffix of one character, or none when
  the options are the empty string. The options of a group of two replace the caller's for the rest
  of the number.
\<close>

definition cz_group_options :: "int \<Rightarrow> int \<Rightarrow> string \<Rightarrow> string" where
  "cz_group_options left exponent options =
    (if left = 2 then (if exponent = 9 then ''w'' else ''m'') else options)"

definition cz_power :: "int \<Rightarrow> int \<Rightarrow> sound" where
  "cz_power left exponent =
    (if left \<ge> 5 then Power ''5'' exponent
     else if 2 \<le> left \<and> left \<le> 4 then Power ''2-4'' exponent
     else Power ''1'' exponent)"

function cz_loop :: "string \<Rightarrow> int \<Rightarrow> speech" where
  "cz_loop options num =
    (if num = 0 then silence
     else if num < 0 then say1 (Word ''minus'') (cz_loop options (negated num))
     else if num < 3 then say1 (Number num (take 1 options)) (cz_loop options 0)
     else if num < 20 then say1 (Number num '''') (cz_loop options 0)
     else if num < 100 then
       say1 (Number (num div 10 * 10) '''') (cz_loop options (num - num div 10 * 10))
     else if num < 1000 then
       (let hundered = num div 100; num' = num - hundered * 100
        in if hundered = 1 then say1 (Word ''1sto'') (cz_loop options num')
           else if hundered = 2 then say1 (Word ''2ste'') (cz_loop options num')
           else after (from_zero hundered (cz_loop options hundered))
             (say1 (if hundered = 3 \<or> hundered = 4 then Word ''sta'' else Word ''set'')
               (cz_loop options num')))
     else
       (let exponent = cz_exponent num; left = num div exp10_int exponent;
            options' = cz_group_options left exponent options
        in after (if left > 1 then from_zero left (cz_loop options' left) else silence)
             (say1 (cz_power left exponent) (cz_loop options' (num - left * exp10_int exponent)))))"
  by pat_completeness auto
termination
  by (relation "measure (\<lambda>(g, n). weight n)") (auto simp: weight_simps cz_weights)

definition ast_say_number_full_cz :: "string option \<Rightarrow> int \<Rightarrow> speech" where
  "ast_say_number_full_cz options num =
     from_zero num (cz_loop (case options of None \<Rightarrow> ''w'' | Some o' \<Rightarrow> o') num)"

section \<open>Polish\<close>

text \<open>The words of a gender.\<close>

record odmiana =
  separator_dziesiatek :: string
  cyfry :: "string list"
  cyfry2 :: "string list"
  setki :: "string list"
  dziesiatki :: "string list"
  nastki :: "string list"
  rzedy :: "string list list"

definition pl_rzedy :: "string list list" where
  "pl_rzedy = [[''1000'', ''1000.2'', ''1000.5''], [''1000000'', ''1000000.2'', ''1000000.5''],
     [''1000000000'', ''1000000000.2'', ''1000000000.5'']]"

definition odmiana_nieosobowa :: odmiana where
  "odmiana_nieosobowa = \<lparr>
     separator_dziesiatek = '' '',
     cyfry = [''0'', ''1'', ''2'', ''3'', ''4'', ''5'', ''6'', ''7'', ''8'', ''9''],
     cyfry2 = [''0'', ''1'', ''2'', ''3'', ''4'', ''5'', ''6'', ''7'', ''8'', ''9''],
     setki = ['''', ''100'', ''200'', ''300'', ''400'', ''500'', ''600'', ''700'', ''800'', ''900''],
     dziesiatki = ['''', ''10'', ''20'', ''30'', ''40'', ''50'', ''60'', ''70'', ''80'', ''90''],
     nastki = ['''', ''11'', ''12'', ''13'', ''14'', ''15'', ''16'', ''17'', ''18'', ''19''],
     rzedy = pl_rzedy\<rparr>"

definition odmiana_zenska :: odmiana where
  "odmiana_zenska = \<lparr>
     separator_dziesiatek = '' '',
     cyfry = [''0'', ''1z'', ''2z'', ''3'', ''4'', ''5'', ''6'', ''7'', ''8'', ''9''],
     cyfry2 = [''0'', ''1'', ''2z'', ''3'', ''4'', ''5'', ''6'', ''7'', ''8'', ''9''],
     setki = ['''', ''100'', ''200'', ''300'', ''400'', ''500'', ''600'', ''700'', ''800'', ''900''],
     dziesiatki = ['''', ''10'', ''20'', ''30'', ''40'', ''50'', ''60'', ''70'', ''80'', ''90''],
     nastki = ['''', ''11'', ''12'', ''13'', ''14'', ''15'', ''16'', ''17'', ''18'', ''19''],
     rzedy = pl_rzedy\<rparr>"

definition odmiana_meska :: odmiana where
  "odmiana_meska = \<lparr>
     separator_dziesiatek = '' '',
     cyfry = [''0'', ''1'', ''2-1m'', ''3-1m'', ''4-1m'', ''5m'', ''6m'', ''7m'', ''8m'', ''9m''],
     cyfry2 = [''0'', ''1'', ''2-2m'', ''3-2m'', ''4-2m'', ''5m'', ''6m'', ''7m'', ''8m'', ''9m''],
     setki = ['''', ''100m'', ''200m'', ''300m'', ''400m'', ''500m'', ''600m'', ''700m'', ''800m'', ''900m''],
     dziesiatki = ['''', ''10m'', ''20m'', ''30m'', ''40m'', ''50m'', ''60m'', ''70m'', ''80m'', ''90m''],
     nastki = ['''', ''11m'', ''12m'', ''13m'', ''14m'', ''15m'', ''16m'', ''17m'', ''18m'', ''19m''],
     rzedy = pl_rzedy\<rparr>"

definition pl_odmiana :: "string option \<Rightarrow> odmiana" where
  "pl_odmiana options =
    (if option_is CHR ''f'' options then odmiana_zenska
     else if option_is CHR ''m'' options then odmiana_meska
     else odmiana_nieosobowa)"

text \<open>An entry of an array of words; outside its bounds the behaviour is undefined.\<close>

definition entry :: "'a list \<Rightarrow> int \<Rightarrow> ('a \<Rightarrow> speech) \<Rightarrow> speech" where
  "entry xs i k = (if 0 \<le> i \<and> i < int (length xs) then k (xs ! nat i) else undefined_behaviour)"

definition pl_odtworz_plik :: "string \<Rightarrow> speech" where
  "pl_odtworz_plik fn = say1 (Word fn) silence"

definition pl_rzad_na_tekst :: "odmiana \<Rightarrow> int \<Rightarrow> int \<Rightarrow> (string \<Rightarrow> speech) \<Rightarrow> speech" where
  "pl_rzad_na_tekst odm i rzad k =
    (if rzad = 0 then k ''''
     else entry (rzedy odm) (rzad - 1) (\<lambda>row.
       if i = 1 then entry row 0 k
       else if (i > 21 \<or> i < 11) \<and> i smod 10 > 1 \<and> i smod 10 < 5 then entry row 1 k
       else entry row 2 k))"

text \<open>
  The words below a hundred; they are joined in a buffer of ten characters when the separator does
  not begin with a space.
\<close>

definition pl_joined :: "odmiana \<Rightarrow> int \<Rightarrow> speech" where
  "pl_joined odm m100 =
    entry (dziesiatki odm) (m100 sdiv 10) (\<lambda>tens. entry (cyfry2 odm) (m100 smod 10) (\<lambda>unit.
      let buf = tens @ separator_dziesiatek odm @ unit
      in if length buf < 10 then pl_odtworz_plik buf else undefined_behaviour))"

definition pl_tens :: "odmiana \<Rightarrow> int \<Rightarrow> int \<Rightarrow> speech" where
  "pl_tens odm m1000 m100 =
    (if m100 > 0 \<and> m100 \<le> 9 then
       (if m1000 > 0 then entry (cyfry2 odm) m100 pl_odtworz_plik
        else entry (cyfry odm) m100 pl_odtworz_plik)
     else if m100 smod 10 = 0 then entry (dziesiatki odm) (m100 sdiv 10) pl_odtworz_plik
     else if m100 \<le> 19 then entry (nastki odm) (m100 smod 10) pl_odtworz_plik
     else if m100 \<noteq> 0 then
       (if take 1 (separator_dziesiatek odm) = '' '' then
          after (entry (dziesiatki odm) (m100 sdiv 10) pl_odtworz_plik)
            (entry (cyfry2 odm) (m100 smod 10) pl_odtworz_plik)
        else pl_joined odm m100)
     else silence)"

lemma abs_sdiv: "0 < k \<Longrightarrow> \<bar>i sdiv k\<bar> = \<bar>i\<bar> div (k :: int)"
  by (cases "i = 0") (simp_all add: signed_divide_int_def abs_mult abs_sgn_eq pos_imp_zdiv_nonneg_iff)

lemma abs_smod: "0 < k \<Longrightarrow> \<bar>i smod k\<bar> = \<bar>i\<bar> mod (k :: int)"
  by (cases "i = 0") (simp_all add: signed_modulo_int_def abs_mult abs_sgn_eq)

lemma abs_sdiv_less: "1 < k \<Longrightarrow> i \<noteq> 0 \<Longrightarrow> \<bar>i sdiv k\<bar> < \<bar>i :: int\<bar>"
  by (simp add: abs_sdiv int_div_less_self)

lemma abs_sdiv_smod_less: "1 < k \<Longrightarrow> 0 < l \<Longrightarrow> i \<noteq> 0 \<Longrightarrow> \<bar>i smod l sdiv k\<bar> < \<bar>i :: int\<bar>"
proof (cases "i smod l = 0")
  case False
  assume "1 < k" "0 < l" "i \<noteq> 0"
  with False have "\<bar>i smod l sdiv k\<bar> < \<bar>i smod l\<bar>" by (intro abs_sdiv_less)
  also have "\<dots> \<le> \<bar>i\<bar>" using \<open>0 < l\<close> by (simp add: abs_smod zmod_le_nonneg_dividend)
  finally show ?thesis .
qed simp

lemma abs_smod_le: "0 < l \<Longrightarrow> \<bar>i smod l\<bar> \<le> \<bar>i :: int\<bar>"
  by (simp add: abs_smod zmod_le_nonneg_dividend)

function powiedz :: "odmiana \<Rightarrow> int \<Rightarrow> int \<Rightarrow> speech" where
  "powiedz odm rzad i =
    (if i = 0 \<and> rzad > 0 then silence
     else if i = 0 then entry (cyfry odm) 0 pl_odtworz_plik
     else
       (let m1000E6 = i smod 1000000000; i1000E6 = i sdiv 1000000000;
            m1000E3 = m1000E6 smod 1000000; i1000E3 = m1000E6 sdiv 1000000;
            m1000 = m1000E3 smod 1000; i1000 = m1000E3 sdiv 1000;
            m100 = m1000 smod 100; i100 = m1000 sdiv 100
        in after (powiedz odm (rzad + 3) i1000E6)
          (after (powiedz odm (rzad + 2) i1000E3)
          (after (powiedz odm (rzad + 1) i1000)
          (after (if i100 > 0 then entry (setki odm) i100 pl_odtworz_plik else silence)
          (after (pl_tens odm m1000 m100)
          (if rzad > 0 then pl_rzad_na_tekst odm i rzad pl_odtworz_plik else silence)))))))"
  by pat_completeness auto
termination
proof (relation "measure (\<lambda>(odm, rzad, i). nat \<bar>i\<bar>)", goal_cases)
  case (2 odm rzad i)
  then show ?case by (auto simp: abs_sdiv_less)
next
  case (3 odm rzad i)
  then show ?case by (auto simp: abs_sdiv_smod_less)
next
  case (4 odm rzad i)
  then have "i \<noteq> 0" by auto
  have "\<bar>i smod 1000000000 smod 1000000 sdiv 1000\<bar> < \<bar>i\<bar>"
  proof (cases "i smod 1000000000 = 0")
    case False
    then show ?thesis
      using abs_sdiv_smod_less [of 1000 1000000 "i smod 1000000000"] abs_smod_le [of 1000000000 i] by simp
  qed (simp add: \<open>i \<noteq> 0\<close>)
  with 4 show ?case by simp
qed simp

definition ast_say_number_full_pl :: "string option \<Rightarrow> int \<Rightarrow> speech" where
  "ast_say_number_full_pl options num = powiedz (pl_odmiana options) 0 num"

section \<open>Russian\<close>

function get_lastdigits_ru :: "int \<Rightarrow> int" where
  "get_lastdigits_ru num =
    (if num < 20 then num
     else if num < 100 then get_lastdigits_ru (num mod 10)
     else if num < 1000 then get_lastdigits_ru (num mod 100)
     else 0)"
  by pat_completeness auto
termination by (relation "measure nat") auto

function ru_loop :: "string option \<Rightarrow> int \<Rightarrow> speech" where
  "ru_loop options num =
    (if num = 0 then silence
     else if num < 0 then say1 (Word ''minus'') (ru_loop options (negated num))
     else if num < 20 then
       say1 (case options of
               Some suffix \<Rightarrow> if length suffix = 1 \<and> num < 3 then Number num suffix else Number num ''''
             | None \<Rightarrow> Number num '''')
         (ru_loop options 0)
     else if num < 100 then say1 (Number (num - num mod 10) '''') (ru_loop options (num mod 10))
     else if num < 1000 then say1 (Number (num - num mod 100) '''') (ru_loop options (num mod 100))
     else if num < 1000000 then
       (let lastdigits = get_lastdigits_ru (num div 1000)
        in after (from_zero (num div 1000)
               (ru_loop (if lastdigits < 3 then Some ''f'' else None) (num div 1000)))
             (say1 (if lastdigits = 1 then Word ''thousand''
                    else if lastdigits > 1 \<and> lastdigits < 5 then Word ''thousands-i''
                    else Word ''thousands'')
               (ru_loop options (num mod 1000))))
     else if num < 1000000000 then
       (let lastdigits = get_lastdigits_ru (num div 1000000)
        in after (from_zero (num div 1000000) (ru_loop None (num div 1000000)))
             (say1 (if lastdigits = 1 then Word ''million''
                    else if lastdigits > 1 \<and> lastdigits < 5 then Word ''million-a''
                    else Word ''millions'')
               (ru_loop options (num mod 1000000))))
     else too_big)"
  by pat_completeness auto
termination by (relation "measure (\<lambda>(g, n). weight n)") (auto simp: weight_simps)

definition ast_say_number_full_ru :: "string option \<Rightarrow> int \<Rightarrow> speech" where
  "ast_say_number_full_ru options num = from_zero num (ru_loop options num)"

declare cz_loop.simps [simp del] powiedz.simps [simp del] get_lastdigits_ru.simps [simp del]
  ru_loop.simps [simp del]

end
