(* ===== verification/SayDeclined.thy ===== *)
theory SayDeclined
  imports Say
begin

text \<open>
  The declension of the words of large numbers: a listener who knows the grammar, the grammars of Czech,
  Russian and Polish, and the rules that put well declined speeches together.
\<close>

section \<open>Declension\<close>

text \<open>
  A listener who knows the grammar: a word for a power of ten from a thousand on must have the form that goes
  with the number it counts, which is what was heard of its group, or one when nothing was. \<open>form k g f\<close>:
  the file \<open>f\<close> is the right form of the word for \<open>k\<close> after the number \<open>g\<close>.
\<close>

definition group_count :: "int \<Rightarrow> int \<Rightarrow> int" where
  "group_count k t = (if t mod k = 0 then 1 else t mod k)"

fun declined :: "(int \<Rightarrow> int \<Rightarrow> sound \<Rightarrow> bool) \<Rightarrow> int \<Rightarrow> sound list \<Rightarrow> bool" where
  "declined form t [] = True"
| "declined form t (f # fs) =
    (case sense f of
       None \<Rightarrow> False
     | Some m \<Rightarrow>
        (case m of Scale k \<Rightarrow> 1000 \<le> k \<longrightarrow> form k (group_count k t) f | _ \<Rightarrow> True)
        \<and> declined form (hear_word m t) fs)"

definition cz_form :: "int \<Rightarrow> int \<Rightarrow> sound \<Rightarrow> bool" where
  "cz_form k g f =
    (case f of Power p e \<Rightarrow> p = (if g = 1 then ''1'' else if g < 5 then ''2-4'' else ''5'') | _ \<Rightarrow> False)"

text \<open>In Russian the teens take the plural of five and more, other numbers the form of their last digit.\<close>

definition ru_form :: "int \<Rightarrow> int \<Rightarrow> sound \<Rightarrow> bool" where
  "ru_form k g f =
    (let one = g mod 10 = 1 \<and> g mod 100 \<noteq> 11; few = g mod 10 \<in> {2, 3, 4} \<and> g mod 100 \<notin> {12, 13, 14}
     in f = Word (if k = 1000 then (if one then ''thousand'' else if few then ''thousands-i'' else ''thousands'')
                  else if one then ''million'' else if few then ''million-a'' else ''millions''))"

text \<open>In Polish only the number one itself takes the singular. The recordings after 112, 113 and 114 (and so on) are
  those of two, three and four, though the language has the plural of five there.\<close>

definition pl_form :: "int \<Rightarrow> int \<Rightarrow> sound \<Rightarrow> bool" where
  "pl_form k g f =
    (f = Word (decimal k @ (if g = 1 then '''' else if g mod 10 \<in> {2, 3, 4} \<and> g \<notin> {12, 13, 14} then ''.2'' else ''.5'')))"

lemma declined_append:
  "meanings fs = Some ms \<Longrightarrow>
    declined form t (fs @ gs) \<longleftrightarrow> declined form t fs \<and> declined form (hear_words ms t) gs"
proof (induction fs arbitrary: t ms)
  case (Cons f fs)
  then obtain m ns where m: "sense f = Some m" "meanings fs = Some ns" "ms = m # ns" by (auto split: option.splits)
  then show ?case using Cons.IH [OF m(2)] by simp
qed simp

text \<open>A speech that says a number in the right forms.\<close>

definition says_well :: "(int \<Rightarrow> int \<Rightarrow> sound \<Rightarrow> bool) \<Rightarrow> int \<Rightarrow> int \<Rightarrow> speech \<Rightarrow> bool" where
  "says_well form k n s \<longleftrightarrow> says k n s \<and> (\<forall>t. k dvd t \<longrightarrow> declined form t (fst s))"

lemma says_well_says: "says_well form k n s \<Longrightarrow> says k n s"
  by (simp add: says_well_def)

lemma says_well_silence [simp]: "says_well form k 0 silence"
  by (simp add: says_well_def)

lemma says_well_mono: "says_well form k n s \<Longrightarrow> k dvd l \<Longrightarrow> says_well form l n s"
  unfolding says_well_def by (metis dvd_trans says_mono)

lemma says_hears:
  "says k n s \<Longrightarrow> \<exists>ms. meanings (fst s) = Some ms \<and> (\<forall>t. k dvd t \<longrightarrow> hear_words ms t = t + n)"
  by (auto simp: says_def dvd_eq_mod_eq_0)

lemma says_well_after:
  assumes s: "says_well form k a s" and r: "says_well form l b r" and l: "l dvd k" "l dvd a"
  shows "says_well form k (a + b) (after s r)"
proof -
  note says = says_well_says [OF s] says_well_says [OF r]
  obtain ms where ms: "meanings (fst s) = Some ms" "\<forall>t. k dvd t \<longrightarrow> hear_words ms t = t + a"
    using says_hears [OF says(1)] by blast
  have "declined form t (fst s @ fst r)" if "k dvd t" for t
  proof -
    have "l dvd t + a" using dvd_trans [OF l(1) that] l(2) by (rule dvd_add)
    then show ?thesis using s r that ms by (simp add: declined_append says_well_def)
  qed
  then show ?thesis using says_after [OF says l] says_ret [OF says(1)] by (simp add: says_well_def)
qed

lemma says_well_scale:
  assumes s: "says_well form l a s" and f: "sense f = Some (Scale k)" "1000 \<le> k \<Longrightarrow> form k a f"
    and r: "says_well form m b r" and d: "l dvd k" "m dvd k" "0 < a" "a < k"
  shows "says_well form k (a * k + b) (after s (say1 f r))"
proof -
  note says = says_well_says [OF s] says_well_says [OF r]
  obtain ms where ms: "meanings (fst s) = Some ms" "\<forall>t. l dvd t \<longrightarrow> hear_words ms t = t + a"
    using says_hears [OF says(1)] by blast
  have "declined form t (fst s @ f # fst r)" if t: "k dvd t" for t
  proof -
    have "l dvd t" by (rule dvd_trans [OF d(1) t])
    moreover have "(t + a) mod k = a" using t d(3,4) by (auto elim!: dvdE)
    then have "group_count k (t + a) = a" using d(3) by (simp add: group_count_def)
    moreover have "hear_word (Scale k) (t + a) = t + a * k" by (rule hear_scale [OF t d(3,4)])
    moreover have "m dvd t + a * k" using dvd_trans [OF d(2) t] d(2) by simp
    ultimately show ?thesis using s r ms f by (simp add: declined_append says_well_def del: hear_word.simps)
  qed
  then show ?thesis
    using says_scale [OF says(1) f(1) says(2) d] says_ret [OF says(1)] by (simp add: says_well_def)
qed

lemma says_well_one_scale:
  assumes f: "sense f = Some (Scale k)" "1000 \<le> k \<Longrightarrow> form k 1 f" and r: "says_well form l b r" and d: "l dvd k"
  shows "says_well form k (k + b) (say1 f r)"
proof -
  have "declined form t (f # fst r)" if t: "k dvd t" for t
  proof -
    have "l dvd t + k" using dvd_trans [OF d t] d by simp
    then show ?thesis using t f r by (auto simp: group_count_def says_well_def dvd_eq_mod_eq_0 [symmetric])
  qed
  then show ?thesis
    using says_one_scale [OF f(1) says_well_says [OF r] d] by (simp add: says_well_def)
qed

lemma says_well_groups:
  assumes "says_well form l (n div k) s" "sense f = Some (Scale k)" "1000 \<le> k \<Longrightarrow> form k (n div k) f"
    and "says_well form m (n mod k) r" "l dvd k" "m dvd k" "k \<le> n" "n < k * k" "0 < k"
  shows "says_well form k n (after s (say1 f r))"
proof -
  have "0 < n div k" using assms(7,9) by (simp add: pos_imp_zdiv_pos_iff)
  from says_well_scale [where form = form and f = f, OF assms(1-6) this div_less_square [OF assms(8,9)]]
  show ?thesis by simp
qed

lemma says_well_add: "sense f = Some (Add c) \<Longrightarrow> says_well form 1 b s \<Longrightarrow> says_well form 1 (c + b) (say1 f s)"
  using says_well_after [of form 1 c "say1 f silence" 1 b s] by (simp add: says_well_def says_def)

lemma says_well_sum: "sense f = Some (Add (n - n mod k)) \<Longrightarrow> says_well form 1 (n mod k) s \<Longrightarrow> says_well form 1 n (say1 f s)"
  using says_well_add [of f "n - n mod k" form "n mod k" s] by simp

lemma says_well_wider:
  "says_well form 1 n s \<Longrightarrow> says_well form 100 n s" "says_well form 100 n s \<Longrightarrow> says_well form 1000 n s"
  "says_well form 1000 n s \<Longrightarrow> says_well form 1000000 n s"
  using says_well_mono [of form 1 n s 100] says_well_mono [of form 100 n s 1000] says_well_mono [of form 1000 n s 1000000]
  by simp_all

lemma says_well_thousands:
  "says_well form 100 (n div 1000) s \<Longrightarrow> says_well form 100 (n mod 1000) r \<Longrightarrow> sense f = Some (Scale 1000) \<Longrightarrow>
    form 1000 (n div 1000) f \<Longrightarrow> 1000 \<le> n \<Longrightarrow> n < 1000000 \<Longrightarrow> says_well form 1000 n (after s (say1 f r))"
  using says_well_groups [of form 100 n 1000 s f 100 r] by simp

lemma says_well_millions:
  "says_well form 1000 (n div 1000000) s \<Longrightarrow> says_well form 1000 (n mod 1000000) r \<Longrightarrow> sense f = Some (Scale 1000000) \<Longrightarrow>
    form 1000000 (n div 1000000) f \<Longrightarrow> 1000000 \<le> n \<Longrightarrow> n < 1000000000000 \<Longrightarrow>
    says_well form 1000000 n (after s (say1 f r))"
  using says_well_groups [of form 1000 n 1000000 s f 1000 r] by simp

lemma says_well_Number [simp]: "says_well form 1 n (say1 (Number n '''') silence)"
  by (simp add: says_well_def)

lemma plain_declined: "plain t fs = Some n \<Longrightarrow> declined form u fs"
  by (induction fs arbitrary: t u) (auto split: option.splits meaning.splits)

lemma all_plainly_says_well: "list_all (plainly f) [i..j] \<Longrightarrow> i \<le> n \<Longrightarrow> n \<le> j \<Longrightarrow> says_well form 1 n (f n)"
proof -
  assume "list_all (plainly f) [i..j]" "i \<le> n" "n \<le> j"
  then have "plainly f n" by (simp add: list_all_iff)
  moreover from this have "plain 0 (fst (f n)) = Some n" by (auto simp: plainly_def split: prod.splits)
  ultimately show ?thesis using plain_declined by (auto simp: says_well_def plainly_says)
qed

text \<open>At the start of a number, and after its sign.\<close>

definition well_spoken :: "(int \<Rightarrow> int \<Rightarrow> sound \<Rightarrow> bool) \<Rightarrow> speech \<Rightarrow> bool" where
  "well_spoken form s \<longleftrightarrow> declined form 0 (fst s)"

lemma says_well_spoken: "says_well form k n s \<Longrightarrow> well_spoken form s"
  by (simp add: says_well_def well_spoken_def)

lemma well_spoken_minus [simp]: "well_spoken form (say1 (Word ''minus'') s) = well_spoken form s"
  by (simp add: well_spoken_def)

lemma well_spoken_simps [simp]: "well_spoken form silence" "well_spoken form too_big"
  "well_spoken form (say1 (Number 0 '''') silence)"
  by (simp_all add: well_spoken_def)

end
