(* ===== verification/SaySlavicProps.thy ===== *)
theory SaySlavicProps
  imports SaySlavic SayDeclined
begin

text \<open>
  What the listener understands of the numbers in Czech, Polish and Russian.
\<close>

section \<open>Czech\<close>

text \<open>Options whose first letter is one the recordings know.\<close>

definition cz_known :: "string \<Rightarrow> bool" where
  "cz_known options \<longleftrightarrow> take 1 options \<in> {'''', ''w'', ''m'', ''n''}"

lemma cz_known_group [simp]: "cz_known options \<Longrightarrow> cz_known (cz_group_options left e options)"
  by (simp add: cz_known_def cz_group_options_def)

lemma cz_done [simp]: "cz_loop options 0 = silence"
  by (simp add: cz_loop.simps [of options 0])

lemma cz_teens_well: "cz_known options \<Longrightarrow> 0 \<le> n \<Longrightarrow> n < 20 \<Longrightarrow> says_well cz_form 1 n (cz_loop options n)"
  by (cases "n = 0", simp, subst cz_loop.simps) (auto simp: cz_known_def says_well_def says_def)

lemma cz_small_well: "cz_known options \<Longrightarrow> 0 \<le> n \<Longrightarrow> n < 100 \<Longrightarrow> says_well cz_form 1 n (cz_loop options n)"
  by (cases "n < 20", simp add: cz_teens_well, subst cz_loop.simps)
     (simp add: minus_div_mult_eq_mod says_well_sum [where k = 10] cz_teens_well minus_mod_eq_div_mult)

lemma cz_hundreds_well: "cz_known options \<Longrightarrow> 0 \<le> n \<Longrightarrow> n < 1000 \<Longrightarrow> says_well cz_form 100 n (cz_loop options n)"
proof (cases "n < 100")
  case False
  assume known: "cz_known options" and n: "0 \<le> n" "n < 1000"
  have r: "says_well cz_form 1 (n mod 100) (cz_loop options (n mod 100))" using known by (simp add: cz_small_well)
  have "says_well cz_form 100 n (say1 f (cz_loop options (n mod 100)))" if "sense f = Some (Add (n div 100 * 100))" for f
    using says_well_wider(1) [OF says_well_sum [of f n 100, OF _ r]] that by (simp add: minus_mod_eq_div_mult)
  moreover have "says_well cz_form 100 n (after (cz_loop options (n div 100)) (say1 f (cz_loop options (n mod 100))))"
    if "sense f = Some (Scale 100)" for f
    using says_well_groups [of cz_form 1 n 100 "cz_loop options (n div 100)" f 1 "cz_loop options (n mod 100)"]
      that r n False known by (simp add: cz_small_well)
  moreover have "0 < n div 100" using False by (simp add: pos_imp_zdiv_pos_iff)
  moreover have "n - m * 100 = n mod 100" if "n div 100 = m" for m
    using that by (auto simp: minus_div_mult_eq_mod)
  from this [of 1] this [of 2] have "n div 100 = 1 \<Longrightarrow> n - 100 = n mod 100" "n div 100 = 2 \<Longrightarrow> n - 200 = n mod 100"
    by simp_all
  ultimately show ?thesis
    using n False by (subst cz_loop.simps) (simp add: Let_def minus_div_mult_eq_mod)
qed (simp add: cz_small_well says_well_wider)

lemma decimal_length_small: "1 \<le> n \<Longrightarrow> n < 1000 \<Longrightarrow> decimal_length n \<in> {1, 2, 3}"
  by (subst decimal_length.simps, subst decimal_length.simps, subst decimal_length.simps) auto

lemma decimal_length_1000: "1000 \<le> n \<Longrightarrow> decimal_length n = decimal_length (n div 1000) + 3"
proof -
  assume n: "1000 \<le> n"
  then have "\<not> n div 10 < 10" by linarith
  moreover from n have "\<not> n div 10 div 10 < 10" by linarith
  moreover have "n div 10 div 10 div 10 = n div 1000" by (simp add: zdiv_zmult2_eq [symmetric])
  ultimately show ?thesis using n
    by (simp add: decimal_length.simps [of n] decimal_length.simps [of "n div 10"]
        decimal_length.simps [of "n div 10 div 10"] del: div_mult2_eq)
qed

lemma group_length_values:
  "group_length 4 = 4" "group_length 5 = 4" "group_length 6 = 4"
  "group_length 7 = 7" "group_length 8 = 7" "group_length 9 = 7"
  "group_length 10 = 10" "group_length 11 = 10" "group_length 12 = 10"
  by (simp_all add: group_length.simps)

lemma cz_exponents:
  "1000 \<le> n \<Longrightarrow> n < 1000000 \<Longrightarrow> cz_exponent n = 3"
  "1000000 \<le> n \<Longrightarrow> n < 1000000000 \<Longrightarrow> cz_exponent n = 6"
  "1000000000 \<le> n \<Longrightarrow> n < 1000000000000 \<Longrightarrow> cz_exponent n = 9"
proof -
  have three: "group_length (d + 3) = 4 \<and> group_length (d + 6) = 7 \<and> group_length (d + 9) = 10"
    if "d \<in> {1, 2, 3}" for d
    using that group_length_values by auto
  show "cz_exponent n = 3" if "1000 \<le> n" "n < 1000000"
    using that three [OF decimal_length_small, of "n div 1000"] decimal_length_1000 [of n]
    by (simp add: cz_exponent_def)
  have six: "decimal_length m = decimal_length (m div 1000000) + 6" if "1000000 \<le> m" for m
  proof -
    have "m div 1000 div 1000 = m div 1000000" by (simp add: zdiv_zmult2_eq [symmetric])
    moreover have "1000 \<le> m div 1000" "1000 \<le> m" using that by simp_all
    ultimately show ?thesis
      using decimal_length_1000 [of m] decimal_length_1000 [of "m div 1000"] by presburger
  qed
  show "cz_exponent n = 6" if "1000000 \<le> n" "n < 1000000000"
    using that three [OF decimal_length_small, of "n div 1000000"] six [of n]
    by (simp add: cz_exponent_def)
  show "cz_exponent n = 9" if "1000000000 \<le> n" "n < 1000000000000"
  proof -
    have "n div 1000000 div 1000 = n div 1000000000" by (simp add: zdiv_zmult2_eq [symmetric])
    moreover have "1000 \<le> n div 1000000" using that by simp
    from decimal_length_1000 [OF this]
    have "decimal_length (n div 1000000) = decimal_length (n div 1000000 div 1000) + 3" .
    moreover have "decimal_length n = decimal_length (n div 1000000) + 6" using that by (intro six) simp
    ultimately have "decimal_length n = decimal_length (n div 1000000000) + 9" by (simp only: add.assoc)
    moreover have "decimal_length (n div 1000000000) \<in> {1, 2, 3}"
      using that by (intro decimal_length_small) simp_all
    ultimately show ?thesis using three [of "decimal_length (n div 1000000000)"] by (simp add: cz_exponent_def)
  qed
qed

lemma cz_group_well:
  assumes known: "cz_known options" and e: "cz_exponent n = int e" "l dvd 10 ^ e" "100 dvd (10 :: int) ^ e"
    and n: "1000 \<le> n" "10 ^ e \<le> n" "n < 1000 * 10 ^ e" "1000 \<le> (10 :: int) ^ e"
    and r: "\<And>options. cz_known options \<Longrightarrow> says_well cz_form l (n mod 10 ^ e) (cz_loop options (n mod 10 ^ e))"
  shows "says_well cz_form (10 ^ e) n (cz_loop options n)"
proof -
  let ?left = "n div 10 ^ e" and ?o = "cz_group_options (n div 10 ^ e) (int e) options"
  have left: "0 < ?left" using n by (simp add: pos_imp_zdiv_pos_iff)
  have "?left * 10 ^ e + n mod 10 ^ e = n" "0 \<le> n mod 10 ^ e" by (rule div_mult_mod_eq) simp
  then have "?left * 10 ^ e \<le> n" by linarith
  then have "?left * 10 ^ e < 1000 * 10 ^ e" using n by linarith
  then have less: "?left < 1000" by simp
  have sense: "sense (cz_power ?left (int e)) = Some (Scale (10 ^ e))" by (simp add: cz_power_def)
  have form: "cz_form (10 ^ e) ?left (cz_power ?left (int e))" using left by (simp add: cz_form_def cz_power_def)
  have eq: "cz_loop options n = after (if ?left > 1 then cz_loop ?o ?left else silence)
      (say1 (cz_power ?left (int e)) (cz_loop ?o (n mod 10 ^ e)))"
    using n left by (subst cz_loop.simps) (simp add: Let_def e exp10_int_power minus_div_mult_eq_mod)
  have known': "cz_known ?o" using known by simp
  show ?thesis
  proof (cases "?left = 1")
    case True
    then have "10 ^ e + n mod 10 ^ e = n" using div_mult_mod_eq [of n "10 ^ e"] by simp
    with says_well_one_scale [OF sense _ r [OF known'] e(2)] form True show ?thesis by (simp add: eq)
  next
    case False
    have "1000 * 10 ^ e \<le> (10 :: int) ^ e * 10 ^ e" using n(4) by simp
    then have "n < 10 ^ e * 10 ^ e" using n(3) by linarith
    with says_well_groups [OF cz_hundreds_well [OF known'] sense form r [OF known'] e(3,2) n(2)] False left less
    show ?thesis by (simp add: eq)
  qed
qed

lemma cz_thousands_well: "cz_known options \<Longrightarrow> 0 \<le> n \<Longrightarrow> n < 1000000 \<Longrightarrow> says_well cz_form 1000 n (cz_loop options n)"
  using cz_group_well [of options n 3 100]
  by (cases "n < 1000") (simp_all add: cz_hundreds_well says_well_wider cz_exponents)

lemma cz_millions_well: "cz_known options \<Longrightarrow> 0 \<le> n \<Longrightarrow> n < 1000000000 \<Longrightarrow> says_well cz_form 1000000 n (cz_loop options n)"
  using cz_group_well [of options n 6 1000]
  by (cases "n < 1000000") (simp_all add: cz_thousands_well says_well_wider cz_exponents)

lemma cz_milliards_well: "cz_known options \<Longrightarrow> 0 \<le> n \<Longrightarrow> n < INT_MAX + 1 \<Longrightarrow> says_well cz_form 1000000000 n (cz_loop options n)"
  using cz_group_well [of options n 9 1000000]
  by (cases "n < 1000000000") (simp_all add: cz_millions_well says_well_mono [of cz_form 1000000] cz_exponents INT_MAX_def)

lemmas cz_millions = cz_millions_well [THEN says_well_says]
lemmas cz_milliards = cz_milliards_well [THEN says_well_says]

section \<open>Russian\<close>

definition ru_known :: "string option \<Rightarrow> bool" where
  "ru_known options = (case options of None \<Rightarrow> True | Some s \<Rightarrow> length s = 1 \<longrightarrow> s \<in> {''f'', ''m'', ''n''})"

lemma ru_done [simp]: "ru_loop options 0 = silence"
  by (simp add: ru_loop.simps [of options 0])

lemma ru_teens_well: "ru_known options \<Longrightarrow> 0 \<le> n \<Longrightarrow> n < 20 \<Longrightarrow> says_well ru_form 1 n (ru_loop options n)"
  by (cases "n = 0", simp, subst ru_loop.simps) (auto simp: ru_known_def says_well_def says_def split: option.splits)

lemma ru_small_well: "ru_known options \<Longrightarrow> 0 \<le> n \<Longrightarrow> n < 100 \<Longrightarrow> says_well ru_form 1 n (ru_loop options n)"
  by (cases "n < 20", simp add: ru_teens_well, subst ru_loop.simps)
     (simp add: says_well_sum [where k = 10] ru_teens_well)

lemma ru_hundreds_well: "ru_known options \<Longrightarrow> 0 \<le> n \<Longrightarrow> n < 1000 \<Longrightarrow> says_well ru_form 1 n (ru_loop options n)"
  by (cases "n < 100", simp add: ru_small_well, subst ru_loop.simps)
     (simp add: says_well_sum [where k = 100] ru_small_well)

lemma ru_known_calls [simp]: "ru_known None" "ru_known (Some ''f'')"
  by (simp_all add: ru_known_def)

text \<open>The words the Russian function chooses by the last digits are the right ones.\<close>

lemma get_lastdigits_value:
  assumes "0 \<le> g" "g < 1000"
  shows "get_lastdigits_ru g = (if g mod 100 < 20 then g mod 100 else g mod 100 mod 10)"
proof -
  have small: "get_lastdigits_ru h = (if h < 20 then h else h mod 10)" if "0 \<le> h" "h < 100" for h
  proof (cases "h < 20")
    case False
    have "h mod 10 < 20" using pos_mod_bound [of 10 h] by linarith
    then have "get_lastdigits_ru (h mod 10) = h mod 10" by (subst get_lastdigits_ru.simps) simp
    then show ?thesis using that False by (subst get_lastdigits_ru.simps) simp
  qed (simp add: get_lastdigits_ru.simps [of h])
  show ?thesis
  proof (cases "g < 100")
    case True
    then have "g mod 100 = g" using assms by simp
    then show ?thesis using small [OF assms(1) True] by simp
  next
    case False
    then have "get_lastdigits_ru g = get_lastdigits_ru (g mod 100)"
      using assms(2) by (subst get_lastdigits_ru.simps) simp
    then show ?thesis using small [of "g mod 100"] by simp
  qed
qed

lemma ru_forms_table:
  "list_all (\<lambda>h. let l = (if h < 20 then h else h mod 10) in
      (l = 1 \<longleftrightarrow> h mod 10 = 1 \<and> h \<noteq> 11) \<and> (1 < l \<and> l < 5 \<longleftrightarrow> h mod 10 \<in> {2, 3, 4} \<and> h \<notin> {12, 13, 14})) [0..99]"
  by code_simp

lemma ru_forms:
  assumes "0 < g" "g < 1000"
  shows "ru_form 1000 g (if get_lastdigits_ru g = 1 then Word ''thousand''
      else if get_lastdigits_ru g > 1 \<and> get_lastdigits_ru g < 5 then Word ''thousands-i'' else Word ''thousands'')"
    and "ru_form 1000000 g (if get_lastdigits_ru g = 1 then Word ''million''
      else if get_lastdigits_ru g > 1 \<and> get_lastdigits_ru g < 5 then Word ''million-a'' else Word ''millions'')"
proof -
  have "g mod 100 \<in> set [0..99]" by simp
  note t = ru_forms_table [unfolded list_all_iff, THEN bspec, OF this, unfolded Let_def]
  have l: "get_lastdigits_ru g = (if g mod 100 < 20 then g mod 100 else g mod 100 mod 10)"
    using assms by (intro get_lastdigits_value) simp_all
  have d: "g mod 100 mod 10 = g mod 10" by (simp add: mod_mod_cancel)
  have one: "get_lastdigits_ru g = 1 \<longleftrightarrow> g mod 10 = 1 \<and> g mod 100 \<noteq> 11"
    and few: "1 < get_lastdigits_ru g \<and> get_lastdigits_ru g < 5 \<longleftrightarrow> g mod 10 \<in> {2, 3, 4} \<and> g mod 100 \<notin> {12, 13, 14}"
    unfolding l using t unfolding d by argo+
  show "ru_form 1000 g (if get_lastdigits_ru g = 1 then Word ''thousand''
      else if get_lastdigits_ru g > 1 \<and> get_lastdigits_ru g < 5 then Word ''thousands-i'' else Word ''thousands'')"
    "ru_form 1000000 g (if get_lastdigits_ru g = 1 then Word ''million''
      else if get_lastdigits_ru g > 1 \<and> get_lastdigits_ru g < 5 then Word ''million-a'' else Word ''millions'')"
    unfolding ru_form_def Let_def one few by simp_all
qed

lemma ru_thousands_well: "ru_known options \<Longrightarrow> 0 \<le> n \<Longrightarrow> n < 1000000 \<Longrightarrow> says_well ru_form 1000 n (ru_loop options n)"
proof (cases "n < 1000")
  case False
  assume n: "ru_known options" "n < 1000000"
  with False have g: "0 < n div 1000" "n div 1000 < 1000" by (simp_all add: pos_imp_zdiv_pos_iff)
  show ?thesis using False n g ru_forms(1) [OF g]
    by (subst ru_loop.simps) (simp add: ru_hundreds_well says_well_wider says_well_thousands Let_def)
qed (simp add: ru_hundreds_well says_well_wider)

lemma ru_millions_well: "ru_known options \<Longrightarrow> 0 \<le> n \<Longrightarrow> n < 1000000000 \<Longrightarrow> says_well ru_form 1000000 n (ru_loop options n)"
proof (cases "n < 1000000")
  case False
  assume n: "ru_known options" "n < 1000000000"
  with False have g: "0 < n div 1000000" "n div 1000000 < 1000" by (simp_all add: pos_imp_zdiv_pos_iff)
  show ?thesis using False n g ru_forms(2) [OF g]
    by (subst ru_loop.simps) (simp add: ru_thousands_well says_well_wider says_well_millions Let_def)
qed (simp add: ru_thousands_well says_well_wider)

lemmas ru_millions = ru_millions_well [THEN says_well_says]

text \<open>Options that start with an unknown letter name files nobody has; the laws are for the others.\<close>

interpretation cz: number_loop "cz_loop (if cz_known options then options else ''w'')" "INT_MAX + 1" for options
proof
  let ?o = "if cz_known options then options else ''w''"
  have known: "cz_known ?o" by (simp add: cz_known_def)
  show "\<exists>k. says k n (cz_loop ?o n)" if "0 < n" "n < INT_MAX + 1" for n
    using cz_milliards [OF known, of n] that by auto
  show "cz_loop ?o n = say1 (Word ''minus'') (cz_loop ?o (negated n))" if "n < 0" for n
    using that by (subst cz_loop.simps) simp
qed simp_all

interpretation ru: number_loop "ru_loop (if ru_known options then options else None)" 1000000000 for options
proof
  let ?o = "if ru_known options then options else None"
  have known: "ru_known ?o" by simp
  show "\<exists>k. says k n (ru_loop ?o n)" if "0 < n" "n < 1000000000" for n
    using ru_millions [OF known, of n] that by auto
  show "ru_loop ?o n = say1 (Word ''minus'') (ru_loop ?o (negated n))" if "n < 0" for n
    using that by (subst ru_loop.simps) simp
  show "ru_loop ?o n = too_big" if "1000000000 \<le> n" for n
    using that by (subst ru_loop.simps) simp
qed simp

section \<open>Polish\<close>

definition pl_odmiany :: "odmiana list" where
  "pl_odmiany = [odmiana_nieosobowa, odmiana_zenska, odmiana_meska]"

lemma pl_odmiana_in: "pl_odmiana options \<in> set pl_odmiany"
  by (simp add: pl_odmiana_def pl_odmiany_def)

lemma pl_tens_table:
  "list_all (plainly (pl_tens odmiana_nieosobowa 1)) [0..99]"
  "list_all (plainly (pl_tens odmiana_zenska 1)) [0..99]"
  "list_all (plainly (pl_tens odmiana_meska 1)) [0..99]"
  by code_simp+

lemma pl_setki_table:
  "list_all (\<lambda>odm. list_all (\<lambda>h. sense (Word (setki odm ! h)) = Some (Add (100 * int h))) [1,2,3,4,5,6,7,8,9]) pl_odmiany"
  "list_all (\<lambda>odm. length (setki odm) = 10) pl_odmiany"
  "list_all (\<lambda>odm. rzedy odm = pl_rzedy) pl_odmiany"
  "list_all (\<lambda>odm. cyfry odm ! 0 = ''0'' \<and> 0 < length (cyfry odm)) pl_odmiany"
  by (simp_all add: pl_odmiany_def odmiana_nieosobowa_def odmiana_zenska_def odmiana_meska_def)

lemma smod_nonneg: "0 \<le> a \<Longrightarrow> 0 < b \<Longrightarrow> a smod b = a mod (b :: int)"
  by (cases "a = 0") (simp_all add: signed_modulo_int_def)

lemma after_assoc: "after (after a b) c = after a (after b c)"
  by (simp add: after_def)

lemma pl_tens_says:
  assumes "odm \<in> set pl_odmiany" "0 \<le> m" "m < 100" "0 < k \<or> m = 0"
  shows "says_well pl_form 1 m (pl_tens odm k m)"
proof -
  have "pl_tens odm k m = pl_tens odm 1 m" using assms(4) by (auto simp: pl_tens_def)
  then show ?thesis
    using pl_tens_table [THEN all_plainly_says_well, of m] assms by (auto simp: pl_odmiany_def)
qed

lemma list_allD: "list_all P xs \<Longrightarrow> x \<in> set xs \<Longrightarrow> P x"
  by (simp add: list_all_iff)

lemma pl_setki_says:
  assumes "odm \<in> set pl_odmiany" "0 \<le> h" "h < 10"
  shows "says_well pl_form 1 (100 * h) (if h > 0 then entry (setki odm) h pl_odtworz_plik else silence)"
proof (cases "0 < h")
  case True
  then have "nat h \<in> set [1,2,3,4,5,6,7,8,9]" using assms(3) by auto
  from list_allD [OF list_allD [OF pl_setki_table(1) assms(1)] this]
  have "sense (Word (setki odm ! nat h)) = Some (Add (100 * h))" using True by simp
  moreover have "length (setki odm) = 10" by (rule list_allD [OF pl_setki_table(2) assms(1)])
  ultimately show ?thesis
    using says_well_add [of "Word (setki odm ! nat h)" "100 * h" pl_form 0 silence] assms True
    by (simp add: entry_def pl_odtworz_plik_def)
qed (use assms in simp)

text \<open>The words of the last three digits, and of a group of three digits with its scale.\<close>

definition pl_group :: "odmiana \<Rightarrow> int \<Rightarrow> speech" where
  "pl_group odm m = after (if m div 100 > 0 then entry (setki odm) (m div 100) pl_odtworz_plik else silence)
     (pl_tens odm m (m mod 100))"

lemma pl_group_says:
  assumes "odm \<in> set pl_odmiany" "0 \<le> m" "m < 1000"
  shows "says_well pl_form 1 m (pl_group odm m)"
proof -
  have "0 \<le> m div 100" "m div 100 < 10" using assms by (simp_all add: pos_imp_zdiv_nonneg_iff)
  note hundreds = pl_setki_says [OF assms(1) this]
  have "says_well pl_form 1 (m mod 100) (pl_tens odm m (m mod 100))"
    by (rule pl_tens_says [OF assms(1)]) (use assms in \<open>auto simp: order_le_less\<close>)
  from says_well_after [OF hundreds this] show ?thesis by (simp add: pl_group_def)
qed

lemma powiedz_zero: "0 < r \<Longrightarrow> powiedz odm r 0 = silence"
  by (simp add: powiedz.simps)

lemma powiedz_group:
  assumes "0 < i" "i < 1000" "0 \<le> r"
  shows "powiedz odm r i = after (pl_group odm i)
    (if r > 0 then pl_rzad_na_tekst odm i r pl_odtworz_plik else silence)"
  using assms by (subst powiedz.simps)
    (simp add: sdiv_nonneg smod_nonneg powiedz_zero pl_group_def after_assoc Let_def)

lemma pl_rzedy_table:
  "list_all (\<lambda>r. length (pl_rzedy ! r) = 3 \<and>
     list_all (\<lambda>j. sense (Word (pl_rzedy ! r ! j)) = Some (Scale (1000 ^ Suc r))) [0, 1, 2]) [0, 1, 2]"
  by (simp add: pl_rzedy_def)

lemma pl_few:
  "0 < i \<Longrightarrow> (i > 21 \<or> i < 11) \<and> i mod 10 > 1 \<and> i mod 10 < 5 \<longleftrightarrow>
     i mod 10 \<in> {2, 3, 4} \<and> i \<notin> {12, 13, 14}" for i :: int
  by (simp, presburger)

lemma pl_forms_table:
  "list_all (\<lambda>r. pl_rzedy ! r = (let d = decimal (1000 ^ Suc r) in [d, d @ ''.2'', d @ ''.5''])) [0, 1, 2]"
  by code_simp

lemma pl_rzad_says:
  assumes "odm \<in> set pl_odmiany" "r \<in> {1, 2, 3}" "0 < i"
  obtains w where "pl_rzad_na_tekst odm i r pl_odtworz_plik = say1 w silence"
    "sense w = Some (Scale (1000 ^ nat r))" "pl_form (1000 ^ nat r) i w"
proof -
  have rzedy: "rzedy odm = pl_rzedy" by (rule list_allD [OF pl_setki_table(3) assms(1)])
  define j where "j = (if i = 1 then 0 else if i mod 10 \<in> {2, 3, 4} \<and> i \<notin> {12, 13, 14} then 1 else 2 :: int)"
  define q where "q = nat (r - 1)"
  have q: "q \<in> set [0, 1, 2]" "r = int q + 1" using assms(2) by (auto simp: q_def)
  have j: "nat j \<in> set [0, 1, 2]" by (simp add: j_def)
  note row = list_allD [OF pl_rzedy_table q(1)]
  have len: "length pl_rzedy = 3" by (simp add: pl_rzedy_def)
  have "i smod 10 = i mod 10" using assms(3) by (simp add: smod_nonneg)
  moreover have "r \<noteq> 0" "0 \<le> r - 1" "r - 1 < 3" "nat (r - 1) = q" using assms(2) by (auto simp: q_def)
  ultimately have "pl_rzad_na_tekst odm i r pl_odtworz_plik =
      (if i = 1 then entry (pl_rzedy ! q) 0 pl_odtworz_plik
       else if i mod 10 \<in> {2, 3, 4} \<and> i \<notin> {12, 13, 14} then entry (pl_rzedy ! q) 1 pl_odtworz_plik
       else entry (pl_rzedy ! q) 2 pl_odtworz_plik)"
    unfolding pl_rzad_na_tekst_def rzedy entry_def [of pl_rzedy] len pl_few [OF assms(3), symmetric] by auto
  also have "\<dots> = entry (pl_rzedy ! q) j pl_odtworz_plik" by (auto simp: j_def)
  also have "\<dots> = say1 (Word (pl_rzedy ! q ! nat j)) silence"
    unfolding entry_def pl_odtworz_plik_def using conjunct1 [OF row] by (simp add: j_def)
  finally have "pl_rzad_na_tekst odm i r pl_odtworz_plik = say1 (Word (pl_rzedy ! q ! nat j)) silence" .
  moreover have "pl_form (1000 ^ nat r) i (Word (pl_rzedy ! q ! nat j))"
    using list_allD [OF pl_forms_table q(1)] q(2) by (simp add: pl_form_def j_def Let_def nat_add_distrib)
  ultimately show thesis
    using that [of "Word (pl_rzedy ! q ! nat j)"] list_allD [OF conjunct2 [OF row] j] q(2) by (simp add: nat_add_distrib)
qed

lemma powiedz_says:
  assumes odm: "odm \<in> set pl_odmiany" and i: "0 \<le> i" "i < 1000" and r: "r \<in> {1, 2, 3}"
  shows "says_well pl_form (1000 ^ nat r) (i * 1000 ^ nat r) (powiedz odm r i)"
proof (cases "i = 0")
  case True
  then show ?thesis using r by (auto simp: powiedz_zero)
next
  case False
  then have "0 < i" using i by simp
  obtain w where w: "pl_rzad_na_tekst odm i r pl_odtworz_plik = say1 w silence"
    "sense w = Some (Scale (1000 ^ nat r))" "pl_form (1000 ^ nat r) i w" using pl_rzad_says [OF odm r \<open>0 < i\<close>] .
  have k: "i < 1000 ^ nat r" using r i by auto
  have "powiedz odm r i = after (pl_group odm i) (say1 w silence)"
    using powiedz_group [of i r odm] \<open>0 < i\<close> i r w(1) by auto
  with says_well_scale [OF pl_group_says [OF odm i] w(2,3) says_well_silence [of pl_form 1] _ _ \<open>0 < i\<close> k] show ?thesis
    by simp
qed

lemma powiedz_top:
  assumes "0 < n"
  shows "powiedz odm 0 n =
    after (powiedz odm 3 (n div 1000000000)) (after (powiedz odm 2 (n mod 1000000000 div 1000000))
      (after (powiedz odm 1 (n mod 1000000000 mod 1000000 div 1000))
        (pl_group odm (n mod 1000000000 mod 1000000 mod 1000))))"
proof -
  have tail: "after x silence = x" for x by (cases x) (simp add: after_def)
  have quot: "n sdiv 1000000000 = n div 1000000000" and rest: "n smod 1000000000 = n mod 1000000000"
    using assms by (simp_all add: sdiv_nonneg smod_nonneg)
  have m: "m sdiv k = m div k" "m smod k = m mod k" if "0 \<le> m" "0 < k" for m k :: int
    using that by (simp_all add: sdiv_nonneg smod_nonneg)
  have "0 \<le> n mod 1000000000" "0 \<le> n mod 1000000000 mod 1000000" "0 \<le> n mod 1000000000 mod 1000000 mod 1000"
    by simp_all
  note pos = this [THEN m(1)] this [THEN m(2)]
  have nz: "n \<noteq> 0" using assms by simp
  show ?thesis
    by (subst powiedz.simps) (simp only: Let_def quot rest pos pl_group_def tail if_False nz
      less_irrefl simp_thms zero_less_numeral add_0)
qed

lemma powiedz_number_well:
  assumes odm: "odm \<in> set pl_odmiany" and n: "0 < n" "n < INT_MAX + 1"
  shows "says_well pl_form 1000000000 n (powiedz odm 0 n)"
proof -
  let ?a = "n div 1000000000" and ?m6 = "n mod 1000000000"
  let ?b = "?m6 div 1000000" and ?m3 = "?m6 mod 1000000"
  let ?c = "?m3 div 1000" and ?d = "?m3 mod 1000"
  have a: "says_well pl_form 1000000000 (?a * 1000000000) (powiedz odm 3 ?a)"
    using powiedz_says [OF odm, of ?a 3] n by (simp add: INT_MAX_def pos_imp_zdiv_nonneg_iff)
  have b: "says_well pl_form 1000000 (?b * 1000000) (powiedz odm 2 ?b)"
    using powiedz_says [OF odm, of ?b 2] by (simp add: pos_imp_zdiv_nonneg_iff)
  have c: "says_well pl_form 1000 (?c * 1000) (powiedz odm 1 ?c)"
    using powiedz_says [OF odm, of ?c 1] by (simp add: pos_imp_zdiv_nonneg_iff)
  have d: "says_well pl_form 1 ?d (pl_group odm ?d)" by (rule pl_group_says [OF odm]) simp_all
  have "says_well pl_form 1000000000 (?a * 1000000000 + (?b * 1000000 + (?c * 1000 + ?d))) (powiedz odm 0 n)"
    unfolding powiedz_top [OF n(1)]
    by (rule says_well_after [OF a says_well_after [OF b says_well_after [OF c d]]]) simp_all
  moreover have "?a * 1000000000 + ?m6 = n" "?b * 1000000 + ?m3 = ?m6" "?c * 1000 + ?d = ?m3"
    by (rule div_mult_mod_eq)+
  ultimately show ?thesis by simp
qed

lemmas powiedz_number = powiedz_number_well [THEN says_well_says]

text \<open>A Polish speech ends with 0 or undefined, whatever the number.\<close>

definition settled :: "speech \<Rightarrow> bool" where
  "settled s \<longleftrightarrow> snd s \<in> {Ret 0, Undefined}"

lemma settled_simps [simp]: "settled silence" "settled undefined_behaviour" "settled (pl_odtworz_plik f)"
  by (simp_all add: settled_def pl_odtworz_plik_def)

lemma settled_after [intro]: "settled r \<Longrightarrow> settled s \<Longrightarrow> settled (after r s)"
  by (auto simp: settled_def after_def)

lemma after_undefined: "settled r \<Longrightarrow> snd s = Undefined \<Longrightarrow> snd (after r s) = Undefined"
  by (auto simp: settled_def after_def)

lemma settled_entry [intro]: "(\<And>x. settled (k x)) \<Longrightarrow> settled (entry xs i k)"
  by (simp add: entry_def)

lemma settled_pl_tens [simp]: "settled (pl_tens odm m1000 m100)"
  by (auto simp: pl_tens_def pl_joined_def Let_def intro!: settled_after settled_entry)

lemma settled_pl_rzad [simp]: "settled (pl_rzad_na_tekst odm i r pl_odtworz_plik)"
  by (auto simp: pl_rzad_na_tekst_def intro!: settled_entry)

lemma settled_powiedz: "settled (powiedz odm r i)"
proof (induction odm r i rule: powiedz.induct)
  case (1 odm r i)
  show ?case
    by (subst powiedz.simps) (auto simp: Let_def intro!: 1 settled_after)
qed


lemma powiedz_negative:
  assumes "i < 0" "i smod 10 \<noteq> 0"
  shows "snd (powiedz odm r i) = Undefined"
proof -
  define m where "m = i smod 1000000000 smod 1000000 smod 1000 smod 100"
  have neg: "a smod k = - (- a mod k)" if "a \<le> 0" "0 < k" for a k :: int
    using that by (cases "a = 0") (simp_all add: signed_modulo_int_def)
  have rest: "a smod k \<le> 0" if "a \<le> 0" "0 < k" for a k :: int
    using that by (simp add: neg)
  have le: "m \<le> 0" unfolding m_def using assms(1) by (intro rest) simp_all
  have digit: "m smod 10 = i smod 10"
  proof -
    have step: "a smod k smod 10 = a smod 10" if "a \<le> 0" "0 < k" "10 dvd k" for a k :: int
      using that neg [of a k] neg [of "a smod k" 10] neg [of a 10] rest [of a k] by (simp add: mod_mod_cancel)
    have "i \<le> 0" using assms(1) by simp
    then show ?thesis unfolding m_def by (simp add: step rest)
  qed
  then have "m smod 10 < 0" using assms(2) rest [of m 10] le by simp
  moreover from this have "m \<noteq> 0" by auto
  ultimately have "snd (after (pl_tens odm k m) s) = Undefined" for k s
    using le by (simp add: pl_tens_def entry_def after_def)
  then show ?thesis
    using assms(1) by (subst powiedz.simps)
      (simp add: Let_def m_def [symmetric] settled_powiedz after_undefined settled_entry)
qed

section \<open>The properties\<close>

lemma say_number_czech_russian:
  fixes n :: "32 word"
  shows "(options = None \<or> cz_known (the options) \<longrightarrow>
      spoken_ok (INT_MAX + 1) (sint n) (ast_say_number_full_cz options (sint n)))
    \<and> (ru_known options \<longrightarrow> spoken_ok 1000000000 (sint n) (ast_say_number_full_ru options (sint n)))"
proof -
  have w: "cz_known ''w''" by (simp add: cz_known_def)
  show ?thesis
    using cz.spoken_all [OF int_range, of n "case options of None \<Rightarrow> ''w'' | Some o' \<Rightarrow> o'"]
      ru.spoken_all [OF int_range, of n options] w
    by (auto simp: ast_say_number_full_cz_def ast_say_number_full_ru_def INT_MAX_def split: option.splits)
qed

lemma cz_well_spoken:
  assumes "cz_known options" "INT_MIN \<le> n" "n \<le> INT_MAX"
  shows "well_spoken cz_form (from_zero n (cz_loop options n))"
proof -
  have pos: "well_spoken cz_form (cz_loop options m)" if "0 \<le> m" "m \<le> INT_MAX" for m
    using says_well_spoken [OF cz_milliards_well [OF assms(1)]] that by simp
  consider "n = 0" | "0 < n" | "n < 0" by linarith
  then show ?thesis
  proof cases
    case 3
    then have "cz_loop options n = say1 (Word ''minus'') (cz_loop options (negated n))" by (subst cz_loop.simps) simp
    moreover have "0 \<le> negated n" "negated n \<le> INT_MAX" using 3 by (auto simp: negated_def INT_MIN_def INT_MAX_def)
    ultimately show ?thesis using 3 pos by simp
  qed (use pos assms(3) in simp_all)
qed

lemma ru_well_spoken:
  assumes "ru_known options" "INT_MIN \<le> n" "n \<le> INT_MAX"
  shows "well_spoken ru_form (from_zero n (ru_loop options n))"
proof -
  have pos: "well_spoken ru_form (ru_loop options m)" if "0 \<le> m" for m
  proof (cases "m < 1000000000")
    case False
    then have "ru_loop options m = too_big" by (subst ru_loop.simps) simp
    then show ?thesis by simp
  qed (use says_well_spoken [OF ru_millions_well [OF assms(1) that]] in simp)
  consider "n = 0" | "0 < n" | "n < 0" by linarith
  then show ?thesis
  proof cases
    case 3
    then have "ru_loop options n = say1 (Word ''minus'') (ru_loop options (negated n))" by (subst ru_loop.simps) simp
    moreover have "0 \<le> negated n" using 3 by (auto simp: negated_def)
    ultimately show ?thesis using 3 pos by simp
  qed (use pos in simp_all)
qed

lemma pl_number:
  fixes n :: "32 word"
  assumes "0 \<le> sint n"
  shows "\<exists>k. says_well pl_form k (sint n) (ast_say_number_full_pl options (sint n))"
proof (cases "sint n = 0")
  case True
  have "cyfry (pl_odmiana options) ! 0 = ''0'' \<and> 0 < length (cyfry (pl_odmiana options))"
    by (rule list_allD [OF pl_setki_table(4) pl_odmiana_in])
  then have "says_well pl_form 1 0 (powiedz (pl_odmiana options) 0 0)"
    by (simp add: powiedz.simps entry_def pl_odtworz_plik_def says_well_def says_def)
  with True show ?thesis by (auto simp: ast_say_number_full_pl_def)
next
  case False
  with assms int_range(2) [of n] powiedz_number_well [OF pl_odmiana_in, of "sint n"] show ?thesis
    by (auto simp: ast_say_number_full_pl_def)
qed

lemma say_number_polish:
  fixes n :: "32 word"
  shows "(0 \<le> sint n \<longrightarrow> snd (ast_say_number_full_pl options (sint n)) = Ret 0
      \<and> understood (fst (ast_say_number_full_pl options (sint n))) = Some (sint n)
      \<and> well_spoken pl_form (ast_say_number_full_pl options (sint n)))
    \<and> (sint n < 0 \<and> sint n smod 10 \<noteq> 0 \<longrightarrow> snd (ast_say_number_full_pl options (sint n)) = Undefined)"
proof (intro conjI impI)
  assume "sint n < 0 \<and> sint n smod 10 \<noteq> 0"
  then show "snd (ast_say_number_full_pl options (sint n)) = Undefined"
    by (simp add: ast_say_number_full_pl_def powiedz_negative)
next
  assume "0 \<le> sint n"
  then obtain k where k: "says_well pl_form k (sint n) (ast_say_number_full_pl options (sint n))" using pl_number by blast
  from says_understood [OF says_well_says [OF k]] says_well_spoken [OF k]
  show "snd (ast_say_number_full_pl options (sint n)) = Ret 0"
    "understood (fst (ast_say_number_full_pl options (sint n))) = Some (sint n)"
    "well_spoken pl_form (ast_say_number_full_pl options (sint n))"
    by auto
qed

text \<open>C23. Czech, Russian and Polish: with options the recordings know, the files played name the number, and each
  group's power of ten stands in the form that goes with the number of the group: in Czech that of one, of two to
  four, or of five and more; in Russian by the last digit but for the teens; in Polish the same, but the singular for
  one only, and with the form of two to four after 112 to 114 as well (and so on), where the language has the other.
  Czech says every int but the least, Russian refuses a thousand million and more. Polish names every
  number that is not negative, in every gender; a negative one
  whose last digit is not zero makes the function read an array of words at a negative index.\<close>

theorem say_number_slavic:
  fixes n :: "32 word"
  shows "(options = None \<or> cz_known (the options) \<longrightarrow>
      spoken_ok (INT_MAX + 1) (sint n) (ast_say_number_full_cz options (sint n))
      \<and> well_spoken cz_form (ast_say_number_full_cz options (sint n)))
    \<and> (ru_known options \<longrightarrow> spoken_ok 1000000000 (sint n) (ast_say_number_full_ru options (sint n))
      \<and> well_spoken ru_form (ast_say_number_full_ru options (sint n)))
    \<and> (0 \<le> sint n \<longrightarrow> snd (ast_say_number_full_pl options (sint n)) = Ret 0
      \<and> understood (fst (ast_say_number_full_pl options (sint n))) = Some (sint n)
      \<and> well_spoken pl_form (ast_say_number_full_pl options (sint n)))
    \<and> (sint n < 0 \<and> sint n smod 10 \<noteq> 0 \<longrightarrow> snd (ast_say_number_full_pl options (sint n)) = Undefined)"
proof -
  have "well_spoken cz_form (ast_say_number_full_cz options (sint n))" if "options = None \<or> cz_known (the options)"
    using that cz_well_spoken [OF _ int_range] by (auto simp: ast_say_number_full_cz_def cz_known_def split: option.split)
  moreover have "well_spoken ru_form (ast_say_number_full_ru options (sint n))" if "ru_known options"
    using ru_well_spoken [OF that int_range] by (simp add: ast_say_number_full_ru_def)
  ultimately show ?thesis using say_number_czech_russian [of options n] say_number_polish [of n options] by blast
qed

theorem say_number_slavic_witness:
  "spoken_ok (INT_MAX + 1) 2001 (ast_say_number_full_cz (Some ''m'') 2001)
    \<and> well_spoken cz_form (ast_say_number_full_cz (Some ''m'') 2001)
    \<and> spoken_ok 1000000000 2001 (ast_say_number_full_ru None 2001)
    \<and> understood (fst (ast_say_number_full_pl (Some ''m'') 2022)) = Some 2022
    \<and> snd (ast_say_number_full_pl None (-5)) = Undefined"
  using say_number_slavic [of "Some ''m''" 2001] say_number_slavic [of None 2001]
    say_number_slavic [of "Some ''m''" 2022] say_number_slavic [of None "-5"]
  by (simp add: cz_known_def)

end
