(* ===== verification/SayEastern.thy ===== *)
theory SayEastern
  imports Say
begin

text \<open>
  The number functions of main/say.c for Hebrew, Chinese (Taiwan) and Greek.
\<close>

section \<open>Hebrew\<close>

text \<open>
  The loop remembers in \<open>state\<close> which second file follows (2: the word and, whose form depends on
  the next number; 3: thousand) and in \<open>fn\<close> the file of the last turn, which a turn that sets no
  file plays again.
\<close>

definition he_and :: "bool \<Rightarrow> int \<Rightarrow> sound \<Rightarrow> sound" where
  "he_and masculine num fn =
    (if num \<ge> 11 \<and> num < 21 then (if masculine then Word ''uu'' else Word ''ve'')
     else if num = 1 \<or> num = 4 \<or> num = 5 \<or> num = 6 \<or> num = 7 \<or> num = 9 \<or> num = 10 then Word ''ve''
     else if num = 2 \<or> num = 8 then Word ''uu''
     else if num = 3 then (if masculine then Word ''uu'' else Word ''ve'')
     else fn)"

definition he_state :: "int \<Rightarrow> int" where
  "he_state num = (if num > 0 \<and> num < 11 then 2 else 0)"

function he_loop :: "bool \<Rightarrow> sound \<Rightarrow> int \<Rightarrow> int \<Rightarrow> speech" where
  "he_loop masculine fn state num =
    (if num = 0 \<and> \<not> state > 0 then silence
     else if state = 1 then say1 fn (he_loop masculine fn 0 num)
     else if state = 2 then
       (let f = he_and masculine num fn in say1 f (he_loop masculine f 0 num))
     else if state = 3 then (let f = Number 1 ''k'' in say1 f (he_loop masculine f 0 num))
     else if num < 0 then
       (if num = INT_MIN then undefined_behaviour
        else let f = Word ''minus'' in say1 f (he_loop masculine f 0 ((-1) * num)))
     else if num < 20 then
       (let f = Number num (if masculine then ''m'' else '''') in say1 f (he_loop masculine f 0 0))
     else if num < 100 then
       (let f = Number (num div 10 * 10) ''''; num' = num mod 10
        in say1 f (he_loop masculine f (if num' > 0 then 2 else 0) num'))
     else if num < 1000 then
       (let tmpnum = num div 100; f = Number tmpnum ''00''; num' = num - tmpnum * 100
        in say1 f (he_loop masculine f (he_state num') num'))
     else if num < 10000 then
       (let tmpnum = num div 1000; f = Number tmpnum ''k''; num' = num - tmpnum * 1000
        in say1 f (he_loop masculine f (he_state num') num'))
     else if num < 20000 then
       (let f = Number (num div 1000) ''m'' in say1 f (he_loop masculine f 3 (num mod 1000)))
     else if num < 1000000 then
       (let f = Number 1 ''k''; num' = num mod 1000
        in after (from_zero (num div 1000) (he_loop True (File '''') 0 (num div 1000)))
             (say1 f (he_loop masculine f (he_state num') num')))
     else if num < 2000000 then
       (let f = Word ''million''; num' = num mod 1000000
        in say1 f (he_loop masculine f (he_state num') num'))
     else if num < 3000000 then
       (let f = Word ''twomillion''; num' = num - 2000000
        in say1 f (he_loop masculine f (he_state num') num'))
     else if num < 1000000000 then
       (let f = Word ''million''; num' = num mod 1000000
        in after (from_zero (num div 1000000) (he_loop True (File '''') 0 (num div 1000000)))
             (say1 f (he_loop masculine f (he_state num') num')))
     else too_big)"
  by pat_completeness auto
termination
  by (relation "measure (\<lambda>(g, f, s, n). weight n + (if s > 0 then 1 else 0))")
     (auto simp: weight_simps weight_minus_one weight_0 he_state_def)

definition ast_say_number_full_he :: "string option \<Rightarrow> int \<Rightarrow> speech" where
  "ast_say_number_full_he options num =
     from_zero num (he_loop (option_is CHR ''m'' options) (File '''') 0 num)"

section \<open>Chinese\<close>

text \<open>
  \<open>last_length\<close> is the length of the number before the last group was taken off; a number more
  than one digit shorter is preceded by a zero. The difference is of the type \<open>size_t\<close>, of 64 bits.
\<close>

definition digits_of :: "int \<Rightarrow> int" where
  "digits_of num = int (length (decimal num))"

definition tw_gap :: "int \<Rightarrow> int \<Rightarrow> bool" where
  "tw_gap last_length num = ((last_length - digits_of num) mod 2 ^ 64 > 1 \<and> last_length \<noteq> 0)"

lemma tw_gap_0 [simp]: "\<not> tw_gap 0 num"
  by (simp add: tw_gap_def)

definition tw_flags :: "int \<Rightarrow> bool \<Rightarrow> bool \<Rightarrow> bool \<Rightarrow> nat" where
  "tw_flags l h t z = of_bool h + of_bool t + (if z then 1 else if l \<noteq> 0 then 2 else 0)"

lemma tw_smaller:
  "0 \<le> m \<Longrightarrow> m < n \<Longrightarrow> 4 * weight m + tw_flags l h t z < 4 * weight n + tw_flags l' h' t' z'"
proof -
  assume "0 \<le> m" "m < n"
  then have "weight m + 4 \<le> weight n" by (auto simp: weight_def)
  moreover have "tw_flags l h t z \<le> 4" by (simp add: tw_flags_def)
  ultimately show ?thesis by linarith
qed

lemma tw_fewer:
  "tw_flags 0 h t False < tw_flags l h t True"
  "tw_flags l False t z < tw_flags l True t z"
  "tw_flags l h False z < tw_flags l h True z"
  "l \<noteq> 0 \<Longrightarrow> tw_flags l' h t True < tw_flags l h t False"
  by (simp_all add: tw_flags_def)

lemma tw_gap_nonzero: "tw_gap l n \<Longrightarrow> l \<noteq> 0"
  by (simp add: tw_gap_def)

function tw_loop :: "int \<Rightarrow> bool \<Rightarrow> bool \<Rightarrow> bool \<Rightarrow> int \<Rightarrow> speech" where
  "tw_loop last_length playh playt playz num =
    (if num = 0 \<and> \<not> playh \<and> \<not> playt \<and> \<not> playz then silence
     else if num < 0 then say1 (Word ''minus'') (tw_loop last_length playh playt playz (negated num))
     else if playz then say1 (Number 0 '''') (tw_loop 0 playh playt False num)
     else if playh then say1 (Word ''hundred'') (tw_loop last_length False playt False num)
     else if playt then say1 (Word ''thousand'') (tw_loop last_length False False False num)
     else if num < 10 then
       (if tw_gap last_length num then tw_loop (digits_of num) False False True num
        else say1 (Number num '''') (tw_loop last_length False False False 0))
     else if num < 100 then
       (if tw_gap last_length num then tw_loop (digits_of num) False False True num
        else say1 (Number (num div 10 * 10) '''')
          (tw_loop (digits_of num) False False False (num - num div 10 * 10)))
     else if num < 1000 then
       (if tw_gap last_length num then tw_loop (digits_of num) False False True num
        else say1 (Number (num div 100) '''')
          (tw_loop (digits_of num) True False False (num - num div 100 * 100)))
     else if num < 10000 then
       (if tw_gap last_length num \<and> last_length mod digits_of num > 0
        then tw_loop (digits_of num) False False True num
        else say1 (Number (num div 1000) '''')
          (tw_loop (digits_of num) False True False (num - num div 1000 * 1000)))
     else if num < 100000000 then
       after (from_zero (num div 10000) (tw_loop 0 False False False (num div 10000)))
         (if num div 100000 = 0 then undefined_behaviour
          else say1 (Word ''wan'')
            (tw_loop (digits_of num) False False (num div 10000 mod (num div 100000) = 0)
              (num - num div 10000 * 10000)))
     else if num < 1000000000 then
       after (from_zero (num div 100000000) (tw_loop 0 False False False (num div 100000000)))
         (say1 (Word ''yi'')
           (tw_loop (digits_of num) False False False (num - num div 100000000 * 100000000)))
     else too_big)"
  by pat_completeness auto
termination
  by (relation "measure (\<lambda>(l, h, t, z, n). 4 * weight n + tw_flags l h t z)")
     (auto simp: tw_smaller tw_fewer weight_negated weight_0 dest: tw_gap_nonzero)

definition ast_say_number_full_tw :: "int \<Rightarrow> speech" where
  "ast_say_number_full_tw num = from_zero num (tw_loop 0 False False False num)"

section \<open>Greek\<close>

text \<open>
  Zero is streamed without looking whether the file exists: a missing file is an error. There is no
  case for negative numbers: they are below 13 and named in decimal.
\<close>

definition gr_from_zero :: "int \<Rightarrow> speech \<Rightarrow> speech" where
  "gr_from_zero num s = (if num = 0 then say1 (Required ''digits/0'') silence else s)"

function gr_loop :: "int \<Rightarrow> speech" where
  "gr_loop num =
    (if num = 0 then silence
     else if num < 13 then say1 (Number num '''') (gr_loop 0)
     else if num \<le> 100 then
       say1 (Number (num div 10 * 10) '''') (gr_loop (num - num div 10 * 10))
     else if num < 200 then say1 (Word ''hundred-100'') (gr_loop (num - num div 100 * 100))
     else if num < 1000 then
       say1 (Word (''hundred-'' @ decimal (num div 100 * 100))) (gr_loop (num - num div 100 * 100))
     else if num < 2000 then say1 (Word ''xilia'') (gr_loop (num - num div 1000 * 1000))
     else if num < 1000000 then
       after (gr_from_zero (num div 1000) (gr_loop (num div 1000)))
         (say1 (Word ''thousands'') (gr_loop (num mod 1000)))
     else if num < 1000000000 then
       after (gr_from_zero (num div 1000000) (gr_loop (num div 1000000)))
         (say1 (Word ''millions'') (gr_loop (num mod 1000000)))
     else too_big)"
  by pat_completeness auto
termination by (relation "measure weight") (auto simp: weight_def)

definition ast_say_number_full_gr :: "int \<Rightarrow> speech" where
  "ast_say_number_full_gr num = gr_from_zero num (gr_loop num)"

declare he_loop.simps [simp del] tw_loop.simps [simp del] gr_loop.simps [simp del]

end
