(* ===== verification/SayEasternProps.thy ===== *)
theory SayEasternProps
  imports SayEastern
begin

text \<open>
  What the listener understands of the numbers in Hebrew, Chinese and Greek.
\<close>

section \<open>Hebrew\<close>

lemma he_tens:
  "list_all (plainly (he_loop False (File '''') 0)) [1..99]"
  "list_all (plainly (he_loop True (File '''') 0)) [1..99]"
  by code_simp+

lemma he_done [simp]: "he_loop m fn 0 0 = silence"
  by (simp add: he_loop.simps [of m fn 0 0])

text \<open>A turn that begins with state 0 does not look at the file of the turn before.\<close>

lemma he_fn: "he_loop m fn 0 n = he_loop m (File '''') 0 n"
  by (subst (1 2) he_loop.simps) (simp add: Let_def)

lemma he_small: "0 \<le> n \<Longrightarrow> n < 100 \<Longrightarrow> says 1 n (he_loop m fn 0 n)"
  using he_tens [THEN all_plainly_says, of n]
  by (subst he_fn) (cases "n = 0"; cases m; simp)

lemma he_and_says: "1 \<le> n \<Longrightarrow> n \<le> 10 \<Longrightarrow> sense (he_and m n fn) = Some Pause"
  by (simp add: he_and_def) presburger

lemma he_state_says:
  assumes "0 \<le> n" "says k n (he_loop m (File '''') 0 n)"
  shows "says k n (he_loop m fn (he_state n) n)"
proof (cases "0 < n \<and> n < 11")
  case True
  then have "he_loop m fn (he_state n) n = say1 (he_and m n fn) (he_loop m (he_and m n fn) 0 n)"
    by (subst he_loop.simps) (simp add: he_state_def Let_def)
  with assms True show ?thesis
    by (simp add: says_pause he_and_says he_fn [of m "he_and m n fn"])
next
  case False
  then have "he_state n = 0" by (simp add: he_state_def)
  with assms show ?thesis by (simp add: he_fn [of m fn])
qed

lemma he_hundreds: "0 \<le> n \<Longrightarrow> n < 1000 \<Longrightarrow> says 1 n (he_loop m fn 0 n)"
proof (cases "n < 100")
  case False
  assume n: "0 \<le> n" "n < 1000"
  have "says 1 (n div 100 * 100 + n mod 100)
      (say1 (Number (n div 100) ''00'') (he_loop m f (he_state (n mod 100)) (n mod 100)))" for f
    by (intro says_add he_state_says he_small) simp_all
  with n False show ?thesis
    by (subst he_loop.simps) (simp add: Let_def minus_div_mult_eq_mod)
qed (simp add: he_small)

lemma he_thousands: "0 \<le> n \<Longrightarrow> n < 1000000 \<Longrightarrow> says 1000 n (he_loop m fn 0 n)"
proof -
  assume n: "0 \<le> n" "n < 1000000"
  let ?r = "\<lambda>f. he_loop m f (he_state (n mod 1000)) (n mod 1000)"
  have rest: "says 1 (n mod 1000) (?r f)" for f by (intro he_state_says he_hundreds) simp_all
  consider "n < 1000" | "1000 \<le> n" "n < 10000" | "10000 \<le> n" "n < 20000" | "20000 \<le> n" by linarith
  then show ?thesis
  proof cases
    case 1 then show ?thesis using n he_hundreds says_wider by blast
  next
    case 2
    have "says 1000 n (say1 (Number (n div 1000) ''k'') (?r f))" for f
    proof (cases "n div 1000 = 1")
      case True
      from says_one_scale [OF _ rest, of "Number 1 ''k''" 1000 f] True show ?thesis
        using div_mult_mod_eq [of n 1000] by simp
    next
      case False
      then have "sense (Number (n div 1000) ''k'') = Some (Add (n div 1000 * 1000))" by simp
      from says_wider(2) [OF says_wider(1) [OF says_add [OF this rest]]] show ?thesis by simp
    qed
    with 2 show ?thesis by (subst he_loop.simps) (simp add: Let_def minus_div_mult_eq_mod)
  next
    case 3
    have "he_loop m fn 0 n = after (say1 (Number (n div 1000) ''m'') silence)
        (say1 (Number 1 ''k'') (he_loop m (Number 1 ''k'') 0 (n mod 1000)))"
      using 3 by (subst he_loop.simps) (simp add: he_loop.simps [of m "Number (n div 1000) ''m''" 3] Let_def)
    moreover have "says 100 (n div 1000) (say1 (Number (n div 1000) ''m'') silence)" by (simp add: says_def)
    ultimately show ?thesis
      using 3 by (simp add: says_thousands he_hundreds says_wider del: after_say1)
  next
    case 4
    with n show ?thesis
      by (subst he_loop.simps) (simp add: Let_def says_thousands he_hundreds rest says_wider)
  qed
qed

lemma he_millions: "0 \<le> n \<Longrightarrow> n < 1000000000 \<Longrightarrow> says 1000000 n (he_loop m fn 0 n)"
proof -
  assume n: "0 \<le> n" "n < 1000000000"
  let ?r = "\<lambda>f. he_loop m f (he_state (n mod 1000000)) (n mod 1000000)"
  have rest: "says 1000 (n mod 1000000) (?r f)" for f by (intro he_state_says he_thousands) simp_all
  consider "n < 1000000" | "1000000 \<le> n" "n < 2000000" | "2000000 \<le> n" "n < 3000000" | "3000000 \<le> n" by linarith
  then show ?thesis
  proof cases
    case 1 then show ?thesis using n he_thousands says_wider by blast
  next
    case 2
    then have "n div 1000000 = 1" by linarith
    then have "1000000 + n mod 1000000 = n" using div_mult_mod_eq [of n 1000000] by simp
    with says_one_scale [OF _ rest, of "Word ''million''" 1000000] 2 show ?thesis
      by (subst he_loop.simps) (simp add: Let_def)
  next
    case 3
    then have "n div 1000000 = 2" by linarith
    then have e: "n mod 1000000 = n - 2000000" using div_mult_mod_eq [of n 1000000] by simp
    have "says 1000000 2000000 (say1 (Word ''twomillion'') silence)" by (simp add: says_def)
    from says_after [OF this rest] show ?thesis
      using 3 e by (subst he_loop.simps) (simp add: Let_def)
  next
    case 4
    with n show ?thesis
      by (subst he_loop.simps) (simp add: Let_def says_millions he_thousands rest)
  qed
qed

interpretation he: number_speaker "\<lambda>n. from_zero n (he_loop m (File '''') 0 n)" 1000000000 for m
proof
  show "from_zero 0 (he_loop m (File '''') 0 0) = say1 (Number 0 '''') silence" by simp
  show "from_zero n (he_loop m (File '''') 0 n)
      = say1 (Word ''minus'') (from_zero (- n) (he_loop m (File '''') 0 (- n)))"
    if "INT_MIN < n" "n < 0" for n
    using that by (subst he_loop.simps) (simp add: Let_def he_fn [of m "Word ''minus''"])
  show "\<exists>k. says k n (from_zero n (he_loop m (File '''') 0 n))" if "0 < n" "n < 1000000000" for n
    using he_millions [of n m "File ''''"] that by auto
  show "from_zero n (he_loop m (File '''') 0 n) = too_big" if "1000000000 \<le> n" for n
    using that by (subst he_loop.simps) simp
qed

section \<open>Greek\<close>

lemma gr_small_table: "list_all (plainly gr_loop) [1..100]"
  by code_simp

lemma gr_hundred_words:
  "list_all (\<lambda>h. sense (Word (''hundred-'' @ decimal (h * 100))) = Some (Add (h * 100))) [2..9]"
  by code_simp

lemma gr_done [simp]: "gr_loop 0 = silence"
  by (simp add: gr_loop.simps)

lemma gr_small: "0 \<le> n \<Longrightarrow> n \<le> 100 \<Longrightarrow> says 1 n (gr_loop n)"
  using all_plainly_says [OF gr_small_table] by (cases "n = 0") simp_all

lemma gr_hundreds: "0 \<le> n \<Longrightarrow> n < 1000 \<Longrightarrow> says 1 n (gr_loop n)"
proof (cases "n \<le> 100")
  case False
  assume n: "0 \<le> n" "n < 1000"
  have parts: "says 1 n (say1 f (gr_loop (n mod 100)))" if "sense f = Some (Add (n div 100 * 100))" for f
    using says_add [OF that gr_small [of "n mod 100"]] by simp
  have "sense (Word (''hundred-'' @ decimal (n div 100 * 100))) = Some (Add (n div 100 * 100))" if "\<not> n < 200"
  proof -
    have "n div 100 \<in> set [2..9]" proof -
      have "2 \<le> n div 100" using that by linarith
      moreover have "n div 100 \<le> 9" using n by linarith
      ultimately show ?thesis unfolding set_upto by simp
    qed
    then show ?thesis using gr_hundred_words unfolding list_all_iff by blast
  qed
  note large = parts [OF this]
  show ?thesis
  proof (cases "n < 200")
    case True
    then have "n div 100 = 1" using False by linarith
    moreover have "gr_loop n = say1 (Word ''hundred-100'') (gr_loop (n mod 100))"
      using True False by (subst gr_loop.simps) (simp add: minus_div_mult_eq_mod)
    ultimately show ?thesis using parts [of "Word ''hundred-100''"] by simp
  next
    case less: False
    then have "gr_loop n = say1 (Word (''hundred-'' @ decimal (n div 100 * 100))) (gr_loop (n mod 100))"
      using n False by (subst gr_loop.simps) (simp add: minus_div_mult_eq_mod)
    with large [OF less] show ?thesis by (simp only:)
  qed
qed (simp add: gr_small)

lemma gr_thousands: "0 \<le> n \<Longrightarrow> n < 1000000 \<Longrightarrow> says 1000 n (gr_loop n)"
proof -
  assume n: "0 \<le> n" "n < 1000000"
  consider "n < 1000" | "1000 \<le> n" "n < 2000" | "2000 \<le> n" by linarith
  then show ?thesis
  proof cases
    case 1 with n show ?thesis by (simp add: gr_hundreds says_wider)
  next
    case 2
    moreover from 2 have "n div 1000 = 1" by linarith
    moreover from this have "n - 1000 = n mod 1000" using div_mult_mod_eq [of n 1000] by linarith
    ultimately show ?thesis
      by (subst gr_loop.simps) (simp add: gr_hundreds says_wider says_one_thousand)
  next
    case 3 with n show ?thesis
      by (subst gr_loop.simps) (simp add: gr_hundreds says_wider says_thousands gr_from_zero_def)
  qed
qed

lemma gr_millions: "0 \<le> n \<Longrightarrow> n < 1000000000 \<Longrightarrow> says 1000000 n (gr_loop n)"
proof (cases "n < 1000000")
  case False
  assume "0 \<le> n" "n < 1000000000"
  moreover have "0 < n div 1000000" using False by (simp add: pos_imp_zdiv_pos_iff)
  ultimately show ?thesis using False
    by (subst gr_loop.simps) (simp add: gr_thousands says_millions gr_from_zero_def)
qed (simp add: gr_thousands says_wider)

section \<open>Chinese\<close>

lemma tw_done [simp]: "tw_loop l False False False 0 = silence"
  by (simp add: tw_loop.simps)

lemma tw_flags_simps [simp]:
  "0 \<le> n \<Longrightarrow> tw_loop l h t True n = say1 (Number 0 '''') (tw_loop 0 h t False n)"
  "0 \<le> n \<Longrightarrow> tw_loop l True t False n = say1 (Word ''hundred'') (tw_loop l False t False n)"
  "0 \<le> n \<Longrightarrow> tw_loop l False True False n = say1 (Word ''thousand'') (tw_loop l False False False n)"
  by (subst tw_loop.simps, simp)+

lemma says_zero [simp]: "says k n s \<Longrightarrow> says k n (say1 (Number 0 '''') s)"
  using says_after [of k 0 "say1 (Number 0 '''') silence" k n s] by (simp add: says_def)

text \<open>A zero before the number, or none, is heard alike: only the number without a gap matters.\<close>

lemma tw_says:
  assumes "0 \<le> n" "\<not> gap 0"
    and body: "\<And>l. tw_loop l False False False n = (if gap l then tw_loop (digits_of n) False False True n else B l)"
    and "\<And>l. says k n (B l)"
  shows "says k n (tw_loop l False False z n)"
proof -
  have zero: "says k n (tw_loop 0 False False False n)" using assms(2,4) by (subst body) simp
  have "says k n (tw_loop l False False False n)" for l
    using assms(1,4) zero by (subst body) (cases "gap l", simp_all)
  with assms(1) zero show ?thesis by (cases z) simp_all
qed

lemma tw_units: "0 \<le> n \<Longrightarrow> n < 10 \<Longrightarrow> says 1 n (tw_loop l False False z n)"
proof (cases "n = 0")
  case True
  then show ?thesis by (cases z) simp_all
next
  case False
  assume n: "0 \<le> n" "n < 10"
  show ?thesis
  proof (rule tw_says)
    show "tw_loop l False False False n =
        (if tw_gap l n then tw_loop (digits_of n) False False True n else say1 (Number n '''') silence)" for l
      using n False by (subst tw_loop.simps) simp
  qed (use n in simp_all)
qed

lemma tw_tens: "0 \<le> n \<Longrightarrow> n < 100 \<Longrightarrow> says 1 n (tw_loop l False False z n)"
proof (cases "n < 10")
  case False
  assume n: "0 \<le> n" "n < 100"
  let ?B = "say1 (Number (n div 10 * 10) '''') (tw_loop (digits_of n) False False False (n mod 10))"
  show ?thesis
  proof (rule tw_says)
    show "tw_loop l False False False n = (if tw_gap l n then tw_loop (digits_of n) False False True n else ?B)" for l
      using n False by (subst tw_loop.simps) (simp add: minus_div_mult_eq_mod)
    have "says 1 (n div 10 * 10 + n mod 10) ?B" by (intro says_add tw_units) simp_all
    then show "says 1 n ?B" by simp
  qed (use n in simp_all)
qed (simp add: tw_units)

lemma tw_hundreds: "0 \<le> n \<Longrightarrow> n < 1000 \<Longrightarrow> says 100 n (tw_loop l False False z n)"
proof (cases "n < 100")
  case False
  assume n: "0 \<le> n" "n < 1000"
  let ?B = "say1 (Number (n div 100) '''') (say1 (Word ''hundred'') (tw_loop (digits_of n) False False False (n mod 100)))"
  show ?thesis
  proof (rule tw_says)
    show "tw_loop l False False False n = (if tw_gap l n then tw_loop (digits_of n) False False True n else ?B)" for l
      using n False by (subst tw_loop.simps) (simp add: minus_div_mult_eq_mod)
    show "says 100 n ?B" using n False by (intro says_hundreds tw_tens) simp_all
  qed (use n in simp_all)
qed (simp add: tw_tens says_wider)

lemma tw_thousands: "0 \<le> n \<Longrightarrow> n < 10000 \<Longrightarrow> says 1000 n (tw_loop l False False z n)"
proof (cases "n < 1000")
  case False
  assume n: "0 \<le> n" "n < 10000"
  let ?B = "after (say1 (Number (n div 1000) '''') silence)
    (say1 (Word ''thousand'') (tw_loop (digits_of n) False False False (n mod 1000)))"
  show ?thesis
  proof (rule tw_says)
    show "tw_loop l False False False n =
        (if tw_gap l n \<and> l mod digits_of n > 0 then tw_loop (digits_of n) False False True n else ?B)" for l
      using n False by (subst tw_loop.simps) (simp add: minus_div_mult_eq_mod)
    show "says 1000 n ?B"
      using n False by (intro says_thousands tw_hundreds) (simp_all add: says_wider(1))
  qed (use n in simp_all)
qed (simp add: tw_hundreds says_wider)

text \<open>From ten thousand to a hundred thousand the function divides by zero.\<close>

lemma tw_crash: "10000 \<le> n \<Longrightarrow> n < 100000 \<Longrightarrow> snd (tw_loop l False False False n) = Undefined"
proof -
  assume n: "10000 \<le> n" "n < 100000"
  then have "n div 100000 = 0" "0 < n div 10000" by (auto simp: pos_imp_zdiv_pos_iff)
  moreover have "says 1000 (n div 10000) (tw_loop 0 False False False (n div 10000))"
    using n by (intro tw_thousands) (simp_all add: pos_imp_zdiv_nonneg_iff)
  ultimately show ?thesis
    using n says_ret by (subst tw_loop.simps) simp
qed

lemma tw_wan: "0 \<le> n \<Longrightarrow> n < 100000000 \<Longrightarrow> \<not> (10000 \<le> n \<and> n < 100000) \<Longrightarrow>
  says 10000 n (tw_loop l False False False n)"
proof (cases "n < 10000")
  case True
  assume "0 \<le> n"
  with True have "says 1000 n (tw_loop l False False False n)" by (simp add: tw_thousands)
  then show ?thesis by (rule says_mono) simp
next
  case False
  assume n: "0 \<le> n" "n < 100000000" "\<not> (10000 \<le> n \<and> n < 100000)"
  then have pos: "0 < n div 10000" "0 < n div 100000" using False by (simp_all add: pos_imp_zdiv_pos_iff)
  have "says 10000 n (after (tw_loop 0 False False False (n div 10000))
      (say1 (Word ''wan'') (tw_loop l' False False z (n mod 10000))))" for l' z
    using n False pos
    by (intro says_groups [where l = 1000 and m = 1000] tw_thousands) simp_all
  with n False pos show ?thesis
    by (subst tw_loop.simps) (simp add: minus_div_mult_eq_mod)
qed

lemma tw_yi:
  assumes "0 \<le> n" "n < 1000000000" "\<not> (10000 \<le> n mod 100000000 \<and> n mod 100000000 < 100000)"
  shows "says 100000000 n (tw_loop l False False False n)"
proof (cases "n < 100000000")
  case True
  with assms show ?thesis by (intro says_mono [OF tw_wan]) simp_all
next
  case False
  then have pos: "0 < n div 100000000" by (simp add: pos_imp_zdiv_pos_iff)
  have "says 100000000 n (after (tw_loop 0 False False False (n div 100000000))
      (say1 (Word ''yi'') (tw_loop l' False False False (n mod 100000000))))" for l'
    using assms False pos
    by (intro says_groups [where l = 1 and m = 10000] tw_wan tw_units) simp_all
  with assms False pos show ?thesis
    by (subst tw_loop.simps) (simp add: minus_div_mult_eq_mod)
qed

lemma tw_yi_crash:
  assumes "0 \<le> n" "n < 1000000000" "10000 \<le> n mod 100000000" "n mod 100000000 < 100000"
  shows "snd (tw_loop l False False False n) = Undefined"
proof (cases "n < 100000000")
  case True
  with assms show ?thesis by (simp add: tw_crash)
next
  case False
  then have pos: "0 < n div 100000000" by (simp add: pos_imp_zdiv_pos_iff)
  have "says 1 (n div 100000000) (tw_loop 0 False False False (n div 100000000))"
    using assms pos by (intro tw_units) simp_all
  with assms False pos tw_crash says_ret show ?thesis
    by (subst tw_loop.simps) (simp add: minus_div_mult_eq_mod)
qed


section \<open>The properties\<close>

lemma say_number_hebrew:
  fixes n :: "32 word"
  shows "if sint n = INT_MIN then snd (ast_say_number_full_he options (sint n)) = Undefined
    else spoken_ok 1000000000 (sint n) (ast_say_number_full_he options (sint n))"
proof (cases "sint n = INT_MIN")
  case True
  have "he_loop m fn 0 INT_MIN = undefined_behaviour" for m fn
    by (subst he_loop.simps) (simp add: INT_MIN_def)
  with True show ?thesis by (simp add: ast_say_number_full_he_def INT_MIN_def)
next
  case False
  then have "INT_MIN < sint n" using int_range(1) [of n] by simp
  from he.spoken [OF this int_range(2)] False show ?thesis
    by (simp add: ast_say_number_full_he_def)
qed

lemma say_number_chinese:
  fixes n :: "32 word"
  assumes "0 < sint n" "sint n < 1000000000"
  shows "if 10000 \<le> sint n mod 100000000 \<and> sint n mod 100000000 < 100000
    then snd (ast_say_number_full_tw (sint n)) = Undefined
    else snd (ast_say_number_full_tw (sint n)) = Ret 0
      \<and> understood (fst (ast_say_number_full_tw (sint n))) = Some (sint n)"
  using tw_yi [of "sint n" 0] tw_yi_crash [of "sint n" 0] assms says_understood
  by (simp add: ast_say_number_full_tw_def) blast

lemma say_number_greek:
  fixes n :: "32 word"
  shows "if sint n < 0 then ast_say_number_full_gr (sint n) = ([Number (sint n) ''''], Ret 0)
    else if sint n < 1000000000 then snd (ast_say_number_full_gr (sint n)) = Ret 0
      \<and> understood (fst (ast_say_number_full_gr (sint n))) = Some (sint n)
    else ast_say_number_full_gr (sint n) = too_big"
proof -
  consider "sint n < 0" | "sint n = 0" | "0 < sint n" "sint n < 1000000000" | "1000000000 \<le> sint n"
    by linarith
  then show ?thesis
  proof cases
    case 1
    then have "gr_loop (sint n) = say1 (Number (sint n) '''') silence"
      by (subst gr_loop.simps) simp
    with 1 show ?thesis by (simp add: ast_say_number_full_gr_def gr_from_zero_def say1_def)
  next
    case 2
    then show ?thesis
      by (simp add: ast_say_number_full_gr_def gr_from_zero_def understood_def)
  next
    case 3
    then have "says 1000000 (sint n) (gr_loop (sint n))" by (simp add: gr_millions)
    from says_understood [OF this] 3 show ?thesis
      by (simp add: ast_say_number_full_gr_def gr_from_zero_def)
  next
    case 4
    then have "gr_loop (sint n) = too_big" by (subst gr_loop.simps) simp
    with 4 show ?thesis by (simp add: ast_say_number_full_gr_def gr_from_zero_def)
  qed
qed

text \<open>C24. Hebrew, Greek and Chinese: in Hebrew every int below a thousand million in size is understood, whatever
  the gender, but the least int overflows when it is negated. In Greek zero and the positive numbers below a
  thousand million are understood; a negative number is asked for as one file, named with its sign, which is
  none of the files the function needs. In Chinese a positive number below a thousand million is understood when
  its last eight digits do not have exactly five places; for the others, ten thousand to 99999 among them, the
  function divides by zero after the first words.\<close>

theorem say_number_eastern:
  fixes n k :: "32 word"
  assumes "0 < sint k" "sint k < 1000000000"
  shows "(if sint n = INT_MIN then snd (ast_say_number_full_he options (sint n)) = Undefined
      else spoken_ok 1000000000 (sint n) (ast_say_number_full_he options (sint n)))
    \<and> (if sint n < 0 then ast_say_number_full_gr (sint n) = ([Number (sint n) []], Ret 0)
      else if sint n < 1000000000 then snd (ast_say_number_full_gr (sint n)) = Ret 0
        \<and> understood (fst (ast_say_number_full_gr (sint n))) = Some (sint n)
      else ast_say_number_full_gr (sint n) = too_big)
    \<and> (if 10000 \<le> sint k mod 100000000 \<and> sint k mod 100000000 < 100000
      then snd (ast_say_number_full_tw (sint k)) = Undefined
      else snd (ast_say_number_full_tw (sint k)) = Ret 0
        \<and> understood (fst (ast_say_number_full_tw (sint k))) = Some (sint k))"
  using say_number_hebrew [of n options] say_number_greek [of n] say_number_chinese [OF assms] by blast

theorem say_number_eastern_witness:
  "snd (ast_say_number_full_tw 12345) = Undefined
    \<and> understood (fst (ast_say_number_full_tw 1020304)) = Some 1020304"
  using say_number_eastern [of 12345 0 None] say_number_eastern [of 1020304 0 None] by simp

end
