(* ===== verification/SayGeorgian.thy ===== *)
theory SayGeorgian
  imports Say
begin

text \<open>
  The Georgian number function of main/say.c: it writes the words of the number into a buffer of 512
  characters, separated by spaces, and then plays the file of each word.
\<close>

section \<open>The text\<close>

text \<open>\<open>strncat(res, s, res_len - strlen(res) - 1)\<close>\<close>

definition strncat_ge :: "nat \<Rightarrow> string \<Rightarrow> string \<Rightarrow> string" where
  "strncat_ge res_len res s = res @ take (res_len - length res - 1) s"

function translate_ge :: "nat \<Rightarrow> int \<Rightarrow> string \<Rightarrow> string" where
  "translate_ge len num res =
    (if num \<le> 20 \<or> num = 40 \<or> num = 60 \<or> num = 80 \<or> num = 100 then strncat_ge len res (decimal num)
     else if num < 40 then translate_ge len (num - 20) (strncat_ge len res ''20_ '')
     else if num < 60 then translate_ge len (num - 40) (strncat_ge len res ''40_ '')
     else if num < 80 then translate_ge len (num - 60) (strncat_ge len res ''60_ '')
     else if num < 100 then translate_ge len (num - 80) (strncat_ge len res ''80_ '')
     else if num < 1000 then
       (let remainder = num mod 100; digit = (num - remainder) div 100
        in if remainder = 0 then strncat_ge len res (decimal num)
           else translate_ge len remainder (strncat_ge len res (decimal (digit * 100) @ ''_ '')))
     else if num = 1000 then strncat_ge len res ''1000''
     else if num < 1000000 then
       (let remainder = num mod 1000; digit = (num - remainder) div 1000
        in if remainder = 0 then strncat_ge len (translate_ge len digit res) '' 1000''
           else if digit = 1 then translate_ge len remainder (strncat_ge len res ''1000_ '')
           else translate_ge len remainder (strncat_ge len (translate_ge len digit res) '' 1000_ ''))
     else if num = 1000000 then strncat_ge len res ''1 1000000''
     else if num < 1000000000 then
       (let remainder = num mod 1000000; digit = (num - remainder) div 1000000
        in if remainder = 0 then strncat_ge len (translate_ge len digit res) '' 1000000''
           else translate_ge len remainder (strncat_ge len (translate_ge len digit res) '' 1000000_ ''))
     else if num = 1000000000 then strncat_ge len res ''1 1000000000''
     else
       (let remainder = num mod 1000000000; digit = (num - remainder) div 1000000000
        in if remainder = 0 then strncat_ge len (translate_ge len digit res) '' 1000000000''
           else translate_ge len remainder
             (strncat_ge len (translate_ge len digit res) '' 1000000000_ '')))"
  by pat_completeness auto
termination
  by (relation "measure (\<lambda>(len, num, res). nat num)")
     (auto simp: minus_mod_eq_div_mult intro: int_div_less_self)

declare translate_ge.simps [simp del]

text \<open>The sign is written first; the calls above have numbers that are not negative.\<close>

definition ast_translate_number_ge :: "nat \<Rightarrow> int \<Rightarrow> string \<Rightarrow> string" where
  "ast_translate_number_ge len num res =
    (if num < 0 then translate_ge len (negated num) (strncat_ge len res ''minus '')
     else translate_ge len num res)"

section \<open>The files\<close>

function ge_chunks :: "string \<Rightarrow> string list" where
  "ge_chunks remainder =
    (if CHR '' '' \<in> set remainder
     then takeWhile (\<lambda>c. c \<noteq> CHR '' '') remainder
       # ge_chunks (dropWhile (\<lambda>c. c = CHR '' '') (dropWhile (\<lambda>c. c \<noteq> CHR '' '') remainder))
     else if remainder \<noteq> [] then [remainder] else [])"
  by pat_completeness auto
termination
proof (relation "measure length", goal_cases)
  case (2 remainder)
  let ?s = "dropWhile (\<lambda>c. c \<noteq> CHR '' '') remainder"
  from 2 have "?s \<noteq> []" by (auto simp: dropWhile_eq_Nil_conv)
  then obtain t where t: "?s = CHR '' '' # t" using hd_dropWhile [of "\<lambda>c. c \<noteq> CHR '' ''" remainder]
    by (cases ?s) auto
  have "length (dropWhile (\<lambda>c. c = CHR '' '') t) \<le> length t" by (rule length_dropWhile_le)
  moreover have "length ?s \<le> length remainder" by (rule length_dropWhile_le)
  ultimately show ?case by (simp add: t)
qed simp

declare ge_chunks.simps [simp del]

definition ast_say_number_full_ge :: "int \<Rightarrow> speech" where
  "ast_say_number_full_ge num =
     from_zero num (map Word (ge_chunks (ast_translate_number_ge 512 num '''')), Ret 0)"

section \<open>The words of a number\<close>

text \<open>The words without the buffer: a reference for what the text holds.\<close>

function ge_words :: "int \<Rightarrow> string list" where
  "ge_words num =
    (if num \<le> 20 \<or> num = 40 \<or> num = 60 \<or> num = 80 \<or> num = 100 then [decimal num]
     else if num < 40 then ''20_'' # ge_words (num - 20)
     else if num < 60 then ''40_'' # ge_words (num - 40)
     else if num < 80 then ''60_'' # ge_words (num - 60)
     else if num < 100 then ''80_'' # ge_words (num - 80)
     else if num < 1000 then
       (if num mod 100 = 0 then [decimal num]
        else (decimal (num div 100 * 100) @ ''_'') # ge_words (num mod 100))
     else if num = 1000 then [''1000'']
     else if num < 1000000 then
       (if num mod 1000 = 0 then ge_words (num div 1000) @ [''1000'']
        else if num div 1000 = 1 then ''1000_'' # ge_words (num mod 1000)
        else ge_words (num div 1000) @ ''1000_'' # ge_words (num mod 1000))
     else if num = 1000000 then [''1'', ''1000000'']
     else if num < 1000000000 then
       (if num mod 1000000 = 0 then ge_words (num div 1000000) @ [''1000000'']
        else ge_words (num div 1000000) @ ''1000000_'' # ge_words (num mod 1000000))
     else if num = 1000000000 then [''1'', ''1000000000'']
     else
       (if num mod 1000000000 = 0 then ge_words (num div 1000000000) @ [''1000000000'']
        else ge_words (num div 1000000000) @ ''1000000000_'' # ge_words (num mod 1000000000)))"
  by pat_completeness auto
termination by (relation "measure nat") (auto intro: int_div_less_self)

declare ge_words.simps [simp del]

fun joined :: "string list \<Rightarrow> string" where
  "joined [] = []"
| "joined [w] = w"
| "joined (w # ws) = w @ '' '' @ joined ws"

lemma joined_Cons: "ws \<noteq> [] \<Longrightarrow> joined (w # ws) = w @ '' '' @ joined ws"
  by (cases ws) auto

lemma joined_append: "vs \<noteq> [] \<Longrightarrow> ws \<noteq> [] \<Longrightarrow> joined (vs @ ws) = joined vs @ '' '' @ joined ws"
  by (induction vs rule: joined.induct) (auto simp: joined_Cons)

lemma ge_words_nonempty [simp]: "ge_words n \<noteq> []"
  by (subst ge_words.simps) auto

lemma strncat_fits: "length res + length s < len \<Longrightarrow> strncat_ge len res s = res @ s"
  by (simp add: strncat_ge_def)

lemma translate_ge_words:
  "length res + length (joined (ge_words n)) < len \<Longrightarrow>
    translate_ge len n res = res @ joined (ge_words n)"
proof (induction "nat n" arbitrary: n res rule: less_induct)
  case less
  have ih: "translate_ge len m r = r @ joined (ge_words m)"
    if "m < n" "0 < n" "length r + length (joined (ge_words m)) < len" for m r
    using less.hyps [of m r] that by auto
  have q: "(n - n mod k) div k = n div k" if "k \<noteq> 0" for k :: int
    using that by (simp add: minus_mod_eq_div_mult)
  note unfold = translate_ge.simps [of len n res] ge_words.simps [of n] and fits = less.prems
  let ?direct = "n \<le> 20 \<or> n = 40 \<or> n = 60 \<or> n = 80 \<or> n = 100"
  consider "?direct" | "20 < n" "n < 40" | "40 < n" "n < 60" | "60 < n" "n < 80" | "80 < n" "n < 100"
    | "100 < n" "n < 1000" | "n = 1000" | "1000 < n" "n < 1000000" | "n = 1000000"
    | "1000000 < n" "n < 1000000000" | "n = 1000000000" | "1000000000 < n"
    using linorder_le_less_linear [of n 20] linorder_less_linear [of n 40] linorder_less_linear [of n 60]
      linorder_less_linear [of n 80] linorder_less_linear [of n 100] linorder_less_linear [of n 1000]
      linorder_less_linear [of n 1000000] linorder_less_linear [of n 1000000000] by blast
  then show ?case
  proof cases
    case 1
    have "translate_ge len n res = strncat_ge len res (decimal n)" "ge_words n = [decimal n]"
      unfolding unfold by (simp_all only: 1 if_True)
    with fits show ?thesis by (simp add: strncat_fits)
  next
    case 2 with fits show ?thesis by (simp add: unfold strncat_fits ih joined_Cons)
  next
    case 3 with fits show ?thesis by (simp add: unfold strncat_fits ih joined_Cons)
  next
    case 4 with fits show ?thesis by (simp add: unfold strncat_fits ih joined_Cons)
  next
    case 5 with fits show ?thesis by (simp add: unfold strncat_fits ih joined_Cons)
  next
    case 6 with fits show ?thesis
      by (cases "n mod 100 = 0") (simp_all add: unfold strncat_fits ih joined_Cons q)
  next
    case 8 with fits show ?thesis
      by (cases "n mod 1000 = 0"; cases "n div 1000 = 1")
         (simp_all add: unfold strncat_fits ih joined_Cons joined_append q int_div_less_self)
  next
    case 10 with fits show ?thesis
      by (cases "n mod 1000000 = 0")
         (simp_all add: unfold strncat_fits ih joined_Cons joined_append q int_div_less_self)
  next
    case 12 with fits show ?thesis
      by (cases "n mod 1000000000 = 0")
         (simp_all add: unfold strncat_fits ih joined_Cons joined_append q int_div_less_self)
  qed (use fits in \<open>simp_all add: translate_ge.simps [of len] ge_words.simps strncat_fits\<close>)
qed

section \<open>The buffer is long enough\<close>

lemma ge_lengths_table: "list_all (\<lambda>n. length (joined (ge_words n)) \<le> 6) [1..100]"
  by code_simp

lemma ge_hundreds_table:
  "list_all (\<lambda>h. length (decimal (h * 100)) = 3 \<and> CHR '' '' \<notin> set (decimal (h * 100))
     \<and> sense (Word (decimal (h * 100))) = Some (Add (h * 100))
     \<and> sense (Word (decimal (h * 100) @ ''_'')) = Some (Add (h * 100))) [1..9]"
  by code_simp

lemma ge_small_table:
  "list_all (\<lambda>n. \<forall>w\<in>set (ge_words n). w \<noteq> [] \<and> CHR '' '' \<notin> set w) [1..100]"
  by code_simp

lemma ge_small_length: "0 < n \<Longrightarrow> n \<le> 100 \<Longrightarrow> length (joined (ge_words n)) \<le> 6"
  using ge_lengths_table by (simp only: list_all_iff set_upto atLeastAtMost_iff) simp

definition clean :: "string \<Rightarrow> bool" where
  "clean w \<longleftrightarrow> w \<noteq> [] \<and> CHR '' '' \<notin> set w"

lemma ge_hundred:
  assumes "100 \<le> n" "n < 1000"
  defines "h \<equiv> n div 100 * 100"
  shows "length (decimal h) = 3" "clean (decimal h)" "clean (decimal h @ ''_'')"
    "sense (Word (decimal h)) = Some (Add h)" "sense (Word (decimal h @ ''_'')) = Some (Add h)"
    "n mod 100 = 0 \<Longrightarrow> h = n"
proof -
  have "1 \<le> n div 100" "n div 100 \<le> 9" using assms(1,2) by linarith+
  then have "n div 100 \<in> set [1..9]" by (simp only: set_upto atLeastAtMost_iff)
  from this ge_hundreds_table have facts: "length (decimal h) = 3 \<and> CHR '' '' \<notin> set (decimal h)
     \<and> sense (Word (decimal h)) = Some (Add h) \<and> sense (Word (decimal h @ ''_'')) = Some (Add h)"
    unfolding list_all_iff h_def by blast
  then show "length (decimal h) = 3" "sense (Word (decimal h)) = Some (Add h)"
    "sense (Word (decimal h @ ''_'')) = Some (Add h)" by blast+
  from facts show "clean (decimal h)" "clean (decimal h @ ''_'')" by (auto simp: clean_def)
  show "h = n" if "n mod 100 = 0" using that div_mult_mod_eq [of n 100] by (simp add: h_def)
qed

lemma ge_small_clean: "0 < n \<Longrightarrow> n \<le> 100 \<Longrightarrow> list_all clean (ge_words n)"
proof -
  assume "0 < n" "n \<le> 100"
  then have "n \<in> set [1..100]" unfolding set_upto by simp
  with ge_small_table show ?thesis unfolding list_all_iff clean_def by blast
qed

text \<open>How a number of each size is put together from smaller ones.\<close>

lemma ge_words_hundreds:
  "100 < n \<Longrightarrow> n < 1000 \<Longrightarrow> ge_words n =
    (if n mod 100 = 0 then [decimal (n div 100 * 100)]
     else (decimal (n div 100 * 100) @ ''_'') # ge_words (n mod 100))"
  using ge_hundred(6) [of n] by (subst ge_words.simps) simp

definition ge_scaled :: "int \<Rightarrow> string \<Rightarrow> string \<Rightarrow> int \<Rightarrow> string list" where
  "ge_scaled k w w' n =
    (if n mod k = 0 then ge_words (n div k) @ [w] else ge_words (n div k) @ w' # ge_words (n mod k))"

lemma ge_words_thousands:
  "1000 \<le> n \<Longrightarrow> n < 1000000 \<Longrightarrow> ge_words n =
    (if n = 1000 then [''1000''] else if n div 1000 = 1 then ''1000_'' # ge_words (n mod 1000)
     else ge_scaled 1000 ''1000'' ''1000_'' n)"
proof (cases "n = 1000")
  case False
  assume n: "1000 \<le> n" "n < 1000000"
  have "n mod 1000 \<noteq> 0" if "n div 1000 = 1" using that False div_mult_mod_eq [of n 1000] by auto
  with n False show ?thesis by (subst ge_words.simps) (auto simp: ge_scaled_def)
qed (simp add: ge_words.simps)

lemma ge_words_millions:
  "1000000 \<le> n \<Longrightarrow> n < 1000000000 \<Longrightarrow> ge_words n = ge_scaled 1000000 ''1000000'' ''1000000_'' n"
proof (cases "n = 1000000")
  case True
  have "ge_words 1 = [''1'']" by (simp add: ge_words.simps) code_simp
  with True show ?thesis by (simp add: ge_scaled_def ge_words.simps [of 1000000])
qed (subst ge_words.simps, simp add: ge_scaled_def)

lemma ge_words_milliards:
  "1000000000 \<le> n \<Longrightarrow> ge_words n = ge_scaled 1000000000 ''1000000000'' ''1000000000_'' n"
proof (cases "n = 1000000000")
  case True
  have "ge_words 1 = [''1'']" by (simp add: ge_words.simps) code_simp
  with True show ?thesis by (simp add: ge_scaled_def ge_words.simps [of 1000000000])
qed (subst ge_words.simps, simp add: ge_scaled_def)

lemma ge_scaled_shape:
  assumes "\<And>m. 0 < m \<Longrightarrow> m < k \<Longrightarrow> list_all clean (ge_words m) \<and> length (joined (ge_words m)) \<le> b"
    and "list_all clean (ge_words (n div k)) \<and> length (joined (ge_words (n div k))) \<le> a"
    and "clean w" "clean w'" "length w < length w'" "0 < k"
  shows "list_all clean (ge_scaled k w w' n) \<and> length (joined (ge_scaled k w w' n)) \<le> a + b + length w' + 2"
proof (cases "n mod k = 0")
  case False
  then have "0 < n mod k" "n mod k < k" using assms(6) pos_mod_sign [of k n] pos_mod_bound [of k n] by linarith+
  from assms(1) [OF this] False assms(2-5) show ?thesis
    by (simp add: ge_scaled_def joined_append joined_Cons)
qed (use assms(2-5) in \<open>simp add: ge_scaled_def joined_append\<close>)

lemma ge_shape_hundreds: "0 < n \<Longrightarrow> n < 1000 \<Longrightarrow> list_all clean (ge_words n) \<and> length (joined (ge_words n)) \<le> 11"
proof (cases "n \<le> 100")
  case True
  assume "0 < n"
  with True ge_small_clean [of n] ge_small_length [of n] show ?thesis by simp
next
  case False
  assume "n < 1000"
  have "0 < n mod 100" "n mod 100 \<le> 100" if "n mod 100 \<noteq> 0"
    using that pos_mod_bound [of 100 n] pos_mod_sign [of 100 n] by linarith+
  with False \<open>n < 1000\<close> ge_hundred [of n] ge_small_clean [of "n mod 100"] ge_small_length [of "n mod 100"]
  show ?thesis by (auto simp: ge_words_hundreds joined_Cons)
qed

lemma ge_shape_thousands: "0 < n \<Longrightarrow> n < 1000000 \<Longrightarrow> list_all clean (ge_words n) \<and> length (joined (ge_words n)) \<le> 29"
proof (cases "n < 1000")
  case True
  assume "0 < n"
  with True ge_shape_hundreds [of n] show ?thesis by auto
next
  case False
  assume n: "n < 1000000"
  have "0 < n div 1000" using False by (simp add: pos_imp_zdiv_pos_iff)
  then have "list_all clean (ge_scaled 1000 ''1000'' ''1000_'' n)
      \<and> length (joined (ge_scaled 1000 ''1000'' ''1000_'' n)) \<le> 11 + 11 + length ''1000_'' + 2"
    using n by (intro ge_scaled_shape ge_shape_hundreds) (simp_all add: clean_def)
  moreover have "0 < n mod 1000" if "n \<noteq> 1000" "n div 1000 = 1"
    using that False div_mult_mod_eq [of n 1000] by linarith
  ultimately show ?thesis
    using n False ge_shape_hundreds [of "n mod 1000"]
    by (auto simp: ge_words_thousands joined_Cons clean_def)
qed

lemma ge_shape_millions: "0 < n \<Longrightarrow> n < 1000000000 \<Longrightarrow> list_all clean (ge_words n) \<and> length (joined (ge_words n)) \<le> 51"
proof (cases "n < 1000000")
  case True
  assume "0 < n"
  with True ge_shape_thousands [of n] show ?thesis by auto
next
  case False
  assume n: "n < 1000000000"
  have "0 < n div 1000000" using False by (simp add: pos_imp_zdiv_pos_iff)
  then have "list_all clean (ge_scaled 1000000 ''1000000'' ''1000000_'' n)
      \<and> length (joined (ge_scaled 1000000 ''1000000'' ''1000000_'' n)) \<le> 11 + 29 + length ''1000000_'' + 2"
    using n by (intro ge_scaled_shape ge_shape_thousands ge_shape_hundreds) (simp_all add: clean_def)
  with n False show ?thesis by (simp add: ge_words_millions)
qed

lemma ge_shape: "0 < n \<Longrightarrow> n \<le> INT_MAX \<Longrightarrow> list_all clean (ge_words n) \<and> length (joined (ge_words n)) \<le> 80"
proof (cases "n < 1000000000")
  case True
  assume "0 < n"
  with True ge_shape_millions [of n] show ?thesis by auto
next
  case False
  assume n: "n \<le> INT_MAX"
  have "0 < n div 1000000000" using False by (simp add: pos_imp_zdiv_pos_iff)
  then have "list_all clean (ge_scaled 1000000000 ''1000000000'' ''1000000000_'' n)
      \<and> length (joined (ge_scaled 1000000000 ''1000000000'' ''1000000000_'' n)) \<le> 11 + 51 + length ''1000000000_'' + 2"
    using n by (intro ge_scaled_shape ge_shape_millions ge_shape_hundreds) (simp_all add: clean_def INT_MAX_def)
  with n False show ?thesis by (simp add: ge_words_milliards)
qed

section \<open>The chunks of the text\<close>

lemma ge_chunks_joined: "list_all clean ws \<Longrightarrow> ge_chunks (joined ws) = ws"
proof (induction ws rule: joined.induct)
  case 1 then show ?case by (simp add: ge_chunks.simps)
next
  case (2 w) then show ?case by (simp add: ge_chunks.simps clean_def)
next
  case (3 w v ws)
  have w: "takeWhile (\<lambda>c. c \<noteq> CHR '' '') (w @ CHR '' '' # r) = w"
    "dropWhile (\<lambda>c. c \<noteq> CHR '' '') (w @ CHR '' '' # r) = CHR '' '' # r" for r
    using 3(2) by (auto simp: clean_def takeWhile_append dropWhile_append)
  have "clean v" using 3(2) by simp
  then have "joined (v # ws) \<noteq> []" "hd (joined (v # ws)) \<noteq> CHR '' ''"
    by (cases v; cases ws; auto simp: clean_def)+
  then have "dropWhile (\<lambda>c. c = CHR '' '') (joined (v # ws)) = joined (v # ws)"
    by (cases "joined (v # ws)") auto
  with 3 w show ?case by (subst ge_chunks.simps) (simp del: joined.simps(2,3) add: joined_Cons)
qed

lemma ge_minus:
  "ge_chunks (''minus '' @ joined ws) = ''minus'' # ge_chunks (joined ws)" if "list_all clean ws"
proof (cases ws)
  case (Cons v vs)
  then have "''minus '' @ joined ws = joined (''minus'' # ws)" by (simp add: joined_Cons)
  with ge_chunks_joined [of "''minus'' # ws"] ge_chunks_joined [OF that] that show ?thesis
    by (simp add: clean_def)
qed (simp add: ge_chunks.simps)

definition ge_said :: "int \<Rightarrow> speech" where
  "ge_said n = (map Word (ge_words n), Ret 0)"

lemma ge_positive:
  assumes "0 < n" "n \<le> INT_MAX"
  shows "ast_say_number_full_ge n = ge_said n"
    "ast_say_number_full_ge (- n) = say1 (Word ''minus'') (ge_said n)"
proof -
  note shape = ge_shape [OF assms]
  have "translate_ge 512 n '''' = joined (ge_words n)"
    using translate_ge_words [of "''''" n 512] shape by simp
  moreover have "translate_ge 512 n ''minus '' = ''minus '' @ joined (ge_words n)"
    using translate_ge_words [of "''minus ''" n 512] shape by simp
  moreover have "negated (- n) = n" using assms by (simp add: negated_def INT_MIN_def INT_MAX_def)
  ultimately show "ast_say_number_full_ge n = ge_said n"
    "ast_say_number_full_ge (- n) = say1 (Word ''minus'') (ge_said n)"
    using assms shape
    by (simp_all add: ast_say_number_full_ge_def ast_translate_number_ge_def ge_chunks_joined ge_said_def
        strncat_ge_def ge_minus [simplified] say1_def)
qed

section \<open>What the listener understands\<close>

lemma ge_tens: "list_all (plainly ge_said) [1..100]"
  by code_simp

lemma ge_said_append:
  assumes "ge_words n = vs @ w # ws"
  shows "ge_said n = after (map Word vs, Ret 0) (say1 (Word w) (map Word ws, Ret 0))"
  by (simp add: ge_said_def assms after_def say1_def)

lemma ge_hundreds: "0 < n \<Longrightarrow> n < 1000 \<Longrightarrow> says 1 n (ge_said n)"
proof (cases "n \<le> 100")
  case True
  assume "0 < n"
  with True all_plainly_says [OF ge_tens, of n] show ?thesis by simp
next
  case False
  assume n: "n < 1000"
  note h = ge_hundred [of n]
  show ?thesis
  proof (cases "n mod 100 = 0")
    case True
    with False n h have "ge_said n = say1 (Word (decimal n)) silence"
      by (simp add: ge_said_def ge_words_hundreds say1_def)
    moreover have "says 1 (n + 0) (say1 (Word (decimal n)) silence)"
      using h(4,6) True False n by (intro says_add) simp_all
    ultimately show ?thesis by simp
  next
    case rest: False
    then have m: "0 < n mod 100" "n mod 100 \<le> 100"
      using pos_mod_bound [of 100 n] pos_mod_sign [of 100 n] by linarith+
    have "ge_said n = say1 (Word (decimal (n div 100 * 100) @ ''_'')) (ge_said (n mod 100))"
      using False n rest by (simp add: ge_said_def ge_words_hundreds say1_def)
    moreover have "says 1 (n div 100 * 100 + n mod 100)
        (say1 (Word (decimal (n div 100 * 100) @ ''_'')) (ge_said (n mod 100)))"
      using h(5) False n all_plainly_says [OF ge_tens, of "n mod 100"] m by (intro says_add) simp_all
    ultimately show ?thesis by simp
  qed
qed

lemma ge_scaled_says:
  assumes words: "ge_words n = ge_scaled k w w' n"
    and sense: "sense (Word w) = Some (Scale k)" "sense (Word w') = Some (Scale k)"
    and left: "says l (n div k) (ge_said (n div k))"
    and rest: "\<And>m. 0 < m \<Longrightarrow> m < k \<Longrightarrow> says l m (ge_said m)"
    and "l dvd k" "k \<le> n" "n < k * k" "0 < k"
  shows "says k n (ge_said n)"
proof (cases "n mod k = 0")
  case True
  then have "ge_said n = after (ge_said (n div k)) (say1 (Word w) silence)"
    using ge_said_append [of n "ge_words (n div k)" w "[]"] words by (simp add: ge_scaled_def ge_said_def)
  with says_groups [OF left sense(1), of l silence] True assms(6-9) show ?thesis by simp
next
  case False
  then have "0 < n mod k" "n mod k < k" using assms(9) pos_mod_sign [of k n] pos_mod_bound [of k n] by linarith+
  from says_groups [OF left sense(2) rest [OF this]] assms(6-9)
  have "says k n (after (ge_said (n div k)) (say1 (Word w') (ge_said (n mod k))))" by simp
  moreover have "ge_said n = after (ge_said (n div k)) (say1 (Word w') (ge_said (n mod k)))"
    using ge_said_append [of n "ge_words (n div k)" w' "ge_words (n mod k)"] words False
    by (simp add: ge_scaled_def ge_said_def)
  ultimately show ?thesis by simp
qed

lemma ge_thousands: "0 < n \<Longrightarrow> n < 1000000 \<Longrightarrow> says 1000 n (ge_said n)"
proof -
  assume n: "0 < n" "n < 1000000"
  consider "n < 1000" | "n = 1000" | "1000 < n" "n div 1000 = 1" | "1000 < n" "n div 1000 \<noteq> 1" by linarith
  then show ?thesis
  proof cases
    case 1 with n show ?thesis by (simp add: ge_hundreds says_wider)
  next
    case 2
    then have "ge_said n = say1 (Word ''1000'') silence"
      by (simp add: ge_said_def ge_words_thousands say1_def)
    with says_one_scale [of "Word ''1000''" 1000 1 0 silence] 2 show ?thesis by simp
  next
    case 3
    then have m: "0 < n mod 1000" "n mod 1000 < 1000" "1000 + n mod 1000 = n"
      using div_mult_mod_eq [of n 1000] by simp_all
    have "ge_said n = say1 (Word ''1000_'') (ge_said (n mod 1000))"
      using 3 n by (simp add: ge_said_def ge_words_thousands say1_def)
    with says_one_scale [of "Word ''1000_''" 1000 1 "n mod 1000", OF _ ge_hundreds [OF m(1,2)]] m(3)
    show ?thesis by simp
  next
    case 4
    then have pos: "0 < n div 1000" by (simp add: pos_imp_zdiv_pos_iff)
    show ?thesis
      by (rule ge_scaled_says [where l = 1 and w = "''1000''" and w' = "''1000_''"]) (use n 4 pos in \<open>simp_all add: ge_hundreds ge_words_thousands\<close>)
  qed
qed

lemma ge_millions: "0 < n \<Longrightarrow> n < 1000000000 \<Longrightarrow> says 1000000 n (ge_said n)"
proof (cases "n < 1000000")
  case False
  assume n: "n < 1000000000"
  have pos: "0 < n div 1000000" using False by (simp add: pos_imp_zdiv_pos_iff)
  show ?thesis
    by (rule ge_scaled_says [where l = 1000 and w = "''1000000''" and w' = "''1000000_''"]) (use n False pos in \<open>simp_all add: ge_thousands ge_words_millions\<close>)
qed (simp add: ge_thousands says_wider)

lemma ge_milliards: "0 < n \<Longrightarrow> n \<le> INT_MAX \<Longrightarrow> says 1000000000 n (ge_said n)"
proof (cases "n < 1000000000")
  case False
  assume n: "n \<le> INT_MAX"
  have pos: "0 < n div 1000000000" using False by (simp add: pos_imp_zdiv_pos_iff)
  show ?thesis
    by (rule ge_scaled_says [where l = 1000000 and w = "''1000000000''" and w' = "''1000000000_''"]) (use n False pos in \<open>simp_all add: ge_millions ge_words_milliards INT_MAX_def\<close>)
qed (simp add: ge_millions says_mono [of 1000000])

interpretation ge: number_speaker ast_say_number_full_ge "INT_MAX + 1"
proof
  show "ast_say_number_full_ge 0 = say1 (Number 0 '''') silence"
    by (simp add: ast_say_number_full_ge_def)
  show "ast_say_number_full_ge n = say1 (Word ''minus'') (ast_say_number_full_ge (- n))"
    if "INT_MIN < n" "n < 0" for n
    using ge_positive [of "- n"] that by (simp add: INT_MIN_def INT_MAX_def)
  show "\<exists>k. says k n (ast_say_number_full_ge n)" if "0 < n" "n < INT_MAX + 1" for n
    using ge_milliards [of n] ge_positive(1) [of n] that by auto
qed simp

text \<open>C25. Georgian: the text written for a number fits the buffer of 512 characters and holds the words of
  the number, a file for each; every int but the least is understood, and the least is read as minus
  zero.\<close>

theorem say_number_georgian:
  fixes n :: "32 word"
  shows "(sint n \<noteq> INT_MIN \<longrightarrow> spoken_ok (INT_MAX + 1) (sint n) (ast_say_number_full_ge (sint n)))
    \<and> (0 < sint n \<longrightarrow> ast_translate_number_ge 512 (sint n) '''' = joined (ge_words (sint n)))
    \<and> ast_say_number_full_ge INT_MIN = ([Word ''minus'', Word ''0''], Ret 0)"
proof (intro conjI impI)
  assume "sint n \<noteq> INT_MIN"
  then have "INT_MIN < sint n" using int_range(1) [of n] by simp
  from ge.spoken [OF this int_range(2)] show "spoken_ok (INT_MAX + 1) (sint n) (ast_say_number_full_ge (sint n))"
    by (simp add: INT_MAX_def)
next
  assume "0 < sint n"
  with ge_shape [of "sint n"] int_range(2) [of n] translate_ge_words [of "''''" "sint n" 512]
  show "ast_translate_number_ge 512 (sint n) '''' = joined (ge_words (sint n))"
    by (simp add: ast_translate_number_ge_def)
next
  show "ast_say_number_full_ge INT_MIN = ([Word ''minus'', Word ''0''], Ret 0)"
    by code_simp
qed

theorem say_number_georgian_witness:
  "ast_translate_number_ge 512 2021 '''' = joined (ge_words 2021)"
  using say_number_georgian [of 2021] by simp

end
