(* ===== verification/SayNumber.thy ===== *)
theory SayNumber
  imports SayGermanicProps SayRomanceProps SaySlavicProps SayEasternProps SayGeorgian
begin

text \<open>
  The entry of main/say.c for numbers, \<open>say_number_full\<close>, which chooses the function of the
  language, and what happens on a channel when a speech is played.
\<close>

section \<open>The choice of the language\<close>

text \<open>\<open>!strcasecmp(language, "name")\<close>\<close>

definition language_is :: "string \<Rightarrow> string \<Rightarrow> bool" where
  "language_is language name \<longleftrightarrow> map lower language = map lower name"

definition say_number_full :: "string \<Rightarrow> string option \<Rightarrow> int \<Rightarrow> speech" where
  "say_number_full language options num =
    (if language_is language ''en'' then ast_say_number_full_en num
     else if language_is language ''cz'' then ast_say_number_full_cz options num
     else if language_is language ''da'' then ast_say_number_full_da options num
     else if language_is language ''de'' then ast_say_number_full_de options num
     else if language_is language ''en_GB'' then ast_say_number_full_en_GB num
     else if language_is language ''no'' then ast_say_number_full_no options num
     else if language_is language ''es'' \<or> language_is language ''mx'' then ast_say_number_full_es options num
     else if language_is language ''fr'' then ast_say_number_full_fr options num
     else if language_is language ''he'' then ast_say_number_full_he options num
     else if language_is language ''it'' then ast_say_number_full_it num
     else if language_is language ''nl'' then ast_say_number_full_nl num
     else if language_is language ''pl'' then ast_say_number_full_pl options num
     else if language_is language ''pt'' \<or> language_is language ''pt_BR'' then ast_say_number_full_pt options num
     else if language_is language ''se'' then ast_say_number_full_se options num
     else if language_is language ''tw'' \<or> language_is language ''zh'' then ast_say_number_full_tw num
     else if language_is language ''gr'' then ast_say_number_full_gr num
     else if language_is language ''ru'' then ast_say_number_full_ru options num
     else if language_is language ''ge'' then ast_say_number_full_ge num
     else ast_say_number_full_en num)"

section \<open>The numbers every language says\<close>

definition names :: "int \<Rightarrow> speech \<Rightarrow> bool" where
  "names n s \<longleftrightarrow> snd s = Ret 0 \<and> understood (fst s) = Some n"

lemma says_names: "says k n s \<Longrightarrow> names n s"
  by (simp add: names_def says_understood)

lemma says_from_zero:
  "0 \<le> n \<Longrightarrow> says k n s \<Longrightarrow> names n (from_zero n s)"
  using says_names [of k n s] by (cases "n = 0") (simp_all add: names_def [of 0] understood_def)

lemma ge_names: "0 \<le> n \<Longrightarrow> n \<le> INT_MAX \<Longrightarrow> names n (ast_say_number_full_ge n)"
proof (cases "n = 0")
  case True
  then show ?thesis by (simp add: ge.zero names_def understood_def)
next
  case False
  assume "0 \<le> n" "n \<le> INT_MAX"
  with False ge.positive [of n] show ?thesis
    using says_names [of _ n "ast_say_number_full_ge n"] by auto
qed

lemma pl_names: "0 \<le> n \<Longrightarrow> n \<le> INT_MAX \<Longrightarrow> names n (ast_say_number_full_pl options n)"
proof (cases "n = 0")
  case True
  have "cyfry (pl_odmiana options) ! 0 = ''0'' \<and> 0 < length (cyfry (pl_odmiana options))"
    by (rule list_allD [OF pl_setki_table(4) pl_odmiana_in])
  then have "says 1 0 (powiedz (pl_odmiana options) 0 0)"
    by (simp add: powiedz.simps entry_def pl_odtworz_plik_def says_def)
  with True show ?thesis by (simp add: ast_say_number_full_pl_def says_names)
next
  case False
  assume "0 \<le> n" "n \<le> INT_MAX"
  with False powiedz_number [OF pl_odmiana_in, of n options] show ?thesis
    by (simp add: ast_say_number_full_pl_def says_names)
qed

lemma gr_names: "0 \<le> n \<Longrightarrow> n < 1000000000 \<Longrightarrow> names n (ast_say_number_full_gr n)"
  using says_names [OF gr_millions [of n]]
  by (cases "n = 0") (simp_all add: ast_say_number_full_gr_def gr_from_zero_def names_def [of 0] understood_def)

lemma tw_names: "0 \<le> n \<Longrightarrow> n < 10000 \<Longrightarrow> names n (ast_say_number_full_tw n)"
  unfolding ast_say_number_full_tw_def by (rule says_from_zero [OF _ tw_thousands]) simp_all

lemma pt_names:
  assumes "0 \<le> n" "n < 1000000" "option_is CHR ''f'' options \<Longrightarrow> n < 1000"
  shows "names n (ast_say_number_full_pt options n)"
proof (cases "option_is CHR ''f'' options")
  case True
  with assms show ?thesis
    by (auto simp: ast_say_number_full_pt_def intro: says_from_zero pt_hundreds)
next
  case False
  with assms show ?thesis
    by (auto simp: ast_say_number_full_pt_def intro: says_from_zero pt_thousands)
qed

text \<open>C19. In every language the server knows, and in English for the ones it does not know, the numbers below
  a million are understood and the call returns 0, with options the recordings know; the exceptions are
  the Chinese numbers from ten thousand and the feminine Portuguese ones from a thousand.\<close>

theorem say_number_full_names:
  assumes "0 \<le> n" "n < 1000000"
    and "language_is language ''cz'' \<Longrightarrow> cz_known (case options of None \<Rightarrow> ''w'' | Some o' \<Rightarrow> o')"
    and "language_is language ''ru'' \<Longrightarrow> ru_known options"
    and "language_is language ''tw'' \<or> language_is language ''zh'' \<Longrightarrow> n < 10000"
    and "language_is language ''pt'' \<or> language_is language ''pt_BR'' \<Longrightarrow> option_is CHR ''f'' options \<Longrightarrow> n < 1000"
  shows "snd (say_number_full language options n) = Ret 0
    \<and> understood (fst (say_number_full language options n)) = Some n"
proof -
  note bounds = assms(1,2)
  have million: "n < 1000000000" "n \<le> INT_MAX" using bounds by (simp_all add: INT_MAX_def)
  have "names n (ast_say_number_full_en n)"
    unfolding ast_say_number_full_en_def by (rule says_from_zero [OF bounds(1) en_millions]) (use bounds in simp_all)
  moreover from this have "names n (ast_say_number_full_se options n)"
    by (simp add: ast_say_number_full_en_def ast_say_number_full_se_def se_is_en)
  moreover have "names n (ast_say_number_full_en_GB n)"
    unfolding ast_say_number_full_en_GB_def by (rule says_from_zero [OF bounds(1) gb_millions]) (use bounds in simp_all)
  moreover have "names n (ast_say_number_full_no options n)"
    unfolding ast_say_number_full_no_def by (rule says_from_zero [OF bounds(1) no_millions]) (use bounds in simp_all)
  moreover have "names n (ast_say_number_full_da options n)"
    unfolding ast_say_number_full_da_def by (rule says_from_zero [OF bounds(1) da_millions]) (use bounds in simp_all)
  moreover have "names n (ast_say_number_full_nl n)"
    unfolding ast_say_number_full_nl_def by (rule says_from_zero [OF bounds(1) nl_millions]) (use bounds in simp_all)
  moreover have "names n (ast_say_number_full_de options n)"
    unfolding ast_say_number_full_de_def by (rule says_from_zero [OF bounds(1) de_milliards]) (use bounds million in simp_all)
  moreover have "names n (ast_say_number_full_es options n)"
    unfolding ast_say_number_full_es_def
    by (rule says_from_zero [OF bounds(1) es_millions]) (use bounds in \<open>simp_all add: es_gender_def\<close>)
  moreover have "names n (ast_say_number_full_fr options n)"
    unfolding ast_say_number_full_fr_def by (rule says_from_zero [OF bounds(1) fr_millions]) (use bounds in simp_all)
  moreover have "names n (ast_say_number_full_it n)"
    unfolding ast_say_number_full_it_def by (rule says_from_zero [OF bounds(1) it_millions]) (use bounds in simp_all)
  moreover have "names n (ast_say_number_full_he options n)"
    unfolding ast_say_number_full_he_def by (rule says_from_zero [OF bounds(1) he_millions]) (use bounds in simp_all)
  moreover have "names n (ast_say_number_full_cz options n)" if "language_is language ''cz''"
    unfolding ast_say_number_full_cz_def
    by (rule says_from_zero [OF bounds(1) cz_millions]) (use bounds assms(3) [OF that] in simp_all)
  moreover have "names n (ast_say_number_full_ru options n)" if "language_is language ''ru''"
    unfolding ast_say_number_full_ru_def
    by (rule says_from_zero [OF bounds(1) ru_millions]) (use bounds assms(4) [OF that] in simp_all)
  moreover note pl_names [OF bounds(1) million(2), of options] ge_names [OF bounds(1) million(2)]
    gr_names [OF bounds(1) million(1)] pt_names [OF bounds assms(6)] tw_names [OF bounds(1) assms(5)]
  ultimately have "names n (say_number_full language options n)"
    unfolding say_number_full_def by (simp add: if_distrib [of "names n"] cong: if_cong)
  then show ?thesis by (simp add: names_def)
qed

theorem say_number_full_names_witness:
  "understood (fst (say_number_full ''DE'' None 123456)) = Some 123456
    \<and> understood (fst (say_number_full ''tw'' None 4096)) = Some 4096"
proof -
  have "\<not> language_is ''DE'' ''cz''" "\<not> language_is ''DE'' ''ru''" "\<not> language_is ''DE'' ''tw''"
    "\<not> language_is ''DE'' ''zh''" "\<not> language_is ''DE'' ''pt''" "\<not> language_is ''DE'' ''pt_BR''"
    "\<not> language_is ''tw'' ''cz''" "\<not> language_is ''tw'' ''ru''"
    "\<not> language_is ''tw'' ''pt''" "\<not> language_is ''tw'' ''pt_BR''"
    by code_simp+
  then show ?thesis
    using say_number_full_names [of 123456 "''DE''" None] say_number_full_names [of 4096 "''tw''" None]
    by simp
qed

section \<open>On a channel\<close>

text \<open>No key or error ends any of the files \<open>played\<close> after \<open>heard\<close>.\<close>

definition undisturbed :: "(string list \<Rightarrow> string \<Rightarrow> int) \<Rightarrow> string list \<Rightarrow> string list \<Rightarrow> bool" where
  "undisturbed wait heard played \<longleftrightarrow> (\<forall>i < length played. wait (heard @ take i played) (played ! i) = 0)"

lemma undisturbed_simps [simp]:
  "undisturbed wait heard []"
  "undisturbed wait heard (fn # played) \<longleftrightarrow> wait heard fn = 0 \<and> undisturbed wait (heard @ [fn]) played"
  by (simp_all add: undisturbed_def All_less_Suc2)

text \<open>How playing ends: at the end of the speech, at a required file that is missing, or at a file that was
  interrupted.\<close>

definition play_ends ::
  "(string \<Rightarrow> bool) \<Rightarrow> (string list \<Rightarrow> string \<Rightarrow> int) \<Rightarrow> string list \<Rightarrow> sound list \<Rightarrow> outcome \<Rightarrow>
    nat \<Rightarrow> string list \<Rightarrow> outcome \<Rightarrow> bool" where
  "play_ends present wait heard fs r k played r' \<longleftrightarrow>
     k \<le> length fs \<and> played = filter present (map filename (take k fs)) \<and>
     (\<forall>f \<in> set (take k fs). required f \<longrightarrow> present (filename f)) \<and>
     (k = length fs \<and> undisturbed wait heard played \<and> r' = r
      \<or> k < length fs \<and> required (fs ! k) \<and> \<not> present (filename (fs ! k)) \<and> undisturbed wait heard played
        \<and> r' = Ret (-1)
      \<or> played \<noteq> [] \<and> filename (last (take k fs)) = last played \<and> undisturbed wait heard (butlast played)
        \<and> wait (heard @ butlast played) (last played) \<noteq> 0
        \<and> r' = Ret (wait (heard @ butlast played) (last played)))"

lemma play_ends_skip:
  "\<not> present (filename f) \<Longrightarrow> \<not> required f \<Longrightarrow> play_ends present wait heard fs r k played r' \<Longrightarrow>
    play_ends present wait heard (f # fs) r (Suc k) played r'"
  by (auto simp: play_ends_def)

lemma play_ends_next:
  "present (filename f) \<Longrightarrow> wait heard (filename f) = 0 \<Longrightarrow>
    play_ends present wait (heard @ [filename f]) fs r k played r' \<Longrightarrow>
    play_ends present wait heard (f # fs) r (Suc k) (filename f # played) r'"
  by (auto simp: play_ends_def)

lemma play_stops:
  "play present wait heard fs r = (heard', r') \<Longrightarrow>
    \<exists>k played. heard' = heard @ played \<and> play_ends present wait heard fs r k played r'"
proof (induction fs arbitrary: heard)
  case Nil
  then show ?case by (simp add: play_ends_def)
next
  case (Cons f fs)
  let ?fn = "filename f"
  consider "\<not> present ?fn" "required f" | "\<not> present ?fn" "\<not> required f"
    | "present ?fn" "wait heard ?fn \<noteq> 0" | "present ?fn" "wait heard ?fn = 0" by blast
  then show ?case
  proof cases
    case 1
    with Cons.prems show ?thesis by (intro exI [of _ 0] exI [of _ "[]"]) (simp add: play_ends_def)
  next
    case 2
    with Cons.prems Cons.IH [of heard] play_ends_skip [of present f] show ?thesis by fastforce
  next
    case 3
    with Cons.prems show ?thesis
      by (intro exI [of _ 1] exI [of _ "[?fn]"]) (auto simp: Let_def play_ends_def)
  next
    case 4
    with Cons.prems have "play present wait (heard @ [?fn]) fs r = (heard', r')" by (simp add: Let_def)
    from Cons.IH [OF this] obtain k played where "heard' = (heard @ [?fn]) @ played"
      "play_ends present wait (heard @ [?fn]) fs r k played r'" by blast
    with play_ends_next [of present f wait heard, OF 4] show ?thesis
      by (intro exI [of _ "Suc k"] exI [of _ "?fn # played"]) simp
  qed
qed

lemma play_all:
  "\<forall>f\<in>set fs. present (filename f) \<Longrightarrow> (\<And>h f. wait h f = 0) \<Longrightarrow>
    play present wait heard fs r = (heard @ map filename fs, r)"
  by (induction fs arbitrary: heard) (simp_all add: Let_def)

text \<open>
  The Polish function drops the results of its calls: it plays all its files, whatever the caller
  does, and returns 0.
\<close>

definition say_number_on_channel ::
  "(string \<Rightarrow> bool) \<Rightarrow> (string list \<Rightarrow> string \<Rightarrow> int) \<Rightarrow> string \<Rightarrow> string option \<Rightarrow> int \<Rightarrow> string list \<times> outcome" where
  "say_number_on_channel present wait language options num =
    (let (fs, r) = say_number_full language options num
     in if language_is language ''pl'' then play present (\<lambda>_ _. 0) [] fs r
        else play present wait [] fs r)"

text \<open>C20. On a channel the files streamed are, in order, the first ones of those the speech names and that
  can be streamed; a file that is missing is passed over unless it is required. The playing ends in one of three ways:
  the whole speech was played without a disturbance, and the result is that of the speech; or the next file is a
  required one that is missing, and the result is -1; or the last file streamed was interrupted, the first
  one that was, and its key is the result. In Polish no key interrupts.\<close>

theorem say_number_on_channel_prefix:
  assumes "say_number_on_channel present wait language options num = (heard, r)"
    and "wait' = (if language_is language ''pl'' then \<lambda>_ _. 0 else wait)"
    and "fs = fst (say_number_full language options num)"
  shows "\<exists>k \<le> length fs. heard = filter present (map filename (take k fs))
    \<and> (\<forall>f \<in> set (take k fs). required f \<longrightarrow> present (filename f))
    \<and> (k = length fs \<and> undisturbed wait' [] heard \<and> r = snd (say_number_full language options num)
       \<or> k < length fs \<and> required (fs ! k) \<and> \<not> present (filename (fs ! k)) \<and> undisturbed wait' [] heard
         \<and> r = Ret (-1)
       \<or> heard \<noteq> [] \<and> filename (last (take k fs)) = last heard \<and> undisturbed wait' [] (butlast heard)
         \<and> wait' (butlast heard) (last heard) \<noteq> 0 \<and> r = Ret (wait' (butlast heard) (last heard)))"
proof -
  have "play present wait' [] fs (snd (say_number_full language options num)) = (heard, r)"
    using assms by (simp add: say_number_on_channel_def case_prod_unfold Let_def split: if_splits)
  from play_stops [OF this] show ?thesis by (auto simp: play_ends_def)
qed

theorem say_number_on_channel_prefix_witness:
  "\<exists>k. [''digits/2'', ''digits/hundred''] = map filename (take k (fst (say_number_full ''en'' None 250)))"
proof -
  have "say_number_on_channel (\<lambda>_. True) (\<lambda>h f. if h = [] then 0 else 35) ''en'' None 250
      = ([''digits/2'', ''digits/hundred''], Ret 35)"
    by code_simp
  from say_number_on_channel_prefix [OF this refl refl]
  obtain k where "[''digits/2'', ''digits/hundred''] =
      filter (\<lambda>_. True) (map filename (take k (fst (say_number_full ''en'' None 250))))" by blast
  then show ?thesis by (metis filter_True)
qed

end
