(* ===== verification/SayText.thy ===== *)
theory SayText
  imports Say
begin

text \<open>
  The functions of main/say.c that spell a text: as digits, as characters and in the phonetic
  alphabet. They play a file for each character they know one for and pass over the others; a file
  is streamed only when it exists.
\<close>

section \<open>The file of a character\<close>

text \<open>The symbols the character and the phonetic function share.\<close>

definition symbol_files :: "(char \<times> string) list" where
  "symbol_files =
    [(CHR ''*'', ''digits/star''), (CHR ''#'', ''digits/pound''),
     (CHR ''!'', ''letters/exclaimation-point''), (CHR ''@'', ''letters/at''),
     (CHR ''$'', ''letters/dollar''), (CHR ''-'', ''letters/dash''), (CHR ''.'', ''letters/dot''),
     (CHR ''='', ''letters/equals''), (CHR ''+'', ''letters/plus''), (CHR ''/'', ''letters/slash''),
     (CHR '' '', ''letters/space'')]"

definition symbol_file :: "char \<Rightarrow> string option" where
  "symbol_file c = map_of symbol_files c"

definition is_digit_upto :: "nat \<Rightarrow> char \<Rightarrow> bool" where
  "is_digit_upto d c \<longleftrightarrow> 48 \<le> (of_char c :: nat) \<and> (of_char c :: nat) \<le> 48 + d"

definition character_file :: "char \<Rightarrow> string" where
  "character_file c = (case symbol_file c of
     Some fn \<Rightarrow> fn
   | None \<Rightarrow> if is_digit_upto 9 c then ''digits/'' @ [c] else ''letters/'' @ [lower c])"

text \<open>The digit 9 is missing among the digits of the phonetic function.\<close>

definition phonetic_file :: "char \<Rightarrow> string" where
  "phonetic_file c = (case symbol_file c of
     Some fn \<Rightarrow> fn
   | None \<Rightarrow> if is_digit_upto 8 c then ''digits/'' @ [c] else ''phonetic/'' @ [lower c] @ ''_p'')"

definition digit_file :: "char \<Rightarrow> string option" where
  "digit_file c =
    (if c = CHR ''*'' then Some ''digits/star''
     else if c = CHR ''#'' then Some ''digits/pound''
     else if c = CHR ''-'' then Some ''digits/minus''
     else if is_digit_upto 9 c then Some (''digits/'' @ [c])
     else None)"

section \<open>The loops\<close>

text \<open>
  The loop of the three functions over the string up to its end: \<open>file\<close> names the file of a
  character, \<open>exists\<close> is \<open>ast_fileexists\<close> for the language, \<open>stream\<close> and
  \<open>wait\<close> are the results of streaming the file and of waiting for its end, which may depend on the
  files played before. The result is the list of the files streamed, in order, and the value returned.
\<close>

fun say_chars :: "(char \<Rightarrow> string option) \<Rightarrow> (string \<Rightarrow> bool) \<Rightarrow> (string list \<Rightarrow> string \<Rightarrow> int) \<Rightarrow>
    (string list \<Rightarrow> string \<Rightarrow> int) \<Rightarrow> string list \<Rightarrow> string \<Rightarrow> string list \<times> int" where
  "say_chars file exists stream wait heard [] = (heard, 0)"
| "say_chars file exists stream wait heard (c # str) =
    (case file c of
       None \<Rightarrow> say_chars file exists stream wait heard str
     | Some fn \<Rightarrow>
         if exists fn then
           (let r = stream heard fn;
                res = (if r = 0 then wait heard fn else r);
                heard' = heard @ [fn]
            in if res \<noteq> 0 then (heard', res) else say_chars file exists stream wait heard' str)
         else say_chars file exists stream wait heard str)"

definition say_digit_str_full where
  "say_digit_str_full = say_chars digit_file"

definition say_character_str_full where
  "say_character_str_full = say_chars (\<lambda>c. Some (character_file c))"

definition say_phonetic_str_full where
  "say_phonetic_str_full = say_chars (\<lambda>c. Some (phonetic_file c))"

text \<open>\<open>ast_say_digits_full\<close> of main/channel.c prints the number and says its digits.\<close>

definition ast_say_digits_full where
  "ast_say_digits_full exists stream wait heard num =
     say_digit_str_full exists stream wait heard (decimal num)"

section \<open>What is played\<close>

definition files_of :: "(char \<Rightarrow> string option) \<Rightarrow> (string \<Rightarrow> bool) \<Rightarrow> string \<Rightarrow> string list" where
  "files_of file exists str = filter exists (List.map_filter file str)"

lemma files_of_simps [simp]:
  "files_of file exists [] = []"
  "files_of file exists (c # str) = (case file c of
     None \<Rightarrow> files_of file exists str
   | Some fn \<Rightarrow> (if exists fn then fn # files_of file exists str else files_of file exists str))"
  by (simp_all add: files_of_def List.map_filter_simps split: option.split)

lemma say_chars_uninterrupted:
  assumes "\<And>h f. stream h f = 0" "\<And>h f. wait h f = 0"
  shows "say_chars file exists stream wait heard str = (heard @ files_of file exists str, 0)"
  by (induction str arbitrary: heard) (simp_all add: assms split: option.split)

text \<open>What ends a file: the error of streaming it, or the key or error its end is awaited with; 0 is neither.\<close>

definition ended_by :: "(string list \<Rightarrow> string \<Rightarrow> int) \<Rightarrow> (string list \<Rightarrow> string \<Rightarrow> int) \<Rightarrow> string list \<Rightarrow> string \<Rightarrow> int" where
  "ended_by stream wait heard fn = (if stream heard fn = 0 then wait heard fn else stream heard fn)"

text \<open>The files of a text up to and with the first one that was ended by a key or an error, and what ended it.\<close>

fun first_ended :: "(string list \<Rightarrow> string \<Rightarrow> int) \<Rightarrow> string list \<Rightarrow> string list \<Rightarrow> string list \<times> int" where
  "first_ended res heard [] = ([], 0)"
| "first_ended res heard (fn # fns) =
    (if res heard fn \<noteq> 0 then ([fn], res heard fn)
     else (case first_ended res (heard @ [fn]) fns of (played, r) \<Rightarrow> (fn # played, r)))"

lemma say_chars_first_ended:
  "say_chars file exists stream wait heard str =
    (case first_ended (ended_by stream wait) heard (files_of file exists str) of (played, r) \<Rightarrow> (heard @ played, r))"
  by (induction str arbitrary: heard) (auto simp: Let_def ended_by_def split: option.split prod.split)

lemma first_ended_spec:
  "first_ended res heard fns = (played, r) \<Longrightarrow>
    (\<exists>rest. fns = played @ rest \<and> (r = 0 \<longrightarrow> rest = []))
    \<and> (\<forall>i. (if r = 0 then i else Suc i) < length played \<longrightarrow> res (heard @ take i played) (played ! i) = 0)
    \<and> (r \<noteq> 0 \<longrightarrow> played \<noteq> [] \<and> r = res (heard @ butlast played) (last played))"
proof (induction fns arbitrary: heard played r)
  case (Cons fn fns)
  show ?case
  proof (cases "res heard fn = 0")
    case True
    then obtain played' where p: "first_ended res (heard @ [fn]) fns = (played', r)" "played = fn # played'"
      using Cons.prems by (auto split: prod.splits)
    have "res (heard @ take i played) (played ! i) = 0" if "(if r = 0 then i else Suc i) < length played" for i
      using Cons.IH [OF p(1)] that True p(2) by (cases i) (auto split: if_splits)
    then show ?thesis using Cons.IH [OF p(1)] p(2) by auto
  qed (use Cons.prems in auto)
qed simp

section \<open>Hearing a text\<close>

text \<open>The character a listener writes down for a file.\<close>

definition symbol_heard :: "string \<Rightarrow> char option" where
  "symbol_heard fn = map_of
    [(''digits/star'', CHR ''*''), (''digits/pound'', CHR ''#''),
     (''letters/exclaimation-point'', CHR ''!''), (''letters/at'', CHR ''@''),
     (''letters/dollar'', CHR ''$''), (''letters/dash'', CHR ''-''), (''letters/dot'', CHR ''.''),
     (''letters/equals'', CHR ''=''), (''letters/plus'', CHR ''+''), (''letters/slash'', CHR ''/''),
     (''letters/space'', CHR '' ''), (''digits/minus'', CHR ''-'')] fn"

definition char_heard :: "string \<Rightarrow> char" where
  "char_heard fn = (case symbol_heard fn of
     Some c \<Rightarrow> c
   | None \<Rightarrow> if take 7 fn = ''digits/'' then fn ! 7
             else if take 8 fn = ''letters/'' then fn ! 8 else fn ! 9)"

lemma lower_fixed [simp]:
  "is_digit_upto d c \<Longrightarrow> d \<le> 9 \<Longrightarrow> lower c = c"
  by (auto simp: is_digit_upto_def lower_def)

lemma symbol_files_table: "list_all (\<lambda>(c, fn). char_heard fn = c \<and> lower c = c) symbol_files"
  by code_simp

lemma symbol_file_heard: "symbol_file c = Some fn \<Longrightarrow> char_heard fn = c \<and> lower c = c"
  using symbol_files_table by (auto simp: symbol_file_def list_all_iff dest!: map_of_SomeD)

lemma char_heard_files [simp]:
  "char_heard (''digits/'' @ [c]) = c"
  "char_heard (''letters/'' @ [c]) = c"
  "char_heard (''phonetic/'' @ [c] @ cs) = c"
  by (simp_all add: char_heard_def symbol_heard_def)

lemma char_heard_symbols [simp]:
  "char_heard ''digits/star'' = CHR ''*''" "char_heard ''digits/pound'' = CHR ''#''"
  "char_heard ''digits/minus'' = CHR ''-''"
  by code_simp+

lemma character_file_heard: "char_heard (character_file c) = lower c"
  by (cases "symbol_file c")
     (simp_all add: character_file_def symbol_file_heard del: append.simps)

lemma phonetic_file_heard: "char_heard (phonetic_file c) = lower c"
  by (cases "symbol_file c")
     (simp_all add: phonetic_file_def symbol_file_heard del: append.simps)

lemma digit_file_heard: "digit_file c = Some fn \<Longrightarrow> char_heard fn = c"
  by (auto simp: digit_file_def split: if_splits simp del: append.simps)

lemma digits_heard: "map char_heard (List.map_filter digit_file str) = filter (\<lambda>c. digit_file c \<noteq> None) str"
  by (induction str) (auto simp: List.map_filter_simps digit_file_heard split: option.split)

lemma map_filter_Some: "List.map_filter (\<lambda>c. Some (f c)) xs = map f xs"
  by (induction xs) (simp_all add: List.map_filter_simps)

lemma decimal_nat_digits: "0 \<le> n \<Longrightarrow> c \<in> set (decimal_nat n) \<Longrightarrow> is_digit_upto 9 c"
proof (induction n rule: decimal_nat.induct)
  case (1 n)
  have d: "is_digit_upto 9 (digit_char d)" if "0 \<le> d" "d < 10" for d
    using that by (auto simp: is_digit_upto_def digit_char_def)
  show ?case using 1 by (subst (asm) (2) decimal_nat.simps) (auto split: if_splits intro: d)
qed

lemma decimal_spoken: "c \<in> set (decimal n) \<Longrightarrow> digit_file c \<noteq> None"
  by (auto simp: decimal_def digit_file_def dest: decimal_nat_digits [rotated] split: if_splits)

section \<open>The properties\<close>

lemma spelled_text_is_heard:
  "map char_heard (fst (say_character_str_full (\<lambda>_. True) (\<lambda>_ _. 0) (\<lambda>_ _. 0) [] str)) = map lower str
    \<and> map char_heard (fst (say_phonetic_str_full (\<lambda>_. True) (\<lambda>_ _. 0) (\<lambda>_ _. 0) [] str)) = map lower str
    \<and> map char_heard (fst (say_digit_str_full (\<lambda>_. True) (\<lambda>_ _. 0) (\<lambda>_ _. 0) [] str))
      = filter (\<lambda>c. digit_file c \<noteq> None) str
    \<and> map char_heard (fst (ast_say_digits_full (\<lambda>_. True) (\<lambda>_ _. 0) (\<lambda>_ _. 0) [] num)) = decimal num"
proof (intro conjI)
  show "map char_heard (fst (say_character_str_full (\<lambda>_. True) (\<lambda>_ _. 0) (\<lambda>_ _. 0) [] str)) = map lower str"
    by (simp add: say_character_str_full_def say_chars_uninterrupted files_of_def map_filter_Some
        character_file_heard)
  show "map char_heard (fst (say_phonetic_str_full (\<lambda>_. True) (\<lambda>_ _. 0) (\<lambda>_ _. 0) [] str)) = map lower str"
    by (simp add: say_phonetic_str_full_def say_chars_uninterrupted files_of_def map_filter_Some
        phonetic_file_heard)
  have digits: "map char_heard (fst (say_digit_str_full (\<lambda>_. True) (\<lambda>_ _. 0) (\<lambda>_ _. 0) [] s))
      = filter (\<lambda>c. digit_file c \<noteq> None) s" for s
    by (simp add: say_digit_str_full_def say_chars_uninterrupted files_of_def digits_heard)
  then show "map char_heard (fst (say_digit_str_full (\<lambda>_. True) (\<lambda>_ _. 0) (\<lambda>_ _. 0) [] str))
      = filter (\<lambda>c. digit_file c \<noteq> None) str" .
  show "map char_heard (fst (ast_say_digits_full (\<lambda>_. True) (\<lambda>_ _. 0) (\<lambda>_ _. 0) [] num)) = decimal num"
    unfolding ast_say_digits_full_def digits by (rule filter_True) (blast dest: decimal_spoken)
qed

lemma spelling_stops_at_key:
  fixes str :: string
  assumes "say_chars file exists stream wait heard str = (heard', r)"
  shows "\<exists>played rest. heard' = heard @ played
    \<and> filter exists (List.map_filter file str) = played @ rest
    \<and> (r = 0 \<longrightarrow> rest = [] \<and> (\<forall>i < length played. ended_by stream wait (heard @ take i played) (played ! i) = 0))
    \<and> (r \<noteq> 0 \<longrightarrow> played \<noteq> [] \<and> r = ended_by stream wait (heard @ butlast played) (last played)
        \<and> (\<forall>i. Suc i < length played \<longrightarrow> ended_by stream wait (heard @ take i played) (played ! i) = 0))"
proof -
  obtain played where p: "first_ended (ended_by stream wait) heard (files_of file exists str) = (played, r)"
    "heard' = heard @ played"
    using assms by (auto simp: say_chars_first_ended split: prod.splits)
  note spec = first_ended_spec [OF p(1)]
  obtain rest where rest: "filter exists (List.map_filter file str) = played @ rest" "r = 0 \<longrightarrow> rest = []"
    using spec unfolding files_of_def by blast
  have all: "\<forall>i < length played. ended_by stream wait (heard @ take i played) (played ! i) = 0" if "r = 0"
    using spec that by simp
  have first: "\<forall>i. Suc i < length played \<longrightarrow> ended_by stream wait (heard @ take i played) (played ! i) = 0" if "r \<noteq> 0"
    using spec that by simp
  have last: "played \<noteq> []" "r = ended_by stream wait (heard @ butlast played) (last played)" if "r \<noteq> 0"
    using spec that by blast+
  show ?thesis
    by (rule exI [of _ played], rule exI [of _ rest], intro conjI impI)
      (fact p(2) rest(1) | rule all first last rest(2) [rule_format], assumption)+
qed

text \<open>C26. A spelled text is heard as it was written, up to the case of its letters, whether it is spelled
  letter by letter or in the phonetic alphabet; of a digit string exactly the digits, stars, pounds and
  minus signs are heard, and a number said as digits is heard as its decimal form. (All files exist and
  the caller does not interrupt.)
  A key or an error stops the spelling: the files streamed are the first ones of those that exist; the result is 0
  exactly when none of them was ended by a key or an error, and then all were streamed; otherwise the last file
  streamed is the first one that was ended so, and the result is the error of streaming it or the key it was ended by.\<close>

theorem spelled_texts:
  fixes str :: string
  shows "map char_heard (fst (say_character_str_full (\<lambda>_. True) (\<lambda>_ _. 0) (\<lambda>_ _. 0) [] str)) = map lower str
    \<and> map char_heard (fst (say_phonetic_str_full (\<lambda>_. True) (\<lambda>_ _. 0) (\<lambda>_ _. 0) [] str)) = map lower str
    \<and> map char_heard (fst (say_digit_str_full (\<lambda>_. True) (\<lambda>_ _. 0) (\<lambda>_ _. 0) [] str))
      = filter (\<lambda>c. digit_file c \<noteq> None) str
    \<and> map char_heard (fst (ast_say_digits_full (\<lambda>_. True) (\<lambda>_ _. 0) (\<lambda>_ _. 0) [] num)) = decimal num
    \<and> (\<forall>heard' r. say_chars file exists stream wait heard str = (heard', r) \<longrightarrow>
        (\<exists>played rest. heard' = heard @ played
          \<and> filter exists (List.map_filter file str) = played @ rest
          \<and> (r = 0 \<longrightarrow> rest = [] \<and> (\<forall>i < length played. ended_by stream wait (heard @ take i played) (played ! i) = 0))
          \<and> (r \<noteq> 0 \<longrightarrow> played \<noteq> [] \<and> r = ended_by stream wait (heard @ butlast played) (last played)
              \<and> (\<forall>i. Suc i < length played \<longrightarrow> ended_by stream wait (heard @ take i played) (played ! i) = 0))))"
  by (intro conjI allI impI spelling_stops_at_key)
    (use spelled_text_is_heard [where str = str and num = num] in blast | assumption)+

theorem spelled_texts_witness:
  "say_chars digit_file (\<lambda>_. True) (\<lambda>_ _. 0) (\<lambda>h _. if h = [] then 0 else 49) [] ''12x3''
    = ([''digits/1'', ''digits/2''], 49)
   \<and> (\<exists>rest. [''digits/1'', ''digits/2'', ''digits/3''] = [''digits/1'', ''digits/2''] @ rest)
   \<and> ended_by (\<lambda>_ _. 0) (\<lambda>h _. if h = [] then 0 else 49) [''digits/1''] ''digits/2'' = 49"
proof -
  have e: "say_chars digit_file (\<lambda>_. True) (\<lambda>_ _. 0) (\<lambda>h _. if h = [] then 0 else 49) [] ''12x3''
      = ([''digits/1'', ''digits/2''], 49)"
    by (simp add: digit_file_def is_digit_upto_def)
  have "List.map_filter digit_file ''12x3'' = [''digits/1'', ''digits/2'', ''digits/3'']"
    by (simp add: List.map_filter_simps digit_file_def is_digit_upto_def)
  with spelled_texts [of "''12x3''" 0 digit_file "\<lambda>_. True" "\<lambda>_ _. 0" "\<lambda>h _. if h = [] then 0 else 49" "[]"] e
  show ?thesis by auto
qed

end
