(* ===== verification/RigText.thy ===== *)
theory RigText
  imports CText "HOL-Library.State_Monad"
begin

text \<open>
  The texts of a remote base of apps/app_rpt.c: a frequency is a text of megahertz, a point and the
  digits behind it, of which the radios take five (tens of hertz); a tone (PL, CTCSS) is a text of
  hertz, a point and a digit. The state keeps them in arrays of \<open>MAXREMSTR\<close> characters, so they
  have at most 14, and copying them with \<open>strncpy\<close> copies the whole text.
\<close>

definition MAXREMSTR :: nat where "MAXREMSTR = 15"

section \<open>Frequencies\<close>

definition split_freq :: "string \<Rightarrow> (string \<times> string) option" where
  "split_freq freq = map_option (\<lambda>(mhz, decp). (mhz, take 5 (decp @ drop (length decp) (zeros 5)))) (split_at CHR ''.'' freq)"

definition split_ctcss_freq :: "string \<Rightarrow> (string \<times> string) option" where
  "split_ctcss_freq freq = split_at CHR ''.'' freq"

fun decimals_loop :: "int \<Rightarrow> int \<Rightarrow> string \<Rightarrow> int" where
  "decimals_loop multiplier res [] = res"
| "decimals_loop multiplier res (c # cs) =
     decimals_loop (multiplier sdiv 10) (res + digit_val c * multiplier) cs"

definition decimals2int :: "string \<Rightarrow> int" where
  "decimals2int fraction = decimals_loop 100000 0 fraction"

definition rbi_mhztoband :: "string \<Rightarrow> int" where
  "rbi_mhztoband str =
    (case map_of [(2, 10), (5, 11), (14, 2), (22, 3), (44, 4), (124, 0), (125, 1), (126, 8), (127, 5), (128, 6), (129, 7)]
            (atoi str sdiv 10) of
       Some band \<Rightarrow> band
     | None \<Rightarrow> - 1)"

section \<open>Tones\<close>

text \<open>The tone in tenths of a hertz, as the functions from tones to codes read it.\<close>

definition pl_value :: "string \<Rightarrow> int" where
  "pl_value str = (case split_at CHR ''.'' str of None \<Rightarrow> 0 | Some (_, s) \<Rightarrow> atoi s) + atoi str * 10"

definition pl_code :: "(int \<times> int) list \<Rightarrow> string \<Rightarrow> int" where
  "pl_code tones str = (case map_of tones (pl_value str) of Some code \<Rightarrow> code | None \<Rightarrow> - 1)"

definition rbi_tones :: "(int \<times> int) list" where
  "rbi_tones =
    [(670, 0), (719, 1), (744, 2), (770, 3), (797, 4), (825, 5), (854, 6), (885, 7), (915, 8),
     (948, 9), (974, 10), (1000, 11), (1035, 12), (1072, 13), (1109, 14), (1148, 15), (1188, 16), (1230, 17),
     (1273, 18), (1318, 19), (1365, 20), (1413, 21), (1462, 22), (1514, 23), (1567, 24), (1622, 25), (1679, 26),
     (1738, 27), (1799, 28), (1862, 29), (1928, 30), (2035, 31), (2107, 32), (2181, 33), (2257, 34), (2336, 35),
     (2418, 36), (2503, 37)]"

definition rbi_pltocode :: "string \<Rightarrow> int" where
  "rbi_pltocode = pl_code rbi_tones"

definition kenwood_tones :: "(int \<times> int) list" where
  "kenwood_tones =
    [(670, 1), (719, 3), (744, 4), (770, 5), (797, 6), (825, 7), (854, 8), (885, 9), (915, 10),
     (948, 11), (974, 12), (1000, 13), (1035, 14), (1072, 15), (1109, 16), (1148, 17), (1188, 18), (1230, 19),
     (1273, 20), (1318, 21), (1365, 22), (1413, 23), (1462, 24), (1514, 25), (1567, 26), (1622, 27), (1679, 28),
     (1738, 29), (1799, 30), (1862, 31), (1928, 32), (2035, 33), (2107, 34), (2181, 35), (2257, 36), (2336, 37),
     (2418, 38), (2503, 39)]"

definition kenwood_pltocode :: "string \<Rightarrow> int" where
  "kenwood_pltocode = pl_code kenwood_tones"

definition tm271_tones :: "(int \<times> int) list" where
  "tm271_tones =
    [(670, 0), (693, 1), (719, 2), (744, 3), (770, 4), (797, 5), (825, 6), (854, 7), (885, 8),
     (915, 9), (948, 10), (974, 11), (1000, 12), (1035, 13), (1072, 14), (1109, 15), (1148, 16), (1188, 17),
     (1230, 18), (1273, 19), (1318, 20), (1365, 21), (1413, 22), (1462, 23), (1514, 24), (1567, 25), (1622, 26),
     (1679, 27), (1738, 28), (1799, 29), (1862, 30), (1928, 31), (2035, 32), (2065, 33), (2107, 34), (2181, 35),
     (2257, 36), (2291, 37), (2336, 38), (2418, 39), (2503, 40)]"

definition tm271_pltocode :: "string \<Rightarrow> int" where
  "tm271_pltocode = pl_code tm271_tones"

definition ft950_tones :: "(int \<times> int) list" where
  "ft950_tones =
    [(670, 0), (693, 1), (719, 2), (744, 3), (770, 4), (797, 5), (825, 6), (854, 7), (885, 8),
     (915, 9), (948, 10), (974, 11), (1000, 12), (1035, 13), (1072, 14), (1109, 15), (1148, 16), (1188, 17),
     (1230, 18), (1273, 19), (1318, 20), (1365, 21), (1413, 22), (1462, 23), (1514, 24), (1567, 25), (1622, 26),
     (1679, 27), (1738, 28), (1799, 29), (1862, 30), (1928, 31), (2035, 32), (2065, 33), (2107, 34), (2181, 35),
     (2257, 36), (2291, 37), (2336, 38), (2418, 39), (2503, 40)]"

definition ft950_pltocode :: "string \<Rightarrow> int" where
  "ft950_pltocode = pl_code ft950_tones"

definition ft100_tones :: "(int \<times> int) list" where
  "ft100_tones =
    [(670, 0), (693, 1), (719, 2), (744, 3), (770, 4), (797, 5), (825, 6), (854, 7), (885, 8),
     (915, 9), (948, 10), (974, 11), (1000, 12), (1035, 13), (1072, 14), (1109, 15), (1148, 16), (1188, 17),
     (1230, 18), (1273, 19), (1318, 20), (1365, 21), (1413, 22), (1462, 23), (1514, 24), (1567, 25), (1622, 26),
     (1679, 27), (1738, 28), (1799, 29), (1862, 30), (1928, 31), (2035, 32), (2107, 33), (2181, 34), (2257, 35),
     (2336, 36), (2418, 37), (2503, 38)]"

definition ft100_pltocode :: "string \<Rightarrow> int" where
  "ft100_pltocode = pl_code ft100_tones"

definition ic706_tones :: "(int \<times> int) list" where
  "ic706_tones =
    [(670, 0), (693, 1), (719, 2), (744, 3), (770, 4), (797, 5), (825, 6), (854, 7), (885, 8),
     (915, 9), (948, 10), (974, 11), (1000, 12), (1035, 13), (1072, 14), (1109, 15), (1148, 16), (1188, 17),
     (1230, 18), (1273, 19), (1318, 20), (1365, 21), (1413, 22), (1462, 23), (1514, 24), (1567, 25), (1598, 26),
     (1622, 27), (1655, 28), (1679, 29), (1713, 30), (1738, 31), (1773, 32), (1799, 33), (1835, 34), (1862, 35),
     (1899, 36), (1928, 37), (1966, 38), (1995, 39), (2035, 40), (2065, 41), (2107, 42), (2181, 43), (2257, 44),
     (2291, 45), (2336, 46), (2418, 47), (2503, 48), (2541, 49)]"

definition ic706_pltocode :: "string \<Rightarrow> int" where
  "ic706_pltocode = pl_code ic706_tones"

lemmas tones_defs = rbi_tones_def kenwood_tones_def tm271_tones_def ft950_tones_def ft100_tones_def ic706_tones_def

end
