(* ===== verification/Rig.thy ===== *)
theory Rig
  imports RigText
begin

text \<open>
  The state of a remote base and its serial line (apps/app_rpt.c). The operations are functions of
  the state \<open>rpt\<close> in the state monad, in the order of the calls in the code. What leaves the server
  is recorded in \<open>events\<close>: the bytes written to the line, the telemetry that was started, and the
  texts for a usbradio. The device is the parameter \<open>port\<close>, which gives the answer to a write,
  depending on everything that happened before; the line is a serial port (\<open>iofd \<ge> 0\<close>), not one of
  a pciradio card. Pauses and debug output are left out.
\<close>

unbundle bit_operations_syntax

section \<open>State\<close>

type_synonym byte = "8 word"

abbreviation (input) REM_SIMPLEX :: int where "REM_SIMPLEX \<equiv> 0"
abbreviation (input) REM_MINUS :: int where "REM_MINUS \<equiv> 1"
abbreviation (input) REM_PLUS :: int where "REM_PLUS \<equiv> 2"
abbreviation (input) REM_LOWPWR :: int where "REM_LOWPWR \<equiv> 0"
abbreviation (input) REM_MEDPWR :: int where "REM_MEDPWR \<equiv> 1"
abbreviation (input) REM_HIPWR :: int where "REM_HIPWR \<equiv> 2"
abbreviation (input) REM_MODE_FM :: int where "REM_MODE_FM \<equiv> 0"
abbreviation (input) REM_MODE_USB :: int where "REM_MODE_USB \<equiv> 1"
abbreviation (input) REM_MODE_LSB :: int where "REM_MODE_LSB \<equiv> 2"
abbreviation (input) REM_MODE_AM :: int where "REM_MODE_AM \<equiv> 3"

datatype telemetry = SETREMOTE | COMPLETE | MEMNOTFOUND | INVFREQ | REMMODE | REMLOGIN | REMXXX int
  | SCAN | TUNE | REMSHORTSTATUS | REMLONGSTATUS | REMCOMPLETE

datatype event = Serial "byte list" | Rbi "byte list" | Telemetry telemetry | UsbText string | Dtmf string | Unkey

text \<open>
  The settings of the node that the functions read. \<open>txlimits\<close> is the stanza of the configuration
  with the limits for transmitting, if one is named; the entries are looked up by the login level.
\<close>

record rig_conf =
  civaddr :: byte
  dusbabek :: bool
  remote_mars :: bool
  default_split_2m :: int
  default_split_70cm :: int
  authlevel :: bool
  remote :: bool
  is_xpmr :: bool
  tx_pseudo :: bool
  remoterig :: string
  txlimits :: "(string \<times> string) list option"

record rpt =
  conf :: rig_conf
  freq :: string
  rxpl :: string
  txpl :: string
  splitkhz :: int
  offset :: int
  powerlevel :: int
  txplon :: bool
  rxplon :: bool
  remmode :: int
  hfscanmode :: int
  hfscanstatus :: int
  hfscanstop :: bool
  scantimer :: int
  tunerequest :: bool
  tunetx :: bool
  remotetx :: bool
  loginuser :: string
  loginlevel :: string
  locked :: bool
  events :: "event list"

text \<open>The repeater split: the one of the memory, or the default of the band.\<close>

definition split_of :: "rpt \<Rightarrow> string \<Rightarrow> int" where
  "split_of s mhz =
    (if splitkhz s = 0
     then if atoi mhz > 400 then default_split_70cm (conf s) else default_split_2m (conf s)
     else splitkhz s)"

type_synonym 'a rig = "(rpt, 'a) state"

abbreviation "return \<equiv> State_Monad.return"

definition gets :: "(rpt \<Rightarrow> 'a) \<Rightarrow> 'a rig" where
  "gets f = State (\<lambda>s. (f s, s))"

definition modify :: "(rpt \<Rightarrow> rpt) \<Rightarrow> unit rig" where
  "modify f = State (\<lambda>s. ((), f s))"

text \<open>The recurring \<open>if (!res) res = step\<close> and \<open>if (step) return -1\<close>.\<close>

definition on_ok :: "int \<Rightarrow> int rig \<Rightarrow> int rig" where
  "on_ok res step = (if res = 0 then step else return res)"

definition emit :: "event \<Rightarrow> unit rig" where
  "emit e = modify (events_update (\<lambda>es. es @ [e]))"

definition rpt_telemetry :: "telemetry \<Rightarrow> unit rig" where
  "rpt_telemetry t = emit (Telemetry t)"

lemma run_gets [simp]: "run_state (gets f) s = (f s, s)"
  by (simp add: gets_def)

lemma run_modify [simp]: "run_state (modify f) s = ((), f s)"
  by (simp add: modify_def)

lemma run_emit [simp]: "run_state (emit e) s = ((), s\<lparr>events := events s @ [e]\<rparr>)"
  by (simp add: emit_def)

lemma run_telemetry [simp]: "run_state (rpt_telemetry t) s = ((), s\<lparr>events := events s @ [Telemetry t]\<rparr>)"
  by (simp add: rpt_telemetry_def)

lemma run_on_ok [simp]: "run_state (on_ok res step) s = (if res = 0 then run_state step s else (res, s))"
  by (simp add: on_ok_def)

section \<open>The serial line\<close>

text \<open>
  An answer of the device: whether the write went through, the bytes that arrive, and how the stream
  ends: nothing more is ready (\<open>serial_rxready\<close> returns 0 or less) or the read fails.
\<close>

datatype ending = Silent nat | Broken

record answer =
  written :: bool
  arriving :: "byte list"
  ending :: ending

type_synonym port = "event list \<Rightarrow> byte list \<Rightarrow> answer"

text \<open>The loop that reads \<open>rxmaxbytes\<close> bytes, or up to a carriage return.\<close>

fun read_loop :: "nat \<Rightarrow> bool \<Rightarrow> ending \<Rightarrow> byte list \<Rightarrow> byte list \<Rightarrow> int \<times> byte list" where
  "read_loop rxmaxbytes ascii e [] rxbuf =
    (if length rxbuf \<ge> rxmaxbytes then (int (length rxbuf), rxbuf)
     else case e of Silent j \<Rightarrow> (- int j, rxbuf) | Broken \<Rightarrow> (int (length rxbuf), rxbuf))"
| "read_loop rxmaxbytes ascii e (c # cs) rxbuf =
    (if length rxbuf \<ge> rxmaxbytes then (int (length rxbuf), rxbuf)
     else if ascii \<and> c = 13 then (int (length rxbuf), rxbuf @ [c])
     else read_loop rxmaxbytes ascii e cs (rxbuf @ [c]))"

definition serial_remote_io :: "port \<Rightarrow> byte list \<Rightarrow> nat \<Rightarrow> bool \<Rightarrow> (int \<times> byte list) rig" where
  "serial_remote_io port txbuf rxmaxbytes ascii = do {
     past \<leftarrow> gets events;
     emit (Serial txbuf);
     let a = port past txbuf;
     return (if \<not> written a then (- 1, [])
             else if rxmaxbytes = 0 then (0, [])
             else read_loop rxmaxbytes ascii (ending a) (arriving a) [])
   }"

definition command :: "port \<Rightarrow> byte list \<Rightarrow> int rig" where
  "command port txbuf = do { (res, rx) \<leftarrow> serial_remote_io port txbuf 0 False; return res }"

definition text_bytes :: "string \<Rightarrow> byte list" where
  "text_bytes = map of_char"

text \<open>
  CI-V: the radio echoes the command and acknowledges it; a \<open>dusbabek\<close> interface does not echo.
  Bytes of \<open>rxbuf\<close> that did not arrive are zero.
\<close>

definition civ_byte :: "byte list \<Rightarrow> nat \<Rightarrow> byte" where
  "civ_byte rxbuf i = (if i < length rxbuf then rxbuf ! i else 0)"

definition civ_cmd :: "port \<Rightarrow> byte list \<Rightarrow> int rig" where
  "civ_cmd port cmd = do {
     c \<leftarrow> gets conf;
     let cmdlen = length cmd;
     (rv, rxbuf) \<leftarrow> serial_remote_io port cmd (if dusbabek c then 6 else cmdlen + 6) False;
     return
      (if rv = - 1 then - 1
       else if dusbabek c then
         (if civ_byte rxbuf 0 \<noteq> 0xfe then 1
          else if civ_byte rxbuf 1 \<noteq> 0xfe then 1
          else if civ_byte rxbuf 4 \<noteq> 0xfb then 1
          else if civ_byte rxbuf 5 \<noteq> 0xfd then 1
          else 0)
       else if rv \<noteq> int cmdlen + 6 then 1
       else if \<exists>i \<in> set [0..<6]. civ_byte rxbuf i \<noteq> cmd ! i then 1
       else if civ_byte rxbuf cmdlen \<noteq> 0xfe then 1
       else if civ_byte rxbuf (cmdlen + 1) \<noteq> 0xfe then 1
       else if civ_byte rxbuf (cmdlen + 4) \<noteq> 0xfb then 1
       else if civ_byte rxbuf (cmdlen + 5) \<noteq> 0xfd then 1
       else 0)
   }"

lemma run_serial [simp]:
  "run_state (serial_remote_io port tx n ascii) s =
    ((let a = port (events s) tx in
      if \<not> written a then (- 1, []) else if n = 0 then (0, []) else read_loop n ascii (ending a) (arriving a) []),
     s\<lparr>events := events s @ [Serial tx]\<rparr>)"
  by (simp add: serial_remote_io_def Let_def)

lemma run_command [simp]:
  "run_state (command port tx) s =
    (if written (port (events s) tx) then 0 else - 1, s\<lparr>events := events s @ [Serial tx]\<rparr>)"
  by (simp add: command_def Let_def)

text \<open>Two digits of packed decimals: \<open>(hi << 4) + lo\<close>.\<close>

definition nibbles :: "int \<Rightarrow> int \<Rightarrow> byte" where
  "nibbles hi lo = word_of_int (hi * 16 + lo)"

section \<open>An example\<close>

text \<open>A remote base with a radio and a frequency.\<close>

definition ex_conf :: "string \<Rightarrow> rig_conf" where
  "ex_conf rig = \<lparr>civaddr = 0x58, dusbabek = False, remote_mars = False, default_split_2m = 600,
     default_split_70cm = 5000, authlevel = True, remote = True, is_xpmr = False, tx_pseudo = False,
     remoterig = rig, txlimits = None\<rparr>"

definition ex_rpt :: "string \<Rightarrow> string \<Rightarrow> rpt" where
  "ex_rpt rig fr = \<lparr>conf = ex_conf rig, freq = fr, rxpl = ''100.0'', txpl = ''100.0'', splitkhz = 0,
     offset = REM_MINUS, powerlevel = REM_MEDPWR, txplon = True, rxplon = False, remmode = REM_MODE_FM, hfscanmode = 0,
     hfscanstatus = 0, hfscanstop = False, scantimer = 0, tunerequest = False, tunetx = False, remotetx = False,
     loginuser = [], loginlevel = [], locked = False, events = []\<rparr>"

text \<open>A device that takes every command and does not answer.\<close>

definition ex_port :: port where
  "ex_port = (\<lambda>_ _. \<lparr>written = True, arriving = [], ending = Silent 0\<rparr>)"

end
