(* ===== verification/RigBands.thy ===== *)
theory RigBands
  imports Rig
begin

text \<open>
  The frequencies each radio of a remote base is allowed to be set to (apps/app_rpt.c). A check gets the
  megahertz and the rest in tens of hertz; its value is the mode the frequency is used with, or None when
  the code returns -1. The second part has the limits for transmitting, a table of ranges per login level.
\<close>

section \<open>FM radios\<close>

definition check_freq_kenwood :: "int \<Rightarrow> int \<Rightarrow> int option" where
  "check_freq_kenwood m d =
    (if m = 144 then (if d < 10100 then None else Some REM_MODE_FM)
     else if m \<ge> 145 \<and> m < 148 then Some REM_MODE_FM
     else if m \<ge> 430 \<and> m < 450 then Some REM_MODE_FM
     else None)"

definition check_freq_tm271 :: "int \<Rightarrow> int \<Rightarrow> int option" where
  "check_freq_tm271 m d =
    (if m = 144 then (if d < 10100 then None else Some REM_MODE_FM)
     else if m \<ge> 145 \<and> m < 148 then Some REM_MODE_FM
     else None)"

definition check_freq_rbi :: "int \<Rightarrow> int \<Rightarrow> int option" where
  "check_freq_rbi m d =
    (if m = 50 then (if d < 10100 then None else Some REM_MODE_FM)
     else if m \<ge> 51 \<and> m < 54 then Some REM_MODE_FM
     else if m = 144 then (if d < 10100 then None else Some REM_MODE_FM)
     else if m \<ge> 145 \<and> m < 148 then Some REM_MODE_FM
     else if m \<ge> 222 \<and> m < 225 then Some REM_MODE_FM
     else if m \<ge> 430 \<and> m < 450 then Some REM_MODE_FM
     else if m \<ge> 1240 \<and> m < 1300 then Some REM_MODE_FM
     else None)"

definition check_freq_rtx :: "string \<Rightarrow> int \<Rightarrow> int \<Rightarrow> int option" where
  "check_freq_rtx rig m d =
    (if rig = ''rtx150'' then
       (if m = 144 then (if d < 10100 then None else Some REM_MODE_FM)
        else if m \<ge> 145 \<and> m < 148 then Some REM_MODE_FM
        else None)
     else if m \<ge> 430 \<and> m < 450 then Some REM_MODE_FM else None)"

definition check_freq_xcat :: "int \<Rightarrow> int \<Rightarrow> int option" where
  "check_freq_xcat m d =
    (if m = 144 \<and> d < 10100 then None
     else if m = 29 then (if d > 70000 then None else Some REM_MODE_FM)
     else if m \<ge> 28 \<and> m < 30 then Some REM_MODE_FM
     else if m \<ge> 50 \<and> m < 54 then Some REM_MODE_FM
     else if m \<ge> 144 \<and> m < 148 then Some REM_MODE_FM
     else if m \<ge> 420 \<and> m < 450 then Some REM_MODE_FM
     else None)"

section \<open>Multimode radios\<close>

definition check_freq_ft897 :: "int \<Rightarrow> int \<Rightarrow> int option" where
  "check_freq_ft897 m d =
    (if m = 1 then (if d < 80000 then None else Some REM_MODE_LSB)
     else if m = 3 then (if d < 50000 then None else Some REM_MODE_LSB)
     else if m = 7 then (if d > 30000 then None else Some REM_MODE_LSB)
     else if m = 14 then (if d > 35000 then None else Some REM_MODE_USB)
     else if m = 18 then (if d < 6800 \<or> d > 16800 then None else Some REM_MODE_USB)
     else if m = 21 then (if d < 20000 \<or> d > 45000 then None else Some REM_MODE_USB)
     else if m = 24 then (if d < 89000 \<or> d > 99000 then None else Some REM_MODE_USB)
     else if m = 28 then Some REM_MODE_USB
     else if m = 29 then
       (if d > 70000 then None else Some (if d \<ge> 51000 then REM_MODE_FM else REM_MODE_USB))
     else if m = 50 then Some (if d \<ge> 30000 then REM_MODE_FM else REM_MODE_USB)
     else if m \<ge> 51 \<and> m < 54 then Some REM_MODE_FM
     else if m = 144 then Some (if d \<ge> 30000 then REM_MODE_FM else REM_MODE_USB)
     else if m \<ge> 145 \<and> m < 148 then Some REM_MODE_FM
     else if m \<ge> 430 \<and> m < 450 then Some (if m < 438 then REM_MODE_USB else REM_MODE_FM)
     else None)"

definition check_freq_ft100 :: "int \<Rightarrow> int \<Rightarrow> int option" where
  "check_freq_ft100 m d =
    (if m = 1 then (if d < 80000 then None else Some REM_MODE_LSB)
     else if m = 3 then (if d < 50000 then None else Some REM_MODE_LSB)
     else if m = 7 then (if d > 30000 then None else Some REM_MODE_LSB)
     else if m = 14 then (if d > 35000 then None else Some REM_MODE_USB)
     else if m = 18 then (if d < 6800 \<or> d > 16800 then None else Some REM_MODE_USB)
     else if m = 21 then (if d < 20000 \<or> d > 45000 then None else Some REM_MODE_USB)
     else if m = 24 then (if d < 89000 \<or> d > 99000 then None else Some REM_MODE_USB)
     else if m = 28 then Some REM_MODE_USB
     else if m = 29 then
       (if d > 70000 then None else Some (if d \<ge> 51000 then REM_MODE_FM else REM_MODE_USB))
     else if m = 50 then Some (if d \<ge> 30000 then REM_MODE_FM else REM_MODE_USB)
     else if m \<ge> 51 \<and> m < 54 then Some REM_MODE_FM
     else if m = 144 then Some (if d \<ge> 30000 then REM_MODE_FM else REM_MODE_USB)
     else if m \<ge> 145 \<and> m < 148 then Some REM_MODE_FM
     else if m \<ge> 430 \<and> m < 450 then Some (if m < 438 then REM_MODE_USB else REM_MODE_FM)
     else None)"

definition check_freq_ft950 :: "int \<Rightarrow> int \<Rightarrow> int option" where
  "check_freq_ft950 m d =
    (if m = 1 then (if d < 80000 then None else Some REM_MODE_LSB)
     else if m = 3 then (if d < 50000 then None else Some REM_MODE_LSB)
     else if m = 7 then (if d > 30000 then None else Some REM_MODE_LSB)
     else if m = 14 then (if d > 35000 then None else Some REM_MODE_USB)
     else if m = 18 then (if d < 6800 \<or> d > 16800 then None else Some REM_MODE_USB)
     else if m = 21 then (if d < 20000 \<or> d > 45000 then None else Some REM_MODE_USB)
     else if m = 24 then (if d < 89000 \<or> d > 99000 then None else Some REM_MODE_USB)
     else if m = 28 then Some REM_MODE_USB
     else if m = 29 then
       (if d > 70000 then None else Some (if d \<ge> 51000 then REM_MODE_FM else REM_MODE_USB))
     else if m = 50 then Some (if d \<ge> 30000 then REM_MODE_FM else REM_MODE_USB)
     else if m \<ge> 51 \<and> m < 54 then Some REM_MODE_FM
     else None)"

text \<open>
  The IC-706 keeps a return value and a mode: the amateur bands first, whose chain of cases has no
  final else, then with \<open>mars\<close> the receiver's other bands for what was refused.
\<close>

definition ic706_amateur :: "int \<Rightarrow> int \<Rightarrow> int \<times> int" where
  "ic706_amateur m d =
    (if m = 1 then (if d < 80000 then - 1 else 0, REM_MODE_LSB)
     else if m = 3 then (if d < 50000 then - 1 else 0, REM_MODE_LSB)
     else if m = 7 then (if d > 30000 then - 1 else 0, REM_MODE_LSB)
     else if m = 14 then (if d > 35000 then - 1 else 0, REM_MODE_USB)
     else if m = 18 then (if d < 6800 \<or> d > 16800 then - 1 else 0, REM_MODE_USB)
     else if m = 21 then (if d < 20000 \<or> d > 45000 then - 1 else 0, REM_MODE_USB)
     else if m = 24 then (if d < 89000 \<or> d > 99000 then - 1 else 0, REM_MODE_USB)
     else if m = 28 then (0, REM_MODE_USB)
     else if m = 29 then
       (if d > 70000 then - 1 else 0, if d \<ge> 51000 then REM_MODE_FM else REM_MODE_USB)
     else if m = 50 then (0, if d \<ge> 30000 then REM_MODE_FM else REM_MODE_USB)
     else if m \<ge> 51 \<and> m < 54 then (0, REM_MODE_FM)
     else if m = 144 then (0, if d \<ge> 30000 then REM_MODE_FM else REM_MODE_USB)
     else if m \<ge> 145 \<and> m < 148 then (0, REM_MODE_FM)
     else if m \<ge> 430 \<and> m < 450 then (0, if m < 438 then REM_MODE_USB else REM_MODE_FM)
     else (0, REM_MODE_FM))"

definition ic706_expanded :: "int \<Rightarrow> int \<Rightarrow> int \<times> int \<Rightarrow> int \<times> int" where
  "ic706_expanded m d r =
    (if m \<ge> 450 \<and> m < 470 then (0, REM_MODE_FM)
     else if m \<ge> 148 \<and> m < 174 then (0, REM_MODE_FM)
     else if m \<ge> 138 \<and> m < 144 then (0, REM_MODE_AM)
     else if m \<ge> 108 \<and> m < 138 then (0, REM_MODE_AM)
     else if (m = 0 \<and> d \<ge> 55000) \<or> (m = 1 \<and> d \<le> 75000) then (0, REM_MODE_AM)
     else if (m = 1 \<and> d > 75000) \<or> (m > 1 \<and> m < 30) then (0, REM_MODE_AM)
     else r)"

definition check_freq_ic706 :: "bool \<Rightarrow> int \<Rightarrow> int \<Rightarrow> int option" where
  "check_freq_ic706 mars m d =
    (let r = ic706_amateur m d;
         (rv, dflmd) = (if mars \<and> fst r < 0 then ic706_expanded m d r else r)
     in if rv = 0 then Some dflmd else None)"

section \<open>The choice by the name of the radio\<close>

definition is_rtx :: "string \<Rightarrow> bool" where
  "is_rtx rig \<longleftrightarrow> rig = ''rtx150'' \<or> rig = ''rtx450''"

definition check_freq :: "rig_conf \<Rightarrow> int \<Rightarrow> int \<Rightarrow> int option" where
  "check_freq c m d =
    (let rig = remoterig c
     in if rig = ''ft897'' then check_freq_ft897 m d
        else if rig = ''ft100'' then check_freq_ft100 m d
        else if rig = ''ft950'' then check_freq_ft950 m d
        else if rig = ''ic706'' then check_freq_ic706 (remote_mars c) m d
        else if rig = ''xcat'' then check_freq_xcat m d
        else if rig = ''rbi'' then check_freq_rbi m d
        else if rig = ''kenwood'' then check_freq_kenwood m d
        else if rig = ''tmd700'' then check_freq_kenwood m d
        else if rig = ''tm271'' then check_freq_tm271 m d
        else if is_rtx rig then check_freq_rtx rig m d
        else None)"

definition multimode_capable :: "string \<Rightarrow> bool" where
  "multimode_capable rig \<longleftrightarrow> rig = ''ft897'' \<or> rig = ''ft100'' \<or> rig = ''ft950'' \<or> rig = ''ic706''"

definition narrow_capable :: "string \<Rightarrow> bool" where
  "narrow_capable rig \<longleftrightarrow> rig = ''kenwood'' \<or> rig = ''tmd700'' \<or> rig = ''tm271''"

section \<open>Limits for transmitting\<close>

text \<open>The limits of a login level are a text of ranges; \<open>explode_string\<close> splits it at the commas outside of quotes.\<close>

definition eatwhite :: "string \<Rightarrow> string" where
  "eatwhite s = dropWhile (\<lambda>c. c = CHR '' '' \<or> c = CHR 0x09) s"

text \<open>
  The loop of \<open>explode_string\<close>: \<open>cur\<close> is the current substring so far, \<open>closed\<close> that a quote ended it (the
  zero written over the quote hides what follows, up to the next delimiter), \<open>l\<close> counts the delimiters.
  When the limit is reached, the last substring is the whole rest of the string.
\<close>

fun explode_loop ::
  "char \<Rightarrow> char option \<Rightarrow> nat \<Rightarrow> string list \<Rightarrow> string \<Rightarrow> bool \<Rightarrow> bool \<Rightarrow> nat \<Rightarrow> string \<Rightarrow> string list" where
  "explode_loop delim quote limit done cur closed inquo l [] = done @ [cur]"
| "explode_loop delim quote limit done cur closed inquo l (c # cs) =
    (if l \<ge> limit then done @ [if closed then cur else cur @ c # cs]
     else if quote = Some c then
       (if inquo then explode_loop delim quote limit done cur True False l cs
        else explode_loop delim quote limit done [] False True l cs)
     else if c = delim \<and> \<not> inquo then explode_loop delim quote limit (done @ [cur]) [] False inquo (l + 1) cs
     else explode_loop delim quote limit done (if closed then cur else cur @ [c]) closed inquo l cs)"

definition explode_string :: "nat \<Rightarrow> char \<Rightarrow> char option \<Rightarrow> string \<Rightarrow> string list" where
  "explode_string limit delim quote str =
    (if str = [] then [] else explode_loop delim quote limit [] [] False False 0 str)"

definition finddelim :: "string \<Rightarrow> nat \<Rightarrow> string list" where
  "finddelim str limit = explode_string limit CHR '','' (Some CHR 0x22) str"


text \<open>The decision for one range whose megahertz contain the radio's.\<close>

definition range_decides :: "int \<Rightarrow> int \<Rightarrow> int \<times> int \<Rightarrow> int \<times> int \<Rightarrow> int" where
  "range_decides radio_mhz radio_decimals lower_limit upper_limit =
    (let (llimit_mhz, llimit_decimals) = lower_limit; (ulimit_mhz, ulimit_decimals) = upper_limit
     in if radio_mhz = llimit_mhz then
          (if radio_decimals \<ge> llimit_decimals then
             (if llimit_mhz = ulimit_mhz then (if radio_decimals \<le> ulimit_decimals then 1 else 0) else 1)
           else 0)
        else if radio_mhz = ulimit_mhz then (if radio_decimals \<le> ulimit_decimals then 1 else 0)
        else 1)"

text \<open>
  A limit without a point leaves the texts of the limit before it in place, \<open>prev\<close>; before the first
  one they are uninitialised. A limit of 15 characters or more is copied without its end; a None result is
  undefined behaviour.
\<close>

definition limit_of :: "string \<Rightarrow> (int \<times> int) option \<Rightarrow> (int \<times> int) option" where
  "limit_of txt prev =
    (if length (eatwhite txt) \<ge> MAXREMSTR then None
     else case split_freq (eatwhite txt) of
       Some (mhz, decimals) \<Rightarrow> Some (atoi mhz, decimals2int decimals)
     | None \<Rightarrow> prev)"

fun check_ranges :: "int \<Rightarrow> int \<Rightarrow> (int \<times> int) option \<Rightarrow> string list \<Rightarrow> outcome" where
  "check_ranges radio_mhz radio_decimals prev [] = Ret 0"
| "check_ranges radio_mhz radio_decimals prev (rg # ranges) =
    (case split_at CHR ''-'' (take 39 rg) of
       None \<Rightarrow> Ret 0
     | Some (lo, hi) \<Rightarrow>
        (case limit_of lo prev of
           None \<Rightarrow> Undefined
         | Some llimit \<Rightarrow>
            (case limit_of hi (Some llimit) of
               None \<Rightarrow> Undefined
             | Some ulimit \<Rightarrow>
                if radio_mhz \<ge> fst llimit \<and> radio_mhz \<le> fst ulimit
                then Ret (range_decides radio_mhz radio_decimals llimit ulimit)
                else check_ranges radio_mhz radio_decimals (Some ulimit) ranges)))"

text \<open>The array \<open>limit_ranges\<close> has 40 places, and the last one is for the zero behind the ranges.\<close>

definition check_tx_freq :: "rpt \<Rightarrow> outcome" where
  "check_tx_freq s =
    (case txlimits (conf s) of
       None \<Rightarrow> Ret 1
     | Some limitlist \<Rightarrow>
        if loginuser s = [] \<or> loginlevel s = [] then Ret 1
        else if limitlist = [] then Ret 0
        else (case split_freq (freq s) of
            None \<Rightarrow> Undefined
          | Some (mhz, decimals) \<Rightarrow>
             (case map_of limitlist (loginlevel s) of
                None \<Rightarrow> Ret 0
              | Some value \<Rightarrow>
                 let ranges = finddelim (take 255 value) 40
                 in if length ranges \<ge> 40 then Undefined
                    else check_ranges (atoi mhz) (decimals2int decimals) None ranges)))"

end
