(* ===== verification/RigFm.thy ===== *)
theory RigFm
  imports RigBands
begin

text \<open>
  The FM radios of a remote base: the Kenwood radios with a text protocol (TM-G707 and its like, TM-D700,
  TM-271), the Doug Hall RBI-1 with its frame of five bytes, and the tones of a usbradio. \<open>buflen\<close> is
  the size RAD_SERIAL_BUFLEN of the buffers, a constant of the DAHDI headers.
\<close>

section \<open>The text protocol of Kenwood\<close>

definition KENWOOD_RETRIES :: nat where "KENWOOD_RETRIES = 5"

definition CR :: char where "CR = CHR 0x0D"

text \<open>The reply is the string in \<open>rxstr\<close>; the code takes a carriage return off when it is the last byte counted.\<close>

definition sendkenwood :: "port \<Rightarrow> nat \<Rightarrow> string \<Rightarrow> (int \<times> byte list) rig" where
  "sendkenwood port buflen txstr = do {
     (i, rxstr) \<leftarrow> serial_remote_io port (text_bytes txstr) (buflen - 1) True;
     return
      (if i < 0 then (- 1, rxstr)
       else if i > 0 \<and> rxstr ! nat (i - 1) = 13 then (i - 1, take (nat (i - 1)) rxstr)
       else (i, rxstr))
   }"

fun sendrx_loop :: "nat \<Rightarrow> port \<Rightarrow> nat \<Rightarrow> string \<Rightarrow> byte list \<Rightarrow> byte list \<Rightarrow> (int \<times> byte list) rig" where
  "sendrx_loop 0 port buflen txstr cmp rx = return (- 1, rx)"
| "sendrx_loop (Suc n) port buflen txstr cmp rx = do {
     (j, rxstr) \<leftarrow> sendkenwood port buflen txstr;
     if j < 0 then return (j, rxstr)
     else if j = 0 then sendrx_loop n port buflen txstr cmp rxstr
     else if take (length cmp) rxstr = cmp then return (0, rxstr)
     else sendrx_loop n port buflen txstr cmp rxstr
   }"

definition sendrxkenwood :: "port \<Rightarrow> nat \<Rightarrow> string \<Rightarrow> string \<Rightarrow> (int \<times> byte list) rig" where
  "sendrxkenwood port buflen txstr cmpstr =
     sendrx_loop KENWOOD_RETRIES port buflen txstr (text_bytes cmpstr) []"

text \<open>A command with its expected reply, when the caller only looks for a failure.\<close>

definition then_send :: "port \<Rightarrow> nat \<Rightarrow> string \<Rightarrow> string \<Rightarrow> outcome rig \<Rightarrow> outcome rig" where
  "then_send port buflen txstr cmpstr rest = do {
     (res, rxstr) \<leftarrow> sendrxkenwood port buflen txstr cmpstr;
     if res < 0 then return (Ret (- 1)) else rest
   }"

text \<open>An index outside the three entries of \<open>offsets\<close> or \<open>powers\<close> reads past them.\<close>

definition entry :: "int list \<Rightarrow> int \<Rightarrow> int option" where
  "entry table i = (if 0 \<le> i \<and> i < int (length table) then Some (table ! nat i) else None)"

definition flag :: "bool \<Rightarrow> int" where
  "flag b = (if b then 1 else 0)"

definition step_of :: "string \<Rightarrow> int" where
  "step_of decimals = (if decimals ! 3 \<noteq> CHR ''0'' \<or> decimals ! 4 \<noteq> CHR ''0'' then 1 else 0)"

definition setkenwood :: "port \<Rightarrow> nat \<Rightarrow> outcome rig" where
  "setkenwood port buflen =
     then_send port buflen (''VMC 0,0'' @ [CR]) ''VMC'' (do {
       s \<leftarrow> gets (\<lambda>s. s);
       case split_freq (freq s) of None \<Rightarrow> return Undefined
       | Some (mhz, decimals) \<Rightarrow>
         (let mysplit = split_of s mhz;
              (band, band1, band2) = (if atoi mhz > 400 then (''6'', ''1'', ''5'') else (''2'', ''0'', ''2''));
              myrxpl = rxplon s \<and> \<not> is_xpmr (conf s)
          in case entry [0, 2, 1] (offset s) of None \<Rightarrow> return Undefined
             | Some shift \<Rightarrow>
               then_send port buflen
                 (''VW '' @ band @ '','' @ padded 5 (atoi mhz) @ decimals @ ''0'' @ '','' @ decimal (step_of decimals)
                    @ '','' @ decimal shift @ '',0,'' @ decimal (flag (txplon s)) @ '','' @ decimal (flag myrxpl)
                    @ '',,'' @ padded 2 (kenwood_pltocode (txpl s)) @ '',,'' @ padded 2 (kenwood_pltocode (rxpl s))
                    @ '','' @ padded 6 mysplit @ ''000'' @ [CR]) ''VW''
               (then_send port buflen (''RBN '' @ band2 @ [CR]) ''RBN''
               (case entry [2, 1, 0] (powerlevel s) of None \<Rightarrow> return Undefined
                | Some pw \<Rightarrow>
                  then_send port buflen (''PC '' @ band1 @ '','' @ decimal pw @ [CR]) ''PC'' (return (Ret 0)))))
     })"

definition set_tmd700 :: "port \<Rightarrow> nat \<Rightarrow> outcome rig" where
  "set_tmd700 port buflen =
     then_send port buflen (''BC 0,0'' @ [CR]) ''BC'' (do {
       s \<leftarrow> gets (\<lambda>s. s);
       case split_freq (freq s) of None \<Rightarrow> return Undefined
       | Some (mhz, decimals) \<Rightarrow>
         (let mysplit = split_of s mhz;
              band = (if atoi mhz > 400 then 8 else 2);
              myrxpl = rxplon s \<and> \<not> is_xpmr (conf s);
              rbn = ''RBN '' @ decimal band @ [CR]
          in case entry [0, 2, 1] (offset s) of None \<Rightarrow> return Undefined
             | Some shift \<Rightarrow>
               then_send port buflen
                 (''VW '' @ decimal band @ '','' @ padded 5 (atoi mhz) @ decimals @ ''0'' @ '','' @ decimal (step_of decimals)
                    @ '','' @ decimal shift @ '',0,'' @ decimal (flag (txplon s)) @ '','' @ decimal (flag myrxpl)
                    @ '',0,'' @ padded 2 (kenwood_pltocode (txpl s)) @ '',0010,'' @ padded 2 (kenwood_pltocode (rxpl s))
                    @ '','' @ padded 6 mysplit @ ''000,0'' @ [CR]) ''VW''
               (then_send port buflen (''VMC 0,0'' @ [CR]) ''VMC'' (do {
                  (res, rxstr) \<leftarrow> sendrxkenwood port buflen (''RBN'' @ [CR]) ''RBN'';
                  if res < 0 then return (Ret (- 1))
                  else
                    (let rest = (case entry [2, 1, 0] (powerlevel s) of None \<Rightarrow> return Undefined
                       | Some pw \<Rightarrow>
                         then_send port buflen (''PC 0,'' @ decimal pw @ [CR]) ''PC'' (return (Ret 0)))
                     in if take 5 rxstr = take 5 (text_bytes rbn) then rest
                        else then_send port buflen rbn ''RBN'' rest)
                })))
     })"

definition set_tm271 :: "port \<Rightarrow> nat \<Rightarrow> outcome rig" where
  "set_tm271 port buflen = do {
     s \<leftarrow> gets (\<lambda>s. s);
     case split_freq (freq s) of None \<Rightarrow> return Undefined
     | Some (mhz, decimals) \<Rightarrow>
       (let mysplit = (if splitkhz s = 0 then default_split_2m (conf s) else splitkhz s)
        in case entry [0, 2, 1] (offset s) of None \<Rightarrow> return Undefined
           | Some shift \<Rightarrow>
             then_send port buflen (''VM 0'' @ [CR]) ''VM''
             (then_send port buflen
               (''VF '' @ padded 4 (atoi mhz) @ decimals @ ''0'' @ '','' @ decimal (step_of decimals) @ '','' @ decimal shift
                  @ '',0,'' @ decimal (flag (txplon s)) @ '',0,0,'' @ padded 2 (tm271_pltocode (txpl s)) @ '',00,000,''
                  @ padded 5 mysplit @ ''000,0,0'' @ [CR]) ''VF''
             (case entry [2, 1, 0] (powerlevel s) of None \<Rightarrow> return Undefined
              | Some pw \<Rightarrow>
                then_send port buflen (''PC '' @ decimal pw @ [CR]) ''PC'' (return (Ret 0)))))
   }"

section \<open>RBI-1\<close>

text \<open>The tests of the frequency that \<open>setrbi\<close>, \<open>setrbi_check\<close>, \<open>setrtx\<close> and \<open>setrtx_check\<close> share.\<close>

definition rbi_freq :: "string \<Rightarrow> (string \<times> string \<times> int) option" where
  "rbi_freq fr =
    (case split_at CHR ''.'' fr of None \<Rightarrow> None
     | Some (tmp, s) \<Rightarrow>
        if length tmp < 2 then None
        else if length s < 3 then None
        else if s ! 2 \<noteq> CHR ''0'' \<and> s ! 2 \<noteq> CHR ''5'' then None
        else if rbi_mhztoband tmp = - 1 then None
        else Some (tmp, s, rbi_mhztoband tmp))"

definition is_rbi :: "rpt \<Rightarrow> bool" where
  "is_rbi s \<longleftrightarrow> take 3 (remoterig (conf s)) = ''rbi''"

definition setrbi_check :: "rpt \<Rightarrow> int" where
  "setrbi_check s =
    (if \<not> remote (conf s) then 0
     else if \<not> is_rbi s then 0
     else case rbi_freq (freq s) of None \<Rightarrow> - 1
        | Some (tmp, dec, band) \<Rightarrow> if rbi_pltocode (txpl s) = - 1 then - 1 else 0)"

definition setrtx_check :: "rpt \<Rightarrow> int" where
  "setrtx_check s =
    (if \<not> remote (conf s) then 0
     else if \<not> is_rbi s then 0
     else case rbi_freq (freq s) of None \<Rightarrow> - 1
        | Some (tmp, dec, band) \<Rightarrow>
           if rbi_pltocode (txpl s) = - 1 then - 1
           else if rbi_pltocode (rxpl s) = - 1 then - 1 else 0)"

definition rbi_command :: "rpt \<Rightarrow> string \<Rightarrow> string \<Rightarrow> int \<Rightarrow> int \<Rightarrow> byte list" where
  "rbi_command s tmp dec band code =
    (let txoffset = (if offset s = REM_MINUS then 0 else if offset s = REM_PLUS then 0x10
                     else if offset s = REM_SIMPLEX then 0x20 else 0);
         txpower = (if powerlevel s = REM_LOWPWR then 0 else if powerlevel s = REM_MEDPWR then 0x20
                    else if powerlevel s = REM_HIPWR then 0x10 else 0);
         b2 = word_of_int (digit_val (last tmp)) OR txoffset OR 0x80;
         b4 = word_of_int code :: byte
     in [0,
         word_of_int band OR txpower OR 0xc0,
         if dec ! 2 = CHR ''5'' then b2 OR 0x40 else b2,
         nibbles (digit_val (dec ! 0)) (digit_val (dec ! 1)),
         b4 OR (if txplon s then 0x40 else 0) OR (if rxplon s then 0x80 else 0)])"

definition setrbi :: "int rig" where
  "setrbi = do {
     s \<leftarrow> gets (\<lambda>s. s);
     if remoterig (conf s) = '''' then return 0
     else if \<not> is_rbi s then return 0
     else if setrbi_check s = - 1 then return (- 1)
     else case rbi_freq (freq s) of None \<Rightarrow> return (- 1)
        | Some (tmp, dec, band) \<Rightarrow>
           if rbi_pltocode (rxpl s) = - 1 then return (- 1)
           else do { emit (Rbi (rbi_command s tmp dec band (rbi_pltocode (rxpl s)))); return 0 }
   }"

section \<open>The tones of a usbradio\<close>

definition setxpmr :: "bool \<Rightarrow> int rig" where
  "setxpmr dotx = do {
     s \<leftarrow> gets (\<lambda>s. s);
     if remoterig (conf s) = '''' then return 0
     else if is_rtx (remoterig (conf s)) then return 0
     else if \<not> is_xpmr (conf s) then return 0
     else if rbi_pltocode (rxpl s) = - 1 then return (- 1)
     else if dotx \<and> rbi_pltocode (txpl s) = - 1 then return (- 1)
     else do {
       emit (UsbText (''SETFREQ 0.0 0.0 '' @ (if rxplon s then rxpl s else ''0.0'') @ '' ''
              @ (if dotx \<and> txplon s then txpl s else ''0.0'') @ '' L''));
       return 0
     }
   }"

end
