(* ===== verification/RigYaesu.thy ===== *)
theory RigYaesu
  imports RigBands
begin

text \<open>
  The Yaesu radios of a remote base (apps/app_rpt.c): FT-897 and FT-100, which take commands of five bytes
  with packed decimals, and FT-950, which takes texts that end in a semicolon.
\<close>

section \<open>FT-897\<close>

text \<open>The texts of a frequency or tone as numbers, as most functions start.\<close>

definition freq_numbers :: "string \<Rightarrow> (int \<times> int) option" where
  "freq_numbers fr = map_option (\<lambda>(mhz, decimals). (atoi mhz, atoi decimals)) (split_freq fr)"

definition ctcss_numbers :: "string \<Rightarrow> (int \<times> int) option" where
  "ctcss_numbers tone = map_option (\<lambda>(hertz, decimal). (atoi hertz, atoi decimal)) (split_ctcss_freq tone)"

definition set_freq_ft897 :: "port \<Rightarrow> string \<Rightarrow> int rig" where
  "set_freq_ft897 port newfreq =
    (case freq_numbers newfreq of None \<Rightarrow> return (- 1)
     | Some (m, d) \<Rightarrow>
        command port
          [nibbles (m sdiv 100) ((m smod 100) sdiv 10),
           nibbles (m smod 10) (d sdiv 10000),
           nibbles ((d smod 10000) sdiv 1000) ((d smod 1000) sdiv 100),
           nibbles ((d smod 100) sdiv 10) (d smod 10),
           0x01])"

definition simple_command_ft897 :: "port \<Rightarrow> byte \<Rightarrow> int rig" where
  "simple_command_ft897 port cmd = command port [0, 0, 0, 0, cmd]"

definition set_offset_ft897 :: "port \<Rightarrow> int \<Rightarrow> int rig" where
  "set_offset_ft897 port off = do {
     s \<leftarrow> gets (\<lambda>s. s);
     case split_freq (freq s) of None \<Rightarrow> return (- 1)
     | Some (mhz, decimals) \<Rightarrow>
       (let mysplit = split_of s mhz * 1000 in do {
          res \<leftarrow> command port
            [word_of_int (mysplit sdiv 10000000 + (mysplit smod 10000000) sdiv 1000000),
             nibbles ((mysplit smod 1000000) sdiv 100000) ((mysplit smod 100000) sdiv 10000),
             nibbles ((mysplit smod 10000) sdiv 1000) ((mysplit smod 1000) sdiv 100),
             nibbles (mysplit smod 10) ((mysplit smod 100) sdiv 10),
             0xf9];
          if res \<noteq> 0 then return res
          else if off = REM_SIMPLEX then command port [0x89, 0, 0, 0, 0x09]
          else if off = REM_MINUS then command port [0x09, 0, 0, 0, 0x09]
          else if off = REM_PLUS then command port [0x49, 0, 0, 0, 0x09]
          else return (- 1)
        })
   }"

definition set_mode_ft897 :: "port \<Rightarrow> int \<Rightarrow> int rig" where
  "set_mode_ft897 port newmode =
    (if newmode = REM_MODE_FM then command port [0x08, 0, 0, 0, 0x07]
     else if newmode = REM_MODE_USB then command port [0x01, 0, 0, 0, 0x07]
     else if newmode = REM_MODE_LSB then command port [0x00, 0, 0, 0, 0x07]
     else if newmode = REM_MODE_AM then command port [0x04, 0, 0, 0, 0x07]
     else return (- 1))"

definition set_ctcss_mode_ft897 :: "port \<Rightarrow> bool \<Rightarrow> bool \<Rightarrow> int rig" where
  "set_ctcss_mode_ft897 port tx rx =
     command port
       [if rx \<and> tx then 0x2A else if \<not> rx \<and> tx then 0x4A else if rx \<and> \<not> tx then 0x3A else 0x8A,
        0, 0, 0, 0x0A]"

definition set_ctcss_freq_ft897 :: "port \<Rightarrow> string \<Rightarrow> string \<Rightarrow> int rig" where
  "set_ctcss_freq_ft897 port txtone rxtone =
    (case ctcss_numbers txtone of None \<Rightarrow> return (- 1)
     | Some (h, d) \<Rightarrow>
        (case ctcss_numbers rxtone of None \<Rightarrow> return (- 1)
         | Some (h', d') \<Rightarrow>
            command port
              [nibbles (h sdiv 100) ((h smod 100) sdiv 10),
               nibbles (h smod 10) (d smod 10),
               nibbles (h' sdiv 100) ((h' smod 100) sdiv 10),
               nibbles (h' smod 10) (d' smod 10),
               0x0B]))"

definition set_ft897 :: "port \<Rightarrow> int rig" where
  "set_ft897 port = do {
     s \<leftarrow> gets (\<lambda>s. s);
     res \<leftarrow> simple_command_ft897 port 0x00;
     res \<leftarrow> on_ok res (simple_command_ft897 port 0x88);
     res \<leftarrow> on_ok res (set_mode_ft897 port (remmode s));
     _ \<leftarrow> on_ok res (simple_command_ft897 port 0x82);
     res \<leftarrow> on_ok res (set_freq_ft897 port (freq s));
     res \<leftarrow> (if remmode s = REM_MODE_FM then do {
         res \<leftarrow> on_ok res (set_offset_ft897 port (offset s));
         res \<leftarrow> (if rxplon s \<or> txplon s then on_ok res (set_ctcss_freq_ft897 port (txpl s) (rxpl s)) else return res);
         on_ok res (set_ctcss_mode_ft897 port (txplon s) (rxplon s))
       } else return res);
     _ \<leftarrow> (if remmode s = REM_MODE_USB \<or> remmode s = REM_MODE_LSB
          then simple_command_ft897 port 0x85 else return 0);
     return res
   }"

definition closerem_ft897 :: "port \<Rightarrow> int rig" where
  "closerem_ft897 port = do { _ \<leftarrow> simple_command_ft897 port 0x88; return 0 }"

section \<open>Bumping the frequency\<close>

text \<open>
  The functions that move the frequency of the multimode radios by some hertz differ only in the check
  and in the command that follows. The megahertz take over or give up one megahertz when the tens of
  hertz leave their range.
\<close>

definition bumped :: "int \<Rightarrow> int \<Rightarrow> int \<Rightarrow> int \<times> int" where
  "bumped interval m d =
    (let d' = d + interval sdiv 10
     in if d' < 0 then (m - 1, d' + 100000)
        else if d' \<ge> 100000 then (m + 1, d' - 100000)
        else (m, d'))"

definition freq_text :: "int \<Rightarrow> int \<Rightarrow> string" where
  "freq_text m d = fit MAXREMSTR (decimal m @ ''.'' @ padded 5 d)"

definition bump_freq :: "(rig_conf \<Rightarrow> int \<Rightarrow> int \<Rightarrow> int option) \<Rightarrow> (int \<Rightarrow> int \<Rightarrow> int rig) \<Rightarrow> int \<Rightarrow> int rig" where
  "bump_freq check send interval = do {
     s \<leftarrow> gets (\<lambda>s. s);
     case freq_numbers (freq s) of None \<Rightarrow> return (- 1)
     | Some (m0, d0) \<Rightarrow>
        (let (m, d) = bumped interval m0 d0
         in if check (conf s) m d = None then return (- 1)
            else do { modify (freq_update (\<lambda>_. freq_text m d)); send m d })
   }"

definition multimode_bump_freq_ft897 :: "port \<Rightarrow> int \<Rightarrow> int rig" where
  "multimode_bump_freq_ft897 port =
     bump_freq (\<lambda>_. check_freq_ft897) (\<lambda>m d. do { fr \<leftarrow> gets freq; set_freq_ft897 port fr })"

section \<open>FT-100\<close>

definition set_freq_ft100 :: "port \<Rightarrow> string \<Rightarrow> int rig" where
  "set_freq_ft100 port newfreq =
    (case freq_numbers newfreq of None \<Rightarrow> return (- 1)
     | Some (m, d) \<Rightarrow>
        command port
          [nibbles ((d smod 100) sdiv 10) (d smod 10),
           nibbles ((d smod 10000) sdiv 1000) ((d smod 1000) sdiv 100),
           nibbles (m smod 10) (d sdiv 10000),
           nibbles (m sdiv 100) ((m smod 100) sdiv 10),
           0x0a])"

definition simple_command_ft100 :: "port \<Rightarrow> byte \<Rightarrow> byte \<Rightarrow> int rig" where
  "simple_command_ft100 port cmd p1 = command port [0, 0, 0, p1, cmd]"

definition set_offset_ft100 :: "port \<Rightarrow> int \<Rightarrow> int rig" where
  "set_offset_ft100 port off =
    (if off = REM_SIMPLEX then simple_command_ft100 port 0x84 0
     else if off = REM_MINUS then simple_command_ft100 port 0x84 1
     else if off = REM_PLUS then simple_command_ft100 port 0x84 2
     else return (- 1))"

definition set_mode_ft100 :: "port \<Rightarrow> int \<Rightarrow> int rig" where
  "set_mode_ft100 port newmode =
    (if newmode = REM_MODE_FM then simple_command_ft100 port 0x0c 6
     else if newmode = REM_MODE_USB then simple_command_ft100 port 0x0c 1
     else if newmode = REM_MODE_LSB then simple_command_ft100 port 0x0c 0
     else if newmode = REM_MODE_AM then simple_command_ft100 port 0x0c 4
     else return (- 1))"

definition set_ctcss_mode_ft100 :: "port \<Rightarrow> bool \<Rightarrow> bool \<Rightarrow> int rig" where
  "set_ctcss_mode_ft100 port tx rx =
     simple_command_ft100 port 0x92 (if rx then 2 else if \<not> rx \<and> tx then 1 else 0)"

definition set_ctcss_freq_ft100 :: "port \<Rightarrow> string \<Rightarrow> string \<Rightarrow> int rig" where
  "set_ctcss_freq_ft100 port txtone rxtone =
     simple_command_ft100 port 0x90 (word_of_int (ft100_pltocode rxtone))"

definition set_ft100 :: "port \<Rightarrow> int rig" where
  "set_ft100 port = do {
     s \<leftarrow> gets (\<lambda>s. s);
     res \<leftarrow> set_mode_ft100 port (remmode s);
     _ \<leftarrow> on_ok res (simple_command_ft100 port 0x01 0);
     res \<leftarrow> on_ok res (set_freq_ft100 port (freq s));
     if remmode s = REM_MODE_FM then do {
       res \<leftarrow> on_ok res (set_offset_ft100 port (offset s));
       res \<leftarrow> (if rxplon s \<or> txplon s then on_ok res (set_ctcss_freq_ft100 port (txpl s) (rxpl s)) else return res);
       on_ok res (set_ctcss_mode_ft100 port (txplon s) (rxplon s))
     } else return res
   }"

definition closerem_ft100 :: "port \<Rightarrow> int rig" where
  "closerem_ft100 port = do { _ \<leftarrow> simple_command_ft100 port 0x0f 0; return 0 }"

definition multimode_bump_freq_ft100 :: "port \<Rightarrow> int \<Rightarrow> int rig" where
  "multimode_bump_freq_ft100 port =
     bump_freq (\<lambda>_. check_freq_ft100) (\<lambda>m d. do { fr \<leftarrow> gets freq; set_freq_ft100 port fr })"

section \<open>FT-950\<close>

definition text_command :: "port \<Rightarrow> string \<Rightarrow> int rig" where
  "text_command port cmd = command port (text_bytes cmd)"

definition set_freq_ft950 :: "port \<Rightarrow> string \<Rightarrow> int rig" where
  "set_freq_ft950 port newfreq =
    (case freq_numbers newfreq of None \<Rightarrow> return (- 1)
     | Some (m, d) \<Rightarrow> text_command port (''FA'' @ decimal m @ padded 6 (d * 10) @ '';''))"

definition set_offset_ft950 :: "port \<Rightarrow> int \<Rightarrow> int rig" where
  "set_offset_ft950 port off =
    (if off = REM_SIMPLEX then text_command port ''OS00;''
     else if off = REM_MINUS then text_command port ''OS02;''
     else if off = REM_PLUS then text_command port ''OS01;''
     else return (- 1))"

definition set_mode_ft950 :: "port \<Rightarrow> int \<Rightarrow> int rig" where
  "set_mode_ft950 port newmode =
    (if newmode = REM_MODE_FM then text_command port ''MD04;''
     else if newmode = REM_MODE_USB then text_command port ''MD02;''
     else if newmode = REM_MODE_LSB then text_command port ''MD01;''
     else if newmode = REM_MODE_AM then text_command port ''MD05;''
     else return (- 1))"

definition set_ctcss_mode_ft950 :: "port \<Rightarrow> bool \<Rightarrow> bool \<Rightarrow> int rig" where
  "set_ctcss_mode_ft950 port tx rx =
     text_command port
       (if rx \<and> tx then ''CT01;'' else if \<not> rx \<and> tx then ''CT02;'' else if rx \<and> \<not> tx then ''CT02;'' else ''CT00;'')"

text \<open>The length of the command is given as 5.\<close>

definition set_ctcss_freq_ft950 :: "port \<Rightarrow> string \<Rightarrow> string \<Rightarrow> int rig" where
  "set_ctcss_freq_ft950 port txtone rxtone =
    (let c = ft950_pltocode txtone
     in if c < 0 then return (- 1) else text_command port (take 5 (''CN0'' @ padded 2 c @ '';'')))"

definition set_ft950 :: "port \<Rightarrow> int rig" where
  "set_ft950 port = do {
     s \<leftarrow> gets (\<lambda>s. s);
     res \<leftarrow> text_command port ''MX0;'';
     res \<leftarrow> text_command port ''AN01;'';
     res \<leftarrow> on_ok res (set_mode_ft950 port (remmode s));
     res \<leftarrow> on_ok res (text_command port ''OS00;'');
     res \<leftarrow> on_ok res (text_command port ''FR0;'');
     res \<leftarrow> on_ok res (text_command port ''FT2;'');
     res \<leftarrow> on_ok res (set_freq_ft950 port (freq s));
     res \<leftarrow> (if remmode s = REM_MODE_FM then do {
         res \<leftarrow> on_ok res (set_offset_ft950 port (offset s));
         res \<leftarrow> (if rxplon s \<or> txplon s then on_ok res (set_ctcss_freq_ft950 port (txpl s) (rxpl s)) else return res);
         on_ok res (set_ctcss_mode_ft950 port (txplon s) (rxplon s))
       } else return res);
     _ \<leftarrow> (if remmode s = REM_MODE_USB \<or> remmode s = REM_MODE_LSB
          then text_command port ''RT0;'' else return 0);
     return res
   }"

definition multimode_bump_freq_ft950 :: "port \<Rightarrow> int \<Rightarrow> int rig" where
  "multimode_bump_freq_ft950 port =
     bump_freq (\<lambda>_. check_freq_ft950) (\<lambda>m d. do { fr \<leftarrow> gets freq; set_freq_ft950 port fr })"

end
