(* ===== verification/RigIcom.thy ===== *)
theory RigIcom
  imports RigYaesu
begin

text \<open>
  The radios of a remote base with the CI-V protocol (apps/app_rpt.c): Icom IC-706 and XCAT. A command is
  the preamble FE FE, the address of the radio, E0, the command with its data, and FD.
\<close>

definition civ_frame :: "rpt \<Rightarrow> byte list \<Rightarrow> byte list" where
  "civ_frame s body = [0xfe, 0xfe, civaddr (conf s), 0xe0] @ body @ [0xfd]"

definition civ :: "port \<Rightarrow> byte list \<Rightarrow> int rig" where
  "civ port body = do { s \<leftarrow> gets (\<lambda>s. s); civ_cmd port (civ_frame s body) }"

text \<open>The frequency as five bytes of packed decimals, tens of hertz first.\<close>

definition civ_freq :: "int \<Rightarrow> int \<Rightarrow> byte list" where
  "civ_freq m d =
    [nibbles (d smod 10) 0,
     nibbles ((d smod 1000) sdiv 100) ((d smod 100) sdiv 10),
     nibbles (d sdiv 10000) ((d smod 10000) sdiv 1000),
     nibbles ((m smod 100) sdiv 10) (m smod 10),
     word_of_int (m sdiv 100)]"

section \<open>IC-706\<close>

definition IC706_PL_MEMORY_OFFSET :: int where "IC706_PL_MEMORY_OFFSET = 50"

definition simple_command_ic706 :: "port \<Rightarrow> byte \<Rightarrow> byte \<Rightarrow> int rig" where
  "simple_command_ic706 port cmd subcommand = civ port [cmd, subcommand]"

definition set_freq_ic706 :: "port \<Rightarrow> string \<Rightarrow> int rig" where
  "set_freq_ic706 port newfreq =
    (case freq_numbers newfreq of None \<Rightarrow> return (- 1)
     | Some (m, d) \<Rightarrow> civ port (5 # civ_freq m d))"

definition set_offset_ic706 :: "port \<Rightarrow> int \<Rightarrow> int rig" where
  "set_offset_ic706 port off = do {
     s \<leftarrow> gets (\<lambda>s. s);
     case split_freq (freq s) of None \<Rightarrow> return (- 1)
     | Some (mhz, decimals) \<Rightarrow>
       (let mysplit = split_of s mhz * 10 in do {
          res \<leftarrow> civ port
            [0x0d,
             nibbles (mysplit smod 10) ((mysplit smod 100) sdiv 10),
             nibbles ((mysplit smod 10000) sdiv 1000) ((mysplit smod 1000) sdiv 100),
             nibbles (mysplit sdiv 100000) ((mysplit smod 100000) sdiv 10000)];
          if res \<noteq> 0 then return res
          else if off = REM_SIMPLEX then simple_command_ic706 port 0x0f 0x10
          else if off = REM_MINUS then simple_command_ic706 port 0x0f 0x11
          else if off = REM_PLUS then simple_command_ic706 port 0x0f 0x12
          else return (- 1)
        })
   }"

definition set_mode_ic706 :: "port \<Rightarrow> int \<Rightarrow> int rig" where
  "set_mode_ic706 port newmode =
    (if newmode = REM_MODE_FM then simple_command_ic706 port 6 5
     else if newmode = REM_MODE_USB then simple_command_ic706 port 6 1
     else if newmode = REM_MODE_LSB then simple_command_ic706 port 6 0
     else if newmode = REM_MODE_AM then simple_command_ic706 port 6 2
     else return (- 1))"

definition set_ctcss_mode_ic706 :: "port \<Rightarrow> bool \<Rightarrow> bool \<Rightarrow> int rig" where
  "set_ctcss_mode_ic706 port tx rx = do {
     rv \<leftarrow> civ port [0x16, 0x42, if tx then 1 else 0];
     if rv \<noteq> 0 then return (- 1) else civ port [0x16, 0x43, if rx then 1 else 0]
   }"

definition vfo_ic706 :: "port \<Rightarrow> int rig" where
  "vfo_ic706 port = civ port [7]"

definition mem2vfo_ic706 :: "port \<Rightarrow> int rig" where
  "mem2vfo_ic706 port = civ port [0x0a]"

definition select_mem_ic706 :: "port \<Rightarrow> int \<Rightarrow> int rig" where
  "select_mem_ic706 port slot = civ port [8, 0, nibbles (slot sdiv 10) (slot smod 10)]"

definition set_ic706 :: "port \<Rightarrow> int rig" where
  "set_ic706 port = do {
     s \<leftarrow> gets (\<lambda>s. s);
     res \<leftarrow> simple_command_ic706 port 7 0;
     let i = ic706_pltocode (rxpl s);
     if remmode s = REM_MODE_FM \<and> i = - 1 then return (- 1)
     else do {
       res \<leftarrow> (if remmode s = REM_MODE_FM then do {
           res \<leftarrow> on_ok res (select_mem_ic706 port (i + IC706_PL_MEMORY_OFFSET));
           on_ok res (mem2vfo_ic706 port)
         } else return res);
       res \<leftarrow> on_ok res (vfo_ic706 port);
       res \<leftarrow> on_ok res (set_mode_ic706 port (remmode s));
       _ \<leftarrow> on_ok res (simple_command_ic706 port 0x82 0);
       res \<leftarrow> on_ok res (set_freq_ic706 port (freq s));
       if remmode s = REM_MODE_FM then do {
         res \<leftarrow> on_ok res (set_offset_ic706 port (offset s));
         on_ok res (set_ctcss_mode_ic706 port (txplon s) (rxplon s))
       } else return res
     }
   }"

text \<open>Here the command 0 (no acknowledgement) carries the new frequency.\<close>

definition multimode_bump_freq_ic706 :: "port \<Rightarrow> int \<Rightarrow> int rig" where
  "multimode_bump_freq_ic706 port =
     bump_freq (\<lambda>c. check_freq_ic706 (remote_mars c))
       (\<lambda>m d. do { s \<leftarrow> gets (\<lambda>s. s); command port (civ_frame s (0 # civ_freq m d)) })"

section \<open>XCAT\<close>

definition simple_command_xcat :: "port \<Rightarrow> byte \<Rightarrow> byte \<Rightarrow> int rig" where
  "simple_command_xcat port cmd subcommand = civ port [cmd, subcommand]"

definition set_freq_xcat :: "port \<Rightarrow> string \<Rightarrow> int rig" where
  "set_freq_xcat port newfreq =
    (case freq_numbers newfreq of None \<Rightarrow> return (- 1)
     | Some (m, d) \<Rightarrow> civ port (5 # civ_freq m d))"

text \<open>The split in hertz as an int of 32 bits, low byte first.\<close>

definition set_offset_xcat :: "port \<Rightarrow> int \<Rightarrow> int rig" where
  "set_offset_xcat port off = do {
     s \<leftarrow> gets (\<lambda>s. s);
     case split_freq (freq s) of None \<Rightarrow> return (- 1)
     | Some (mhz, decimals) \<Rightarrow>
       (let mysplit = word_of_int (split_of s mhz * 1000) :: 32 word in do {
          res \<leftarrow> civ port
            [0xaa, 0x06, ucast (mysplit AND 0xff), ucast (signed_drop_bit 8 mysplit AND 0xff),
             ucast (signed_drop_bit 16 mysplit AND 0xff), ucast (signed_drop_bit 24 mysplit AND 0xff)];
          if res < 0 then return (- 1)
          else if off = REM_SIMPLEX then simple_command_xcat port 0x0f 0x10
          else if off = REM_MINUS then simple_command_xcat port 0x0f 0x11
          else if off = REM_PLUS then simple_command_xcat port 0x0f 0x12
          else return (- 1)
        })
   }"

definition set_ctcss_freq_xcat :: "port \<Rightarrow> string \<Rightarrow> string \<Rightarrow> int rig" where
  "set_ctcss_freq_xcat port txtone rxtone =
    (case ctcss_numbers txtone of None \<Rightarrow> return (- 1)
     | Some (h, d) \<Rightarrow> do {
        rv \<leftarrow> civ port
          [0x1b, 0, nibbles (h sdiv 100) ((h smod 100) sdiv 10), nibbles (h smod 10) (d smod 10)];
        if rv \<noteq> 0 then return (- 1)
        else (case ctcss_numbers rxtone of None \<Rightarrow> return (- 1)
          | Some (h, d) \<Rightarrow>
             civ port [0x1b, 1, nibbles (h sdiv 100) ((h smod 100) sdiv 10), nibbles (h smod 10) (d smod 10)])
      })"

definition set_xcat :: "port \<Rightarrow> int rig" where
  "set_xcat port = do {
     s \<leftarrow> gets (\<lambda>s. s);
     res \<leftarrow> simple_command_xcat port 8 1;
     res \<leftarrow> on_ok res (set_offset_xcat port REM_SIMPLEX);
     res \<leftarrow> on_ok res (set_freq_xcat port (freq s));
     res \<leftarrow> on_ok res (set_offset_xcat port (offset s));
     res \<leftarrow> on_ok res (set_ctcss_freq_xcat port (if txplon s then txpl s else ''0.0'')
                                              (if rxplon s then rxpl s else ''0.0''));
     on_ok res (set_freq_xcat port (freq s))
   }"

end
