(* ===== verification/RigRemote.thy ===== *)
theory RigRemote
  imports RigFm RigIcom
begin

text \<open>
  The remote base as its user sees it (apps/app_rpt.c): sending the settings to the radio, the memories,
  scanning, and \<open>function_remote\<close>, the commands entered as digits. \<open>lookup\<close> is the memory stanza of the
  configuration. \<open>fmt\<close> stands for the floating point arithmetic of \<open>setrtx\<close>: the text of the transmit
  frequency, for the text of the frequency and the signed split in kHz. Logging and the text to a
  webtransceiver are left out.
\<close>

section \<open>Sending the settings\<close>

definition setrtx :: "(string \<Rightarrow> int \<Rightarrow> string) \<Rightarrow> int rig" where
  "setrtx fmt = do {
     s \<leftarrow> gets (\<lambda>s. s);
     if remoterig (conf s) = [] then return 0
     else if \<not> is_rtx (remoterig (conf s)) then return 0
     else if \<not> is_xpmr (conf s) then return 0
     else case rbi_freq (freq s) of None \<Rightarrow> return (- 1)
        | Some _ \<Rightarrow>
           if rbi_pltocode (rxpl s) = - 1 then return (- 1)
           else if rbi_pltocode (txpl s) = - 1 then return (- 1)
           else if setrtx_check s < 0 then return (setrtx_check s)
           else
             (let mysplit =
                (if splitkhz s = 0
                 then if remoterig (conf s) = ''rtx450'' then default_split_70cm (conf s)
                      else default_split_2m (conf s)
                 else splitkhz s);
                  ofac = (if offset s = REM_SIMPLEX then 0 else if offset s = REM_MINUS then - mysplit else mysplit);
                  pwr = (if powerlevel s = REM_HIPWR then ''H'' else ''L'')
              in do {
                emit (UsbText (''SETFREQ '' @ freq s @ '' '' @ fmt (freq s) ofac @ '' ''
                  @ (if rxplon s then rxpl s else ''0.0'') @ '' '' @ (if txplon s then txpl s else ''0.0'')
                  @ '' '' @ pwr));
                rpt_telemetry COMPLETE;
                return 0
              })
   }"

definition setrem :: "(string \<Rightarrow> int \<Rightarrow> string) \<Rightarrow> int rig" where
  "setrem fmt = do {
     s \<leftarrow> gets (\<lambda>s. s);
     let rig = remoterig (conf s);
     if rig = ''ft897'' \<or> rig = ''ft100'' \<or> rig = ''ft950'' \<or> rig = ''ic706'' \<or> rig = ''xcat'' \<or> rig = ''tm271''
     then do { rpt_telemetry SETREMOTE; return 0 }
     else if rig = ''tmd700'' then do { rpt_telemetry SETREMOTE; return 0 }
     else if rig = ''rbi'' then
       (let res = setrbi_check s
        in if res = 0 then do { rpt_telemetry SETREMOTE; return 0 } else return res)
     else if is_rtx rig then do { _ \<leftarrow> setrtx fmt; return 0 }
     else if rig = ''kenwood'' then do { rpt_telemetry SETREMOTE; return 0 }
     else return 0
   }"

text \<open>What the telemetry SETREMOTE does: the choice of the function that programs the radio.\<close>

definition set_radio :: "port \<Rightarrow> nat \<Rightarrow> outcome rig" where
  "set_radio port buflen = do {
     s \<leftarrow> gets (\<lambda>s. s);
     let rig = remoterig (conf s);
     if rig = ''ft897'' then do { res \<leftarrow> set_ft897 port; return (Ret res) }
     else if rig = ''ft100'' then do { res \<leftarrow> set_ft100 port; return (Ret res) }
     else if rig = ''ft950'' then do { res \<leftarrow> set_ft950 port; return (Ret res) }
     else if rig = ''tm271'' then do { _ \<leftarrow> setxpmr False; set_tm271 port buflen }
     else if rig = ''ic706'' then do { res \<leftarrow> set_ic706 port; return (Ret res) }
     else if rig = ''xcat'' then do { res \<leftarrow> set_xcat port; return (Ret res) }
     else if rig = ''rbi'' \<or> rig = ''ppp16'' then do { res \<leftarrow> setrbi; return (Ret res) }
     else if rig = ''kenwood'' then do { res \<leftarrow> setkenwood port buflen; _ \<leftarrow> setxpmr False; return res }
     else if rig = ''tmd700'' then do { res \<leftarrow> set_tmd700 port buflen; _ \<leftarrow> setxpmr False; return res }
     else return (Ret 0)
   }"

definition closerem :: "port \<Rightarrow> int rig" where
  "closerem port = do {
     s \<leftarrow> gets (\<lambda>s. s);
     if remoterig (conf s) = ''ft897'' then closerem_ft897 port
     else if remoterig (conf s) = ''ft100'' then closerem_ft100 port
     else return 0
   }"

section \<open>Bumping and scanning\<close>

definition multimode_bump_freq :: "port \<Rightarrow> int \<Rightarrow> int rig" where
  "multimode_bump_freq port interval = do {
     s \<leftarrow> gets (\<lambda>s. s);
     if remoterig (conf s) = ''ft897'' then multimode_bump_freq_ft897 port interval
     else if remoterig (conf s) = ''ft950'' then multimode_bump_freq_ft950 port interval
     else if remoterig (conf s) = ''ic706'' then multimode_bump_freq_ic706 port interval
     else if remoterig (conf s) = ''ft100'' then multimode_bump_freq_ft100 port interval
     else return (- 1)
   }"

definition stop_scan :: "unit rig" where
  "stop_scan = do { modify (hfscanstop_update (\<lambda>_. True)); rpt_telemetry SCAN }"

definition scan_interval :: "int \<Rightarrow> int option" where
  "scan_interval mode = map_of [(1, - 10), (2, - 50), (3, - 200), (4, 10), (5, 50), (6, 200)] mode"

text \<open>The announcement when the digit of 10 kHz changed.\<close>

definition scan_status :: "int \<Rightarrow> string \<Rightarrow> string \<Rightarrow> int" where
  "scan_status interval decs decs' =
    (if decs ! 1 \<noteq> decs' ! 1 then
       (let myhund = (if interval < 0 then decs ! 0 else decs' ! 0);
            myten = (if interval < 0 then decs ! 1 else decs' ! 1)
        in if myten = CHR ''0'' then digit_val myhund * 100 else digit_val myten * 10)
     else 0)"

definition scan_failed :: "int rig" where
  "scan_failed = do { modify (\<lambda>s. s\<lparr>hfscanmode := 0, hfscanstatus := - 2\<rparr>); return (- 1) }"

definition service_scan :: "port \<Rightarrow> int rig" where
  "service_scan port = do {
     s \<leftarrow> gets (\<lambda>s. s);
     case scan_interval (hfscanmode s) of
       None \<Rightarrow> do { modify (hfscanmode_update (\<lambda>_. 0)); return (- 1) }
     | Some interval \<Rightarrow>
        (case split_freq (freq s) of None \<Rightarrow> scan_failed
         | Some (mhz, decs) \<Rightarrow> do {
            res \<leftarrow> multimode_bump_freq port interval;
            s' \<leftarrow> gets (\<lambda>s. s);
            if res \<noteq> 0 then scan_failed
            else case split_freq (freq s') of None \<Rightarrow> scan_failed
              | Some (mhz', decs') \<Rightarrow> do {
                  modify (hfscanstatus_update (\<lambda>_. scan_status interval decs decs'));
                  return 0
                }
          })
   }"

text \<open>
  One call of the scanning telemetry, and the tuning of an antenna: a carrier in AM while a tone is played (\<open>tone\<close>:
  the tone was played to its end), then the mode of before. When the tone fails, the rest is left out.
  What is said on the channel is left out of the model.
\<close>

definition scan_tick :: "port \<Rightarrow> unit rig" where
  "scan_tick port = do {
     s \<leftarrow> gets (\<lambda>s. s);
     if hfscanstop s then modify (\<lambda>s. s\<lparr>hfscanstatus := 0, hfscanmode := 0, hfscanstop := False\<rparr>)
     else do {
       _ \<leftarrow> (if hfscanstatus s > - 2 then service_scan port else return 0);
       modify (hfscanstatus_update (\<lambda>_. 0))
     }
   }"

definition tune_radio :: "port \<Rightarrow> bool \<Rightarrow> unit rig" where
  "tune_radio port tone = do {
     s \<leftarrow> gets (\<lambda>s. s);
     let rig = remoterig (conf s);
     if rig = ''ic706'' then do {
       _ \<leftarrow> set_mode_ic706 port REM_MODE_AM;
       if \<not> tone then return ()
       else do { _ \<leftarrow> set_mode_ic706 port (remmode s); modify (tunerequest_update (\<lambda>_. False)) }
     }
     else if rig = ''ft100'' then do {
       _ \<leftarrow> set_mode_ft100 port REM_MODE_AM;
       _ \<leftarrow> simple_command_ft100 port 0x0f 1;
       if \<not> tone then return ()
       else do {
         _ \<leftarrow> simple_command_ft100 port 0x0f 0;
         _ \<leftarrow> set_mode_ft100 port (remmode s);
         modify (tunerequest_update (\<lambda>_. False))
       }
     }
     else do {
       _ \<leftarrow> set_mode_ft897 port REM_MODE_AM;
       modify (tunetx_update (\<lambda>_. True));
       if \<not> tone then return ()
       else do {
         modify (tunetx_update (\<lambda>_. False));
         _ \<leftarrow> set_mode_ft897 port (remmode s);
         modify (tunerequest_update (\<lambda>_. False))
       }
     }
   }"

section \<open>Memories\<close>

definition memory_flag :: "char \<Rightarrow> rpt \<Rightarrow> rpt option" where
  "memory_flag c s =
    (if c = CHR ''A'' \<or> c = CHR ''a'' then Some (s\<lparr>rxpl := ''100.0'', txpl := ''100.0'', remmode := REM_MODE_AM\<rparr>)
     else if c = CHR ''B'' \<or> c = CHR ''b'' then Some (s\<lparr>rxpl := ''100.0'', txpl := ''100.0'', remmode := REM_MODE_LSB\<rparr>)
     else if c = CHR ''F'' then Some (s\<lparr>remmode := REM_MODE_FM\<rparr>)
     else if c = CHR ''L'' \<or> c = CHR ''l'' then Some (s\<lparr>powerlevel := REM_LOWPWR\<rparr>)
     else if c = CHR ''H'' \<or> c = CHR ''h'' then Some (s\<lparr>powerlevel := REM_HIPWR\<rparr>)
     else if c = CHR ''M'' \<or> c = CHR ''m'' then Some (s\<lparr>powerlevel := REM_MEDPWR\<rparr>)
     else if c = CHR ''-'' then Some (s\<lparr>offset := REM_MINUS\<rparr>)
     else if c = CHR ''+'' then Some (s\<lparr>offset := REM_PLUS\<rparr>)
     else if c = CHR ''S'' \<or> c = CHR ''s'' then Some (s\<lparr>offset := REM_SIMPLEX\<rparr>)
     else if c = CHR ''T'' \<or> c = CHR ''t'' then Some (s\<lparr>txplon := True\<rparr>)
     else if c = CHR ''R'' \<or> c = CHR ''r'' then Some (s\<lparr>rxplon := True\<rparr>)
     else if c = CHR ''U'' \<or> c = CHR ''u'' then Some (s\<lparr>rxpl := ''100.0'', txpl := ''100.0'', remmode := REM_MODE_USB\<rparr>)
     else None)"

fun memory_flags :: "string \<Rightarrow> rpt \<Rightarrow> int \<times> rpt" where
  "memory_flags [] s = (0, s)"
| "memory_flags (c # cs) s = (case memory_flag c s of None \<Rightarrow> (1, s) | Some s' \<Rightarrow> memory_flags cs s')"

definition retrieve_memory :: "(string \<Rightarrow> string option) \<Rightarrow> string \<Rightarrow> int rig" where
  "retrieve_memory lookup memory =
    (case lookup memory of None \<Rightarrow> return (- 1)
     | Some val \<Rightarrow>
       (case split_at CHR '','' (take 29 val) of None \<Rightarrow> return 1
        | Some (fr, rest) \<Rightarrow>
          (case split_at CHR '','' rest of None \<Rightarrow> return 1
           | Some (pl, s1) \<Rightarrow>
             (let (split, flags) = (case split_at CHR '','' s1 of None \<Rightarrow> (0, s1) | Some (sp, fl) \<Rightarrow> (atoi sp, fl))
              in do {
                modify (\<lambda>s. s\<lparr>freq := fit MAXREMSTR fr, rxpl := fit MAXREMSTR pl, txpl := fit MAXREMSTR pl,
                  remmode := REM_MODE_FM, offset := REM_SIMPLEX, powerlevel := REM_MEDPWR,
                  txplon := False, rxplon := False, splitkhz := split\<rparr>);
                State (memory_flags flags)
              }))))"

definition get_mem_set :: "(string \<Rightarrow> string option) \<Rightarrow> (string \<Rightarrow> int \<Rightarrow> string) \<Rightarrow> string \<Rightarrow> int rig" where
  "get_mem_set lookup fmt digitbuf = do {
     res \<leftarrow> retrieve_memory lookup digitbuf;
     on_ok res (setrem fmt)
   }"

end
