(* ===== verification/RigTuning.thy ===== *)
theory RigTuning
  imports RigRemote
begin

text \<open>
  The frequency of a remote base: the texts and the numbers they stand for, the commands that carry a
  frequency to each radio, moving it by steps, and the bands. A frequency is counted in tens of hertz.
\<close>

section \<open>Packed decimals\<close>

definition bcd_byte :: "byte \<Rightarrow> int" where
  "bcd_byte b = uint b div 16 * 10 + uint b mod 16"

definition bcd :: "byte list \<Rightarrow> int" where
  "bcd bs = foldl (\<lambda>v b. v * 100 + bcd_byte b) 0 bs"

lemma smod_sdiv: "a smod b = a - a sdiv b * (b :: int)"
  using sdiv_mult_smod_eq [of a b] by simp

lemma sdiv_smod_nonneg [simp]:
  "0 \<le> a \<Longrightarrow> 0 < b \<Longrightarrow> a sdiv b = a div (b :: int)"
  "0 \<le> a \<Longrightarrow> 0 < b \<Longrightarrow> a smod b = a mod (b :: int)"
  by (simp_all add: sdiv_nonneg smod_sdiv minus_div_mult_eq_mod)

lemma bcd_nibbles [simp]:
  assumes "0 \<le> hi" "hi < 10" "0 \<le> lo" "lo < 10"
  shows "bcd_byte (nibbles hi lo) = 10 * hi + lo"
proof -
  have "uint (nibbles hi lo) = (hi * 16 + lo) mod 2 ^ 8"
    by (simp only: nibbles_def uint_word_of_int) simp
  then have "uint (nibbles hi lo) = hi * 16 + lo" using assms by simp
  then show ?thesis using assms by (simp add: bcd_byte_def)
qed

lemma bcd_small [simp]: "0 \<le> n \<Longrightarrow> n < 10 \<Longrightarrow> bcd_byte (word_of_int n) = n"
  by (simp add: bcd_byte_def uint_word_of_int)

text \<open>The decimal digits of a number of three and of five places.\<close>

lemma div_less_digit: "r < n * k \<Longrightarrow> 0 < k \<Longrightarrow> r div k < (n :: int)"
proof (rule ccontr)
  assume *: "r < n * k" "0 < k" "\<not> r div k < n"
  then have "n * k \<le> r div k * k" by (intro mult_right_mono) simp_all
  also have "\<dots> \<le> r" using *(2) div_mult_mod_eq [of r k] pos_mod_sign [of k r] by linarith
  finally show False using *(1) by simp
qed

lemma middle_digit:
  "0 \<le> n mod 100 div 10" "n mod 100 div 10 < (10 :: int)"
  "0 \<le> n mod 1000 div 100" "n mod 1000 div 100 < (10 :: int)"
  "0 \<le> n mod 10000 div 1000" "n mod 10000 div 1000 < (10 :: int)"
proof -
  have "0 \<le> x mod (10 * k) div k \<and> x mod (10 * k) div k < 10" if "0 < k" for x k :: int
    using that pos_mod_bound [of "10 * k" x] pos_mod_sign [of "10 * k" x]
    by (simp add: div_less_digit pos_imp_zdiv_nonneg_iff)
  from this [of 10 n] this [of 100 n] this [of 1000 n]
  show "0 \<le> n mod 100 div 10" "n mod 100 div 10 < (10 :: int)"
    "0 \<le> n mod 1000 div 100" "n mod 1000 div 100 < (10 :: int)"
    "0 \<le> n mod 10000 div 1000" "n mod 10000 div 1000 < (10 :: int)" by simp_all
qed

lemma split_digit:
  "n mod 100 div 10 * 10 + n mod 10 = n mod (100 :: int)"
  "n mod 1000 div 100 * 100 + n mod 100 = n mod (1000 :: int)"
  "n mod 10000 div 1000 * 1000 + n mod 1000 = n mod (10000 :: int)"
proof -
  have "x mod (a * k) div k * k + x mod k = x mod (a * k)" for x a k :: int
    using div_mult_mod_eq [of "x mod (a * k)" k] by (simp add: mod_mod_cancel)
  from this [of n 10 10] this [of n 10 100] this [of n 10 1000]
  show "n mod 100 div 10 * 10 + n mod 10 = n mod (100 :: int)"
    "n mod 1000 div 100 * 100 + n mod 100 = n mod (1000 :: int)"
    "n mod 10000 div 1000 * 1000 + n mod 1000 = n mod (10000 :: int)" by simp_all
qed

lemma mhz_digits: "m div 100 * 100 + m mod 100 div 10 * 10 + m mod 10 = (m :: int)"
  by (simp only: add.assoc split_digit div_mult_mod_eq)

lemma tens_digits:
  "d div 10000 * 10000 + d mod 10000 div 1000 * 1000 + d mod 1000 div 100 * 100 + d mod 100 div 10 * 10 + d mod 10
     = (d :: int)"
  by (simp only: add.assoc split_digit div_mult_mod_eq)

lemma top_digit:
  "0 \<le> m \<Longrightarrow> m < 1000 \<Longrightarrow> 0 \<le> m div 100 \<and> m div 100 < (10 :: int)"
  "0 \<le> d \<Longrightarrow> d < 100000 \<Longrightarrow> 0 \<le> d div 10000 \<and> d div 10000 < (10 :: int)"
  by (simp_all add: div_less_digit)

section \<open>Texts of frequencies\<close>

lemma split_freq_text:
  "\<lbrakk>list_all is_digit u; list_all is_digit v; length v = 5\<rbrakk> \<Longrightarrow> split_freq (u @ CHR ''.'' # v) = Some (u, v)"
  by (simp add: split_freq_def split_at_append not_in_digits)

lemma digits_decimal: "0 \<le> n \<Longrightarrow> list_all is_digit (decimal n)"
  by (simp add: decimal_def)

lemma length_decimal: "0 \<le> n \<Longrightarrow> n < 10 ^ k \<Longrightarrow> 0 < k \<Longrightarrow> length (decimal n) \<le> k"
  using length_decimal_nat [of n k] by (simp add: decimal_def)

lemma digits_value_shift:
  "list_all is_digit v \<Longrightarrow> digits_value n v = n * 10 ^ length v + digits_value 0 v"
proof (induction v arbitrary: n)
  case (Cons c v)
  from Cons.IH [of "10 * n + digit_val c"] Cons.IH [of "digit_val c"] Cons.prems
  show ?case by (simp add: algebra_simps)
qed simp

lemma atoi_decimal_padded:
  "0 \<le> m \<Longrightarrow> 0 \<le> n \<Longrightarrow> atoi (decimal m @ padded w n) = m * 10 ^ length (padded w n) + n"
  using atoi_digits [of "decimal m" "padded w n"] digits_value_shift [of "padded w n" m]
  by (simp add: decimal_def digits_value_append padded_def)

lemma freq_text_numbers:
  assumes "0 \<le> m" "m < 10 ^ 8" "0 \<le> d" "d < 100000"
  shows "freq_numbers (freq_text m d) = Some (m, d)"
proof -
  have len: "length (padded 5 d) = 5" using assms by (intro length_padded) simp_all
  have "length (decimal m) \<le> 8" using assms by (intro length_decimal) simp_all
  then have "freq_text m d = decimal m @ CHR ''.'' # padded 5 d"
    using len by (simp add: freq_text_def fit_def MAXREMSTR_def)
  then show ?thesis
    using assms len split_freq_text [of "decimal m" "padded 5 d"]
    by (simp add: freq_numbers_def digits_decimal)
qed

section \<open>Commands that carry a frequency\<close>

text \<open>The frequency in tens of hertz.\<close>

definition tens :: "int \<Rightarrow> int \<Rightarrow> int" where
  "tens m d = 100000 * m + d"

definition ft897_freq :: "int \<Rightarrow> int \<Rightarrow> byte list" where
  "ft897_freq m d =
    [nibbles (m div 100) (m mod 100 div 10), nibbles (m mod 10) (d div 10000),
     nibbles (d mod 10000 div 1000) (d mod 1000 div 100), nibbles (d mod 100 div 10) (d mod 10)]"

lemma bcd_ft897_freq:
  assumes "0 \<le> m" "m < 1000" "0 \<le> d" "d < 100000"
  shows "bcd (ft897_freq m d) = tens m d"
proof -
  have "bcd (ft897_freq m d) =
      (((10 * (m div 100) + m mod 100 div 10) * 100 + (10 * (m mod 10) + d div 10000)) * 100
        + (10 * (d mod 10000 div 1000) + d mod 1000 div 100)) * 100 + (10 * (d mod 100 div 10) + d mod 10)"
    using assms top_digit by (simp add: bcd_def ft897_freq_def middle_digit)
  then show ?thesis using mhz_digits [of m] tens_digits [of d] by (simp add: tens_def)
qed

lemma bcd_civ_freq:
  assumes "0 \<le> m" "m < 1000" "0 \<le> d" "d < 100000"
  shows "bcd (rev (civ_freq m d)) = tens m d * 10"
proof -
  have "bcd (rev (civ_freq m d)) =
      ((((m div 100) * 100 + (10 * (m mod 100 div 10) + m mod 10)) * 100
        + (10 * (d div 10000) + d mod 10000 div 1000)) * 100
        + (10 * (d mod 1000 div 100) + d mod 100 div 10)) * 100 + 10 * (d mod 10)"
    using assms top_digit by (simp add: bcd_def civ_freq_def middle_digit)
  then show ?thesis using mhz_digits [of m] tens_digits [of d] by (simp add: tens_def)
qed

definition sent :: "'a \<times> rpt \<Rightarrow> rpt \<Rightarrow> byte list \<Rightarrow> bool" where
  "sent r s tx \<longleftrightarrow> snd r = s\<lparr>events := events s @ [Serial tx]\<rparr>"

lemma run_set_freq_ft897:
  assumes "freq_numbers fr = Some (m, d)" "0 \<le> m" "0 \<le> d"
  shows "run_state (set_freq_ft897 port fr) s = run_state (command port (ft897_freq m d @ [0x01])) s"
  using assms by (simp add: set_freq_ft897_def ft897_freq_def)

lemma run_set_freq_ft100:
  assumes "freq_numbers fr = Some (m, d)" "0 \<le> m" "0 \<le> d"
  shows "run_state (set_freq_ft100 port fr) s = run_state (command port (rev (ft897_freq m d) @ [0x0a])) s"
  using assms by (simp add: set_freq_ft100_def ft897_freq_def)

lemma run_set_freq_ft950:
  assumes "freq_numbers fr = Some (m, d)" "0 \<le> d"
  shows "run_state (set_freq_ft950 port fr) s =
    run_state (command port (text_bytes (''FA'' @ decimal m @ padded 6 (d * 10) @ '';''))) s"
  using assms by (simp add: set_freq_ft950_def text_command_def)

lemma run_civ_cmd: "snd (run_state (civ_cmd port cmd) s) = s\<lparr>events := events s @ [Serial cmd]\<rparr>"
  by (simp add: civ_cmd_def Let_def case_prod_unfold)

lemma run_civ: "snd (run_state (civ port body) s) = s\<lparr>events := events s @ [Serial (civ_frame s body)]\<rparr>"
  by (simp add: civ_def run_civ_cmd)

section \<open>Moving the frequency\<close>

lemma tens_bumped:
  assumes "bumped i m d = (m', d')" "0 \<le> d" "d < 100000" "\<bar>i\<bar> \<le> 1000000"
  shows "tens m' d' = tens m d + i sdiv 10 \<and> 0 \<le> d' \<and> d' < 100000 \<and> m - 1 \<le> m' \<and> m' \<le> m + 1"
proof -
  have "i sdiv 10 = (if i < 0 then - (- i div 10) else i div 10)"
    by (simp add: signed_divide_int_def sgn_if)
  then have "\<bar>i sdiv 10\<bar> \<le> 100000" using assms(4) by (auto split: if_splits)
  then show ?thesis using assms by (auto simp: bumped_def tens_def Let_def split: if_splits)
qed

text \<open>
  What the multimode radios have in common: after the check, a command that depends on the new frequency
  goes to the line, and nothing else happens.
\<close>

locale multimode_radio =
  fixes port :: port
    and check :: "rig_conf \<Rightarrow> int \<Rightarrow> int \<Rightarrow> int option"
    and tune :: "int \<Rightarrow> int \<Rightarrow> int rig"
    and tuning :: "rpt \<Rightarrow> int \<Rightarrow> int \<Rightarrow> byte list"
  assumes run_tune:
    "\<lbrakk>freq s = freq_text m d; 0 \<le> m; m < 10 ^ 8; 0 \<le> d; d < 100000\<rbrakk>
      \<Longrightarrow> run_state (tune m d) s = run_state (command port (tuning s m d)) s"
begin

lemma bump_refused:
  assumes "freq_numbers (freq s) = Some (m0, d0)" "bumped i m0 d0 = (m, d)" "check (conf s) m d = None"
  shows "run_state (bump_freq check tune i) s = (- 1, s)"
  using assms by (simp add: bump_freq_def)

lemma bump_taken:
  assumes "freq_numbers (freq s) = Some (m0, d0)" "bumped i m0 d0 = (m, d)" "check (conf s) m d \<noteq> None"
    and "0 \<le> m" "m < 10 ^ 8" "0 \<le> d" "d < 100000"
  shows "run_state (bump_freq check tune i) s =
    run_state (command port (tuning (s\<lparr>freq := freq_text m d\<rparr>) m d)) (s\<lparr>freq := freq_text m d\<rparr>)"
  using assms run_tune [of "s\<lparr>freq := freq_text m d\<rparr>" m d] by (auto simp: bump_freq_def)

end

interpretation ft897: multimode_radio port "\<lambda>_. check_freq_ft897" "\<lambda>m d. do { fr \<leftarrow> gets freq; set_freq_ft897 port fr }"
    "\<lambda>s m d. ft897_freq m d @ [0x01]" for port
  by unfold_locales (simp add: run_set_freq_ft897 freq_text_numbers)

interpretation ft100: multimode_radio port "\<lambda>_. check_freq_ft100" "\<lambda>m d. do { fr \<leftarrow> gets freq; set_freq_ft100 port fr }"
    "\<lambda>s m d. rev (ft897_freq m d) @ [0x0a]" for port
  by unfold_locales (simp add: run_set_freq_ft100 freq_text_numbers)

interpretation ft950: multimode_radio port "\<lambda>_. check_freq_ft950" "\<lambda>m d. do { fr \<leftarrow> gets freq; set_freq_ft950 port fr }"
    "\<lambda>s m d. text_bytes (''FA'' @ decimal m @ padded 6 (d * 10) @ '';'')" for port
  by unfold_locales (simp add: run_set_freq_ft950 freq_text_numbers)

interpretation ic706: multimode_radio port "\<lambda>c. check_freq_ic706 (remote_mars c)"
    "\<lambda>m d. do { s \<leftarrow> gets (\<lambda>s. s); command port (civ_frame s (0 # civ_freq m d)) }"
    "\<lambda>s m d. civ_frame s (0 # civ_freq m d)" for port
  by unfold_locales simp

end
