(* ===== verification/RigFrames.thy ===== *)
theory RigFrames
  imports RigTuning
begin

text \<open>
  The frame of the RBI-1, read as the comment in front of rbi_mhztoband lays it out, the acknowledgement of
  CI-V, and the retries of the Kenwood protocol.
\<close>

section \<open>RBI-1\<close>

text \<open>The fields of the frame: the band stands for the tens of megahertz.\<close>

definition rbi_bands :: "(int \<times> int) list" where
  "rbi_bands = [(10, 2), (11, 5), (2, 14), (3, 22), (4, 44), (0, 124), (1, 125), (8, 126), (5, 127), (6, 128), (7, 129)]"

definition rbi_khz :: "byte list \<Rightarrow> int option" where
  "rbi_khz f =
    (case map_of rbi_bands (uint (f ! 1 AND 15)) of None \<Rightarrow> None
     | Some tens_of_mhz \<Rightarrow>
        Some ((tens_of_mhz * 10 + uint (f ! 2 AND 15)) * 1000 + bcd_byte (f ! 3) * 10
          + (if bit (f ! 2) 6 then 5 else 0)))"

definition rbi_power :: "byte list \<Rightarrow> int" where
  "rbi_power f = uint (drop_bit 4 (f ! 1) AND 3)"

definition rbi_shift :: "byte list \<Rightarrow> int" where
  "rbi_shift f = uint (drop_bit 4 (f ! 2) AND 3)"

definition rbi_tone :: "byte list \<Rightarrow> int \<times> bool \<times> bool" where
  "rbi_tone f = (uint (f ! 4 AND 63), bit (f ! 4) 6, bit (f ! 4) 7)"

lemma band_of:
  "rbi_mhztoband tmp \<noteq> - 1 \<Longrightarrow> 0 \<le> atoi tmp \<Longrightarrow>
     map_of rbi_bands (rbi_mhztoband tmp) = Some (atoi tmp div 10) \<and> 0 \<le> rbi_mhztoband tmp \<and> rbi_mhztoband tmp < 16"
  by (auto simp: rbi_mhztoband_def rbi_bands_def split: if_splits)

text \<open>The bytes of the frame for the values the fields can take, by evaluation.\<close>

definition rbi_byte1 :: "int \<Rightarrow> byte \<Rightarrow> byte" where
  "rbi_byte1 band pw = word_of_int band OR pw OR 0xc0"

definition rbi_byte2 :: "int \<Rightarrow> byte \<Rightarrow> bool \<Rightarrow> byte" where
  "rbi_byte2 digit off five =
    (let b = word_of_int digit OR off OR 0x80 in if five then b OR 0x40 else b)"

definition rbi_byte4 :: "int \<Rightarrow> bool \<Rightarrow> bool \<Rightarrow> byte" where
  "rbi_byte4 code tx rx = word_of_int code OR (if tx then 0x40 else 0) OR (if rx then 0x80 else 0)"

lemma byte1_table:
  "list_all (\<lambda>band. list_all (\<lambda>pw. uint (rbi_byte1 band (word_of_int (16 * pw)) AND 15) = band
      \<and> uint (drop_bit 4 (rbi_byte1 band (word_of_int (16 * pw))) AND 3) = pw) [0..2]) [0..15]"
  by code_simp

lemma byte2_table:
  "list_all (\<lambda>digit. list_all (\<lambda>off. list_all (\<lambda>five.
      uint (rbi_byte2 digit (word_of_int (16 * off)) five AND 15) = digit
      \<and> uint (drop_bit 4 (rbi_byte2 digit (word_of_int (16 * off)) five) AND 3) = off
      \<and> bit (rbi_byte2 digit (word_of_int (16 * off)) five) 6 = five) [False, True]) [0..2]) [0..9]"
  by code_simp

lemma byte4_table:
  "list_all (\<lambda>code. list_all (\<lambda>tx. list_all (\<lambda>rx.
      uint (rbi_byte4 code tx rx AND 63) = code \<and> bit (rbi_byte4 code tx rx) 6 = tx \<and> bit (rbi_byte4 code tx rx) 7 = rx)
      [False, True]) [False, True]) [0..37]"
  by code_simp

lemma rbi_code_range:
  assumes "rbi_pltocode str \<noteq> - 1"
  shows "0 \<le> rbi_pltocode str \<and> rbi_pltocode str \<le> 37"
proof -
  have t: "list_all (\<lambda>(tone, code). 0 \<le> code \<and> code \<le> 37) rbi_tones" by code_simp
  obtain code where c: "map_of rbi_tones (pl_value str) = Some code"
    using assms by (cases "map_of rbi_tones (pl_value str)") (simp_all add: rbi_pltocode_def pl_code_def)
  have "0 \<le> code \<and> code \<le> 37" using t map_of_SomeD [OF c] by (auto simp: list_all_iff)
  then show ?thesis using c by (simp add: rbi_pltocode_def pl_code_def)
qed

lemma digits_value_last:
  "list_all is_digit u \<Longrightarrow> u \<noteq> [] \<Longrightarrow> digits_value 0 u = 10 * digits_value 0 (butlast u) + digit_val (last u)"
  by (induction u rule: rev_induct) (simp_all add: digits_value_append)

lemma digits_value_nonneg: "list_all is_digit u \<Longrightarrow> 0 \<le> n \<Longrightarrow> 0 \<le> digits_value n u"
proof (induction u arbitrary: n)
  case (Cons c u)
  show ?case using Cons.prems Cons.IH [of "10 * n + digit_val c"] digit_val_range [of c] by simp
qed simp

lemma digits_last: "list_all is_digit u \<Longrightarrow> u \<noteq> [] \<Longrightarrow> 0 \<le> digit_val (last u) \<and> digit_val (last u) \<le> 9"
  using digit_val_range [of "last u"] by (simp add: list_all_iff)

lemma rbi_mhz:
  assumes "list_all is_digit tmp" "tmp \<noteq> []"
  shows "atoi tmp div 10 * 10 + digit_val (last tmp) = atoi tmp \<and> 0 \<le> atoi tmp"
proof -
  have a: "atoi tmp = digits_value 0 tmp" using assms atoi_digits [of tmp "[]"] by simp
  have "10 * digits_value 0 (butlast tmp) + digit_val (last tmp) = atoi tmp"
    using digits_value_last [OF assms] a by simp
  then have "atoi tmp div 10 = digits_value 0 (butlast tmp)" using digits_last [OF assms] by linarith
  then show ?thesis using digits_value_last [OF assms] digits_value_nonneg [OF assms(1), of 0] a by simp
qed

lemma rbi_khz_digits:
  assumes "list_all is_digit dec" "3 \<le> length dec" "dec ! 2 = CHR ''0'' \<or> dec ! 2 = CHR ''5''"
  shows "bcd_byte (nibbles (digit_val (dec ! 0)) (digit_val (dec ! 1))) * 10 + (if dec ! 2 = CHR ''5'' then 5 else 0)
    = atoi (take 3 dec)"
proof -
  obtain a b c r where d: "dec = a # b # c # r"
    using assms(2) by (metis One_nat_def Suc_le_length_iff numeral_3_eq_3)
  then have "is_digit a" "is_digit b" "is_digit c" using assms(1) by simp_all
  then show ?thesis
    using assms(3) d digit_val_range [of a] digit_val_range [of b] atoi_digits [of "[a, b, c]" "[]"]
    by (auto simp: digit_val_def)
qed

text \<open>C39. The frame of the RBI-1, read field by field, says what the settings of the remote base say: the
  frequency to 5 kHz, the power, the direction of the repeater split, and the tone with its two switches.
  (The tone is that of the receiver.)\<close>

theorem rbi_frame_reads_back:
  assumes "remoterig (conf s) = ''rbi''" "rbi_freq (freq s) = Some (tmp, dec, band)"
    and "list_all is_digit tmp" "list_all is_digit dec"
    and "rbi_pltocode (txpl s) \<noteq> - 1" "rbi_pltocode (rxpl s) \<noteq> - 1"
    and "offset s \<in> {REM_SIMPLEX, REM_MINUS, REM_PLUS}" "powerlevel s \<in> {REM_LOWPWR, REM_MEDPWR, REM_HIPWR}"
  shows "\<exists>f. run_state setrbi s = (0, s\<lparr>events := events s @ [Rbi f]\<rparr>) \<and> length f = 5
    \<and> rbi_khz f = Some (atoi tmp * 1000 + atoi (take 3 dec))
    \<and> rbi_power f = (if powerlevel s = REM_LOWPWR then 0 else if powerlevel s = REM_MEDPWR then 2 else 1)
    \<and> rbi_shift f = (if offset s = REM_MINUS then 0 else if offset s = REM_PLUS then 1 else 2)
    \<and> rbi_tone f = (rbi_pltocode (rxpl s), txplon s, rxplon s)"
proof -
  define code where "code = rbi_pltocode (rxpl s)"
  define pw where "pw = (if powerlevel s = REM_LOWPWR then 0 else if powerlevel s = REM_MEDPWR then 2 else 1 :: int)"
  define off where "off = (if offset s = REM_MINUS then 0 else if offset s = REM_PLUS then 1 else 2 :: int)"
  have f: "2 \<le> length tmp" "3 \<le> length dec" "dec ! 2 = CHR ''0'' \<or> dec ! 2 = CHR ''5''"
      "band = rbi_mhztoband tmp" "rbi_mhztoband tmp \<noteq> - 1"
    using assms(2) by (auto simp: rbi_freq_def split: option.splits if_splits)
  have ne: "tmp \<noteq> []" using f(1) by auto
  note mhz = rbi_mhz [OF assms(3) ne]
  have band: "map_of rbi_bands band = Some (atoi tmp div 10)" "0 \<le> band" "band < 16"
    using band_of [OF f(5) mhz [THEN conjunct2]] f(4) by simp_all
  note last = digits_last [OF assms(3) ne]
  have cmd: "rbi_command s tmp dec band code =
      [0, rbi_byte1 band (word_of_int (16 * pw)), rbi_byte2 (digit_val (last tmp)) (word_of_int (16 * off)) (dec ! 2 = CHR ''5''),
       nibbles (digit_val (dec ! 0)) (digit_val (dec ! 1)), rbi_byte4 code (txplon s) (rxplon s)]"
    using assms(7,8) by (auto simp: rbi_command_def rbi_byte1_def rbi_byte2_def rbi_byte4_def pw_def off_def Let_def)
  have pw: "pw \<in> set [0..2]" and off: "off \<in> set [0..2]" by (simp_all add: pw_def off_def)
  have b1: "uint (rbi_byte1 band (word_of_int (16 * pw)) AND 15) = band
      \<and> uint (drop_bit 4 (rbi_byte1 band (word_of_int (16 * pw))) AND 3) = pw"
    using byte1_table band pw unfolding list_all_iff by simp
  have b2: "uint (rbi_byte2 (digit_val (last tmp)) (word_of_int (16 * off)) five AND 15) = digit_val (last tmp)
      \<and> uint (drop_bit 4 (rbi_byte2 (digit_val (last tmp)) (word_of_int (16 * off)) five) AND 3) = off
      \<and> bit (rbi_byte2 (digit_val (last tmp)) (word_of_int (16 * off)) five) 6 = five" for five
    using byte2_table last off unfolding list_all_iff by (cases five) simp_all
  have b4: "uint (rbi_byte4 code tx rx AND 63) = code \<and> bit (rbi_byte4 code tx rx) 6 = tx \<and> bit (rbi_byte4 code tx rx) 7 = rx"
    for tx rx using byte4_table rbi_code_range [OF assms(6)] unfolding list_all_iff code_def by (cases tx; cases rx) simp_all
  have run: "run_state setrbi s = (0, s\<lparr>events := events s @ [Rbi (rbi_command s tmp dec band code)]\<rparr>)"
    using assms(1,2,5,6) by (simp add: setrbi_def setrbi_check_def is_rbi_def code_def)
  have khz: "rbi_khz (rbi_command s tmp dec band code) = Some (atoi tmp * 1000 + atoi (take 3 dec))"
    using b1 b2 band(1) mhz rbi_khz_digits [OF assms(4) f(2,3)] by (simp add: rbi_khz_def cmd algebra_simps)
  show ?thesis
    using run khz b1 b2 b4
    by (intro exI [of _ "rbi_command s tmp dec band code"])
       (simp add: cmd rbi_power_def rbi_shift_def rbi_tone_def code_def [symmetric] pw_def [symmetric] off_def [symmetric])
qed

theorem rbi_frame_reads_back_witness:
  "\<exists>f. run_state setrbi (ex_rpt ''rbi'' ''146.940'') = (0, (ex_rpt ''rbi'' ''146.940'')\<lparr>events := [Rbi f]\<rparr>)
    \<and> rbi_khz f = Some 146940 \<and> rbi_power f = 2 \<and> rbi_shift f = 0 \<and> rbi_tone f = (11, True, False)"
proof -
  have r: "rbi_freq ''146.940'' = Some (''146'', ''940'', 2)" "rbi_pltocode ''100.0'' = 11"
    "atoi ''146'' = 146" "atoi ''940'' = 940" "list_all is_digit ''146''" "list_all is_digit ''940''" by code_simp+
  show ?thesis
    using rbi_frame_reads_back [of "ex_rpt ''rbi'' ''146.940''" "''146''" "''940''" 2] r
    by (fastforce simp: ex_rpt_def ex_conf_def numeral_3_eq_3)
qed

section \<open>CI-V\<close>






section \<open>Kenwood\<close>


definition after_sends :: "nat \<Rightarrow> string \<Rightarrow> rpt \<Rightarrow> rpt" where
  "after_sends k txstr s = s\<lparr>events := events s @ replicate k (Serial (text_bytes txstr))\<rparr>"

lemma after_sends_simps [simp]:
  "after_sends 0 txstr s = s"
  "after_sends k txstr (after_sends (Suc 0) txstr s) = after_sends (Suc k) txstr s"
  by (simp_all add: after_sends_def replicate_append_same [symmetric])




section \<open>Both protocols\<close>



end
