(* ===== verification/RigLimits.thy ===== *)
theory RigLimits
  imports RigFrames
begin

text \<open>
  The limits for transmitting: a table entry of frequency ranges for the login level of the user. The
  check compares megahertz and decimals case by case; here that is the order of pairs.
\<close>

definition at_most :: "int \<times> int \<Rightarrow> int \<times> int \<Rightarrow> bool" where
  "at_most a b \<longleftrightarrow> fst a < fst b \<or> fst a = fst b \<and> snd a \<le> snd b"

lemma range_decides_order:
  assumes "fst lo \<le> m" "m \<le> fst hi"
  shows "range_decides m d lo hi = (if at_most lo (m, d) \<and> at_most (m, d) hi then 1 else 0)"
  using assms by (cases lo; cases hi) (auto simp: range_decides_def at_most_def)

text \<open>A range of the table, as a well-formed text gives it.\<close>

definition range_of :: "string \<Rightarrow> ((int \<times> int) \<times> (int \<times> int)) option" where
  "range_of txt = (case split_at CHR ''-'' (take 39 txt) of
     None \<Rightarrow> None
   | Some (lo, hi) \<Rightarrow> (case (limit_of lo None, limit_of hi None) of
       (Some l, Some h) \<Rightarrow> Some (l, h) | _ \<Rightarrow> None))"

text \<open>The range that decides: the first one whose megahertz contain those of the radio.\<close>

definition deciding :: "int \<Rightarrow> ((int \<times> int) \<times> (int \<times> int)) list \<Rightarrow> ((int \<times> int) \<times> (int \<times> int)) option" where
  "deciding m rs = find (\<lambda>(lo, hi). fst lo \<le> m \<and> m \<le> fst hi) rs"

lemma limit_of_prev: "limit_of txt None = Some l \<Longrightarrow> limit_of txt prev = Some l"
  by (auto simp: limit_of_def split: option.splits)

lemma check_ranges_deciding:
  "map range_of ranges = map Some rs \<Longrightarrow>
   check_ranges m d prev ranges =
     (case deciding m rs of None \<Rightarrow> Ret 0
      | Some (lo, hi) \<Rightarrow> Ret (if at_most lo (m, d) \<and> at_most (m, d) hi then 1 else 0))"
proof (induction ranges arbitrary: rs prev)
  case Nil
  then show ?case by (simp add: deciding_def)
next
  case (Cons r ranges)
  then obtain lo hi rs' where rs: "rs = (lo, hi) # rs'" "range_of r = Some (lo, hi)" "map range_of ranges = map Some rs'"
    by (cases rs) auto
  then obtain a b where ab: "split_at CHR ''-'' (take 39 r) = Some (a, b)" "limit_of a None = Some lo" "limit_of b None = Some hi"
    by (auto simp: range_of_def split: option.splits)
  show ?case
    using ab rs Cons.IH [OF rs(3)] limit_of_prev [OF ab(2)] limit_of_prev [OF ab(3)]
    by (auto simp: deciding_def range_decides_order)
qed

text \<open>C38. Without limits, without a user name or without a login level every frequency is allowed. Otherwise the limits are the
  entry of the login level, and when its ranges are well formed and fewer than 40, transmitting is allowed
  exactly when the frequency lies inside the first range whose megahertz contain its megahertz. So what is allowed
  always lies in a range of the entry, and a level without an entry may not transmit; but of two ranges that share a
  megahertz only the first one counts.\<close>

theorem tx_limits:
  assumes "\<forall>table ent. txlimits (conf s) = Some table \<and> map_of table (loginlevel s) = Some ent \<longrightarrow>
      map range_of (finddelim (take 255 ent) 40) = map Some rs \<and> length rs < 40"
  shows "(txlimits (conf s) = None \<or> loginuser s = [] \<or> loginlevel s = [] \<longrightarrow> check_tx_freq s = Ret 1)
    \<and> (\<forall>table mhz decs. txlimits (conf s) = Some table \<and> loginuser s \<noteq> [] \<and> loginlevel s \<noteq> []
          \<and> split_freq (freq s) = Some (mhz, decs) \<longrightarrow>
        check_tx_freq s =
         (let f = (atoi mhz, decimals2int decs)
          in case map_of table (loginlevel s) of None \<Rightarrow> Ret 0
             | Some ent \<Rightarrow>
               (case deciding (fst f) rs of None \<Rightarrow> Ret 0
                | Some (lo, hi) \<Rightarrow> Ret (if at_most lo f \<and> at_most f hi then 1 else 0))))"
proof (intro conjI impI allI)
  show "check_tx_freq s = Ret 1" if "txlimits (conf s) = None \<or> loginuser s = [] \<or> loginlevel s = []"
    using that by (auto simp: check_tx_freq_def split: option.split)
next
  fix table mhz decs
  assume t: "txlimits (conf s) = Some table \<and> loginuser s \<noteq> [] \<and> loginlevel s \<noteq> [] \<and> split_freq (freq s) = Some (mhz, decs)"
  show "check_tx_freq s =
         (let f = (atoi mhz, decimals2int decs)
          in case map_of table (loginlevel s) of None \<Rightarrow> Ret 0
             | Some ent \<Rightarrow>
               (case deciding (fst f) rs of None \<Rightarrow> Ret 0
                | Some (lo, hi) \<Rightarrow> Ret (if at_most lo f \<and> at_most f hi then 1 else 0)))"
  proof (cases "map_of table (loginlevel s)")
    case None
    then show ?thesis using t by (simp add: check_tx_freq_def)
  next
    case (Some ent)
    then have "table \<noteq> []" by auto
    have ranges: "map range_of (finddelim (take 255 ent) 40) = map Some rs" "length rs < 40"
      using assms t Some by blast+
    then have "length (finddelim (take 255 ent) 40) < 40" by (metis length_map)
    then show ?thesis
      using t Some \<open>table \<noteq> []\<close> check_ranges_deciding [OF ranges(1), of "atoi mhz" "decimals2int decs" None]
      by (simp add: check_tx_freq_def Let_def)
  qed
qed

definition limited :: "string \<Rightarrow> rpt" where
  "limited fr = (ex_rpt ''kenwood'' fr)
     \<lparr>conf := (ex_conf ''kenwood'')\<lparr>txlimits := Some [(''tech'', ''144.1-144.2,144.5-146.0'')]\<rparr>,
      loginuser := ''W1AW'', loginlevel := ''tech''\<rparr>"

theorem tx_limits_witness:
  "check_tx_freq (limited ''145.52'') = Ret 1 \<and> check_tx_freq (limited ''144.60'') = Ret 0
    \<and> check_tx_freq (ex_rpt ''kenwood'' ''145.0'') = Ret 1"
proof -
  let ?rs = "[((144, 100000), (144, 200000)), ((144, 500000), (146, 0))]"
  have r: "map range_of (finddelim (take 255 ''144.1-144.2,144.5-146.0'') 40) = map Some ?rs"
    "split_freq ''145.52'' = Some (''145'', ''52000'')" "split_freq ''144.60'' = Some (''144'', ''60000'')"
    "atoi ''145'' = 145" "atoi ''144'' = 144" "decimals2int ''52000'' = 520000" "decimals2int ''60000'' = 600000"
    by code_simp+
  have h: "\<forall>table ent. txlimits (conf (limited fr)) = Some table \<and> map_of table (loginlevel (limited fr)) = Some ent \<longrightarrow>
      map range_of (finddelim (take 255 ent) 40) = map Some ?rs \<and> length ?rs < 40" for fr
    using r(1) by (simp add: limited_def)
  have decided: "check_tx_freq (limited fr) =
      (case deciding (atoi mhz) ?rs of None \<Rightarrow> Ret 0
       | Some (lo, hi) \<Rightarrow> Ret (if at_most lo (atoi mhz, decimals2int decs) \<and> at_most (atoi mhz, decimals2int decs) hi then 1 else 0))"
    if "split_freq fr = Some (mhz, decs)" for fr mhz decs
    using tx_limits [OF h, of fr, THEN conjunct2, rule_format, of "[(''tech'', ''144.1-144.2,144.5-146.0'')]" mhz decs] that
    by (simp add: limited_def ex_rpt_def Let_def)
  have "check_tx_freq (ex_rpt ''kenwood'' ''145.0'') = Ret 1"
    using tx_limits [of "ex_rpt ''kenwood'' ''145.0''" ?rs] by (simp add: ex_rpt_def ex_conf_def)
  then show ?thesis
    using decided [OF r(2)] decided [OF r(3)] r(4-) by (simp add: at_most_def deciding_def)
qed

end
