(* ===== verification/RigCommand.thy ===== *)
theory RigCommand
  imports RigRemote
begin

text \<open>
  \<open>function_remote\<close> of apps/app_rpt.c: the commands of a remote base, entered as digits. The function is
  called again with each digit that arrives; DC_INDETERMINATE asks for more. \<open>p\<close> is what \<open>myatoi\<close> reads
  of the parameter \<open>param\<close>. None is undefined behaviour: a text that was never written is read.
\<close>

datatype dc = DC_INDETERMINATE | DC_REQ_FLUSH | DC_ERROR | DC_COMPLETE | DC_COMPLETEQUIET | DC_DOKEY

datatype source = SOURCE_RPT | SOURCE_LNK | SOURCE_RMT | SOURCE_PHONE | SOURCE_DPHONE | SOURCE_ALT

definition REM_SCANTIME :: int where "REM_SCANTIME = 100"

section \<open>Counting the digits\<close>

text \<open>
  The loops over \<open>digitbuf\<close>: \<open>j\<close> counts the stars; the digits before the first star and those after it
  are counted; None is another character. For the frequency, digits after a second star do not count.
\<close>

fun count_freq_digits :: "nat \<Rightarrow> nat \<Rightarrow> nat \<Rightarrow> string \<Rightarrow> (nat \<times> nat \<times> nat) option" where
  "count_freq_digits j l k [] = Some (j, l, k)"
| "count_freq_digits j l k (c # cs) =
    (if c = CHR ''*'' then count_freq_digits (j + 1) l k cs
     else if \<not> is_digit c then None
     else if j = 0 then count_freq_digits j (l + 1) k cs
     else if j = 1 then count_freq_digits j l (k + 1) cs
     else count_freq_digits j l k cs)"

fun count_pl_digits :: "nat \<Rightarrow> nat \<Rightarrow> nat \<Rightarrow> string \<Rightarrow> (nat \<times> nat \<times> nat) option" where
  "count_pl_digits j k l [] = Some (j, k, l)"
| "count_pl_digits j k l (c # cs) =
    (if c = CHR ''*'' then count_pl_digits (j + 1) k l cs
     else if \<not> is_digit c then None
     else if j \<noteq> 0 then count_pl_digits j k (l + 1) cs
     else count_pl_digits j (k + 1) l cs)"

section \<open>Setting the frequency\<close>

text \<open>The kilohertz and tens of hertz of the digits between the stars, which may be left partial.\<close>

definition khz_entry :: "bool \<Rightarrow> string \<Rightarrow> (int \<times> int) option" where
  "khz_entry fine s2 =
    (if length s2 = 1 then Some (100 * atoi s2, 0)
     else if length s2 = 2 then Some (10 * atoi s2, 0)
     else if length s2 = 3 then
       (if \<not> fine \<and> s2 ! 2 \<noteq> CHR ''0'' \<and> s2 ! 2 \<noteq> CHR ''5'' then None else Some (atoi s2, 0))
     else if length s2 = 4 then Some (atoi s2 sdiv 10, 10 * atoi (drop 3 s2))
     else if length s2 = 5 then Some (atoi s2 sdiv 100, atoi (drop 3 s2))
     else None)"

definition invalid_freq :: "dc option rig" where
  "invalid_freq = do { rpt_telemetry INVFREQ; return (Some DC_ERROR) }"

definition entry_offset :: "string \<Rightarrow> int option" where
  "entry_offset s =
    (if s = [] then Some REM_SIMPLEX
     else if hd s = CHR ''1'' then Some REM_MINUS
     else if hd s = CHR ''2'' then Some REM_SIMPLEX
     else if hd s = CHR ''3'' then Some REM_PLUS
     else None)"

text \<open>The new settings go to the radio; when it refuses them the old ones come back.\<close>

definition enter_freq :: "(string \<Rightarrow> int \<Rightarrow> string) \<Rightarrow> string \<Rightarrow> int \<Rightarrow> int \<Rightarrow> dc option rig" where
  "enter_freq fmt fr off mode = do {
     s \<leftarrow> gets (\<lambda>s. s);
     modify (\<lambda>s. s\<lparr>freq := fit MAXREMSTR fr, offset := off, remmode := mode\<rparr>);
     res \<leftarrow> setrem fmt;
     if res = - 1 then do {
       modify (\<lambda>t. t\<lparr>offset := offset s, remmode := remmode s, freq := fit MAXREMSTR (freq s)\<rparr>);
       invalid_freq
     } else do {
       _ \<leftarrow> (if remoterig (conf s) \<noteq> ''tm271'' \<and> remoterig (conf s) \<noteq> ''kenwood''
            then rpt_telemetry COMPLETE else return ());
       return (Some DC_COMPLETE)
     }
   }"

definition entry_text :: "string \<Rightarrow> int \<Rightarrow> int \<Rightarrow> string" where
  "entry_text s1 k ht = fit 20 (s1 @ ''.'' @ padded 3 k @ padded 2 ht)"

definition remote_freq :: "(string \<Rightarrow> int \<Rightarrow> string) \<Rightarrow> string \<Rightarrow> dc option rig" where
  "remote_freq fmt digitbuf = do {
     s \<leftarrow> gets (\<lambda>s. s);
     let rig = remoterig (conf s);
     let multimode = multimode_capable rig;
     case count_freq_digits 0 0 0 digitbuf of None \<Rightarrow> invalid_freq
     | Some (j, l, k) \<Rightarrow>
       if multimode \<and> (j > 2 \<or> l > 3 \<or> k > 6) then invalid_freq
       else if \<not> multimode \<and> (j > 2 \<or> l > 4 \<or> k > 5) then invalid_freq
       else if \<not> multimode \<and> \<not> narrow_capable rig \<and> k > 3 then invalid_freq
       else if j < 2 then return (Some DC_INDETERMINATE)
       else
         (case split_at CHR ''*'' (take 19 digitbuf) of None \<Rightarrow> return None
          | Some (s1, tail) \<Rightarrow>
            (case split_at CHR ''*'' tail of None \<Rightarrow> return None
             | Some (s2, rest) \<Rightarrow>
               (case khz_entry (narrow_capable rig \<or> multimode) s2 of None \<Rightarrow> invalid_freq
                | Some (k, ht) \<Rightarrow>
                  (let fr = entry_text s1 k ht
                   in case freq_numbers fr of None \<Rightarrow> return None
                      | Some (m, d) \<Rightarrow>
                        (case check_freq (conf s) m d of None \<Rightarrow> invalid_freq
                         | Some defmode \<Rightarrow>
                           if defmode = REM_MODE_FM \<and> last digitbuf = CHR ''*'' then return (Some DC_INDETERMINATE)
                           else (case (if defmode = REM_MODE_FM then entry_offset rest else Some REM_SIMPLEX) of
                               None \<Rightarrow> invalid_freq
                             | Some off \<Rightarrow> enter_freq fmt fr off defmode))))))
   }"

section \<open>Setting the tones\<close>

text \<open>The digits N+*N as a tone, once they are complete.\<close>

definition pl_entry :: "string \<Rightarrow> dc + string" where
  "pl_entry digitbuf =
    (case count_pl_digits 0 0 0 digitbuf of None \<Rightarrow> Inl DC_ERROR
     | Some (j, k, l) \<Rightarrow>
       if j > 1 \<or> k > 3 \<or> l > 1 then Inl DC_ERROR
       else if j \<noteq> 1 \<or> k < 2 \<or> l \<noteq> 1 then Inl DC_INDETERMINATE
       else (case split_at CHR ''*'' (take 19 digitbuf) of
           None \<Rightarrow> Inr (take 19 digitbuf)
         | Some (a, b) \<Rightarrow> Inr (a @ ''.'' @ b)))"

definition remote_rxpl :: "(string \<Rightarrow> int \<Rightarrow> string) \<Rightarrow> string \<Rightarrow> dc option rig" where
  "remote_rxpl fmt digitbuf =
    (case pl_entry digitbuf of Inl r \<Rightarrow> return (Some r)
     | Inr tmp \<Rightarrow> do {
        s \<leftarrow> gets (\<lambda>s. s);
        let rig = remoterig (conf s);
        modify (rxpl_update (\<lambda>_. fit MAXREMSTR tmp));
        _ \<leftarrow> (if rig = ''rbi'' \<or> rig = ''ft100'' then modify (txpl_update (\<lambda>_. fit MAXREMSTR tmp)) else return ());
        res \<leftarrow> setrem fmt;
        if res = - 1 then do { modify (rxpl_update (\<lambda>_. fit MAXREMSTR (rxpl s))); return (Some DC_ERROR) }
        else return (Some DC_COMPLETE)
      })"

definition remote_txpl :: "(string \<Rightarrow> int \<Rightarrow> string) \<Rightarrow> string \<Rightarrow> dc option rig" where
  "remote_txpl fmt digitbuf = do {
     s \<leftarrow> gets (\<lambda>s. s);
     let rig = remoterig (conf s);
     if rig = ''rbi'' \<or> rig = ''ft100'' \<or> rig = ''ic706'' then return (Some DC_ERROR)
     else case pl_entry digitbuf of Inl r \<Rightarrow> return (Some r)
     | Inr tmp \<Rightarrow> do {
        modify (txpl_update (\<lambda>_. fit MAXREMSTR tmp));
        res \<leftarrow> setrem fmt;
        if res = - 1 then do { modify (txpl_update (\<lambda>_. fit MAXREMSTR (txpl s))); return (Some DC_ERROR) }
        else return (Some DC_COMPLETE)
      }
   }"

section \<open>The other commands\<close>

definition set_remmode :: "(string \<Rightarrow> int \<Rightarrow> string) \<Rightarrow> int \<Rightarrow> dc option rig" where
  "set_remmode fmt mode = do {
     modify (remmode_update (\<lambda>_. mode));
     rpt_telemetry REMMODE;
     res \<leftarrow> setrem fmt;
     return (Some (if res \<noteq> 0 then DC_ERROR else DC_COMPLETEQUIET))
   }"

definition remote_mode :: "(string \<Rightarrow> int \<Rightarrow> string) \<Rightarrow> string \<Rightarrow> dc option rig" where
  "remote_mode fmt digitbuf = do {
     s \<leftarrow> gets (\<lambda>s. s);
     if digitbuf = [] then return (Some DC_INDETERMINATE)
     else if \<not> multimode_capable (remoterig (conf s)) then return (Some DC_ERROR)
     else if hd digitbuf = CHR ''1'' then
       (case freq_numbers (freq s) of None \<Rightarrow> return None
        | Some (m, d) \<Rightarrow> if m < 29 then return (Some DC_ERROR) else set_remmode fmt REM_MODE_FM)
     else if hd digitbuf = CHR ''2'' then set_remmode fmt REM_MODE_USB
     else if hd digitbuf = CHR ''3'' then set_remmode fmt REM_MODE_LSB
     else if hd digitbuf = CHR ''4'' then set_remmode fmt REM_MODE_AM
     else return (Some DC_ERROR)
   }"

text \<open>
  The lock is taken before the parameter is looked at, and given back only when it has a comma. \<open>loginuser\<close>
  has room for 50 characters and gets 50, so a longer name is not ended.
\<close>

definition remote_login :: "string \<Rightarrow> dc option rig" where
  "remote_login param = do {
     s \<leftarrow> gets (\<lambda>s. s);
     if loginlevel s \<noteq> [] then return (Some DC_ERROR)
     else do {
       modify (\<lambda>s. s\<lparr>loginuser := [], loginlevel := [], locked := True\<rparr>);
       case split_at CHR '','' param of None \<Rightarrow> return (Some DC_COMPLETEQUIET)
       | Some (_, cp1) \<Rightarrow> do {
           modify (\<lambda>s. case split_at CHR '','' cp1 of
               None \<Rightarrow> s\<lparr>loginuser := take 50 cp1, locked := False\<rparr>
             | Some (user, level) \<Rightarrow> s\<lparr>loginlevel := fit 10 level, loginuser := take 50 user, locked := False\<rparr>);
           rpt_telemetry REMLOGIN;
           return (Some DC_COMPLETEQUIET)
         }
     }
   }"

text \<open>A setting is changed and sent whatever becomes of it.\<close>

definition change_and_send :: "(string \<Rightarrow> int \<Rightarrow> string) \<Rightarrow> int \<Rightarrow> (rpt \<Rightarrow> rpt) \<Rightarrow> dc option rig" where
  "change_and_send fmt p f = do {
     modify f;
     _ \<leftarrow> setrem fmt;
     rpt_telemetry (REMXXX p);
     return (Some DC_COMPLETEQUIET)
   }"

definition bump :: "port \<Rightarrow> int \<Rightarrow> dc option rig" where
  "bump port interval = do { _ \<leftarrow> multimode_bump_freq port interval; return (Some DC_COMPLETE) }"

definition start_scan :: "int \<Rightarrow> int \<Rightarrow> dc option rig" where
  "start_scan p mode = do {
     modify (\<lambda>s. s\<lparr>scantimer := REM_SCANTIME, hfscanmode := mode\<rparr>);
     rpt_telemetry (REMXXX p);
     return (Some DC_COMPLETEQUIET)
   }"

definition remote_tune :: "dc option rig" where
  "remote_tune = do {
     s \<leftarrow> gets (\<lambda>s. s);
     if \<not> tunerequest s \<and> multimode_capable (remoterig (conf s)) then do {
       modify (remotetx_update (\<lambda>_. False));
       _ \<leftarrow> (if tx_pseudo (conf s) then return () else emit Unkey);
       modify (\<lambda>s. s\<lparr>tunetx := False, tunerequest := True\<rparr>);
       rpt_telemetry TUNE;
       return (Some DC_COMPLETEQUIET)
     } else return (Some DC_ERROR)
   }"

definition remote_memory :: "(string \<Rightarrow> string option) \<Rightarrow> (string \<Rightarrow> int \<Rightarrow> string) \<Rightarrow> string \<Rightarrow> dc option rig" where
  "remote_memory lookup fmt digitbuf =
    (if length digitbuf < 2 then return (Some DC_INDETERMINATE)
     else if \<not> is_digit (digitbuf ! 0) \<or> \<not> is_digit (digitbuf ! 1) then return (Some DC_ERROR)
     else do {
       r \<leftarrow> get_mem_set lookup fmt digitbuf;
       if r < 0 then do { rpt_telemetry MEMNOTFOUND; return (Some DC_COMPLETE) }
       else if r > 0 then return (Some DC_ERROR)
       else return (Some DC_COMPLETE)
     })"

text \<open>The control operator's function 30 recalls a memory too, and does not ask for a login.\<close>

definition cop_recall :: "(string \<Rightarrow> string option) \<Rightarrow> (string \<Rightarrow> int \<Rightarrow> string) \<Rightarrow> string \<Rightarrow> dc option rig" where
  "cop_recall lookup fmt digitbuf =
    (if length digitbuf < 2 then return (Some DC_INDETERMINATE)
     else if \<not> is_digit (digitbuf ! 0) \<or> \<not> is_digit (digitbuf ! 1) then return (Some DC_ERROR)
     else do {
       r \<leftarrow> retrieve_memory lookup digitbuf;
       if r < 0 then do { rpt_telemetry MEMNOTFOUND; return (Some DC_COMPLETE) }
       else if r > 0 then return (Some DC_ERROR)
       else do {
         res \<leftarrow> setrem fmt;
         if res = - 1 then return (Some DC_ERROR) else return (Some DC_COMPLETE)
       }
     })"

section \<open>The commands\<close>

definition remdtmfstr :: string where "remdtmfstr = ''0123456789*#ABCD''"

definition function_remote ::
  "port \<Rightarrow> (string \<Rightarrow> string option) \<Rightarrow> (string \<Rightarrow> int \<Rightarrow> string) \<Rightarrow> string option \<Rightarrow> int \<Rightarrow> string \<Rightarrow> source
     \<Rightarrow> dc option rig" where
  "function_remote port lookup fmt param p digitbuf src = do {
     s \<leftarrow> gets (\<lambda>s. s);
     let rig = remoterig (conf s);
     case param of None \<Rightarrow> return (Some DC_ERROR)
     | Some txt \<Rightarrow>
       if src = SOURCE_RPT \<or> src = SOURCE_LNK then return (Some DC_ERROR)
       else if p \<noteq> 99 \<and> p \<noteq> 5 \<and> p \<noteq> 140 \<and> authlevel (conf s) \<and> loginlevel s = [] then return (Some DC_ERROR)
       else if p = 1 then remote_memory lookup fmt digitbuf
       else if p = 2 then remote_freq fmt digitbuf
       else if p = 3 then remote_rxpl fmt digitbuf
       else if p = 4 then remote_txpl fmt digitbuf
       else if p = 6 then remote_mode fmt digitbuf
       else if p = 99 then remote_login txt
       else if p = 100 then change_and_send fmt p (rxplon_update (\<lambda>_. False))
       else if p = 101 then change_and_send fmt p (rxplon_update (\<lambda>_. True))
       else if p = 102 then change_and_send fmt p (txplon_update (\<lambda>_. False))
       else if p = 103 then change_and_send fmt p (txplon_update (\<lambda>_. True))
       else if p = 104 then
         (if rig = ''ic706'' then return (Some DC_ERROR)
          else change_and_send fmt p (powerlevel_update (\<lambda>_. REM_LOWPWR)))
       else if p = 105 then
         (if rig = ''ic706'' then return (Some DC_ERROR)
          else if is_rtx rig then return (Some DC_ERROR)
          else change_and_send fmt p (powerlevel_update (\<lambda>_. REM_MEDPWR)))
       else if p = 106 then
         (if rig = ''ic706'' then return (Some DC_ERROR)
          else change_and_send fmt p (powerlevel_update (\<lambda>_. REM_HIPWR)))
       else if p = 107 then bump port (- 20)
       else if p = 108 then bump port (- 100)
       else if p = 109 then bump port (- 500)
       else if p = 110 then bump port 20
       else if p = 111 then bump port 100
       else if p = 112 then bump port 500
       else if 113 \<le> p \<and> p \<le> 118 then start_scan p (p - 112)
       else if p = 119 then remote_tune
       else if p = 5 then do { rpt_telemetry REMLONGSTATUS; return (Some DC_COMPLETEQUIET) }
       else if p = 140 then do { rpt_telemetry REMSHORTSTATUS; return (Some DC_COMPLETEQUIET) }
       else if 200 \<le> p \<and> p \<le> 215 then do {
         emit (Dtmf [remdtmfstr ! nat (p - 200)]); return (Some DC_COMPLETEQUIET) }
       else return (Some DC_INDETERMINATE)
   }"

end
