(* ===== verification/RigGuarantee.thy ===== *)
theory RigGuarantee
  imports RigCommand
begin

text \<open>
  What the operations of a remote base do to the state, as a relation between the state before and after. The
  functions that program a radio only read the settings and write to the line, so they guarantee every relation
  that is reflexive, transitive, and allows an event to be added.
\<close>

text \<open>The flags of a memory change neither the frequency nor the log.\<close>

lemma memory_flag_keeps:
  "case memory_flag c s of None \<Rightarrow> True | Some t \<Rightarrow> freq t = freq s \<and> conf t = conf s \<and> events t = events s"
  by (simp add: memory_flag_def)

lemma memory_flags_keep:
  "freq (snd (memory_flags cs s)) = freq s \<and> conf (snd (memory_flags cs s)) = conf s \<and>
    events (snd (memory_flags cs s)) = events s"
proof (induction cs s rule: memory_flags.induct)
  case (2 c cs s)
  then show ?case using memory_flag_keeps [where c = c and s = s] by (simp split: option.splits)
qed simp

locale guarantee =
  fixes R :: "rpt \<Rightarrow> rpt \<Rightarrow> bool"
  assumes refl: "R s s"
    and trans: "R s t \<Longrightarrow> R t u \<Longrightarrow> R s u"
    and event_added: "R s (s\<lparr>events := events s @ [e]\<rparr>)"
begin

lemma run: "state_io_rel R m \<Longrightarrow> R s (snd (run_state m s))"
  by (simp add: state_io_rel_def)

lemma read_state: "(\<And>s. R s (snd (run_state (g s) s))) \<Longrightarrow> state_io_rel R (State_Monad.bind (gets (\<lambda>s. s)) g)"
  by (simp add: state_io_rel_def)

lemma at_state:
  "(b \<Longrightarrow> R s (snd (run_state m s))) \<Longrightarrow> (\<not> b \<Longrightarrow> R s (snd (run_state m' s))) \<Longrightarrow>
    R s (snd (run_state (if b then m else m') s))"
  "(q = None \<Longrightarrow> R s (snd (run_state m s))) \<Longrightarrow> (\<And>x. q = Some x \<Longrightarrow> R s (snd (run_state (g x) s))) \<Longrightarrow>
    R s (snd (run_state (case q of None \<Rightarrow> m | Some x \<Rightarrow> g x) s))"
  "(\<And>x y. p = (x, y) \<Longrightarrow> R s (snd (run_state (h x y) s))) \<Longrightarrow> R s (snd (run_state (case p of (x, y) \<Rightarrow> h x y) s))"
  by (simp_all split: option.split prod.split)

lemma bind: "state_io_rel R m \<Longrightarrow> (\<And>x. state_io_rel R (f x)) \<Longrightarrow> state_io_rel R (State_Monad.bind m f)"
  by (auto simp: state_io_rel_def split: prod.split) (metis prod.collapse snd_conv trans)

lemma basic: "state_io_rel R (return x)" "state_io_rel R (gets f)" "state_io_rel R (emit e)" "state_io_rel R (rpt_telemetry t)"
  by (simp_all add: state_io_rel_def refl event_added)

lemma cases:
  "state_io_rel R m \<Longrightarrow> state_io_rel R m' \<Longrightarrow> state_io_rel R (if b then m else m')"
  "state_io_rel R m' \<Longrightarrow> (\<And>x. state_io_rel R (g x)) \<Longrightarrow> state_io_rel R (case q of None \<Rightarrow> m' | Some x \<Rightarrow> g x)"
  "(\<And>x y. state_io_rel R (h x y)) \<Longrightarrow> state_io_rel R (case p of (x, y) \<Rightarrow> h x y)"
  "(\<And>x. state_io_rel R (k x)) \<Longrightarrow> state_io_rel R (Let v k)"
  "state_io_rel R step \<Longrightarrow> state_io_rel R (on_ok res step)"
  by (auto simp: on_ok_def basic split: option.split prod.split)

lemmas rules = bind basic cases

lemma line:
  "state_io_rel R (serial_remote_io port tx n ascii)" "state_io_rel R (command port tx)" "state_io_rel R (civ_cmd port cmd)"
  "state_io_rel R (civ port body)" "state_io_rel R (text_command port str)"
  by (simp_all add: serial_remote_io_def command_def civ_cmd_def civ_def text_command_def Let_def, (intro rules)+)

lemma kenwood: "state_io_rel R (sendkenwood port n txstr)" "state_io_rel R (sendrx_loop k port n txstr cmp rx)"
  "state_io_rel R (sendrxkenwood port n txstr cmpstr)"
proof -
  show send: "state_io_rel R (sendkenwood port n txstr)" for txstr
    unfolding sendkenwood_def by (intro rules line)
  show "state_io_rel R (sendrx_loop k port n txstr cmp rx)" for k rx cmp
    by (induction k arbitrary: rx) (simp, intro rules, simp only: sendrx_loop.simps, intro rules send)
  then show "state_io_rel R (sendrxkenwood port n txstr cmpstr)" by (simp add: sendrxkenwood_def)
qed

lemma then_send: "state_io_rel R rest \<Longrightarrow> state_io_rel R (then_send port n txstr cmpstr rest)"
  unfolding then_send_def by (intro rules kenwood)

lemma fm:
  "state_io_rel R (setkenwood port n)" "state_io_rel R (set_tmd700 port n)" "state_io_rel R (set_tm271 port n)"
  "state_io_rel R setrbi" "state_io_rel R (setxpmr dotx)" "state_io_rel R (setrtx fmt)"
  unfolding setkenwood_def set_tmd700_def set_tm271_def setrbi_def setxpmr_def setrtx_def Let_def
  by (intro rules then_send kenwood)+

lemma ft897:
  "state_io_rel R (simple_command_ft897 port c)" "state_io_rel R (set_freq_ft897 port fr)"
  "state_io_rel R (set_offset_ft897 port off)" "state_io_rel R (set_mode_ft897 port mode)"
  "state_io_rel R (set_ctcss_mode_ft897 port tx rx)" "state_io_rel R (set_ctcss_freq_ft897 port txtone rxtone)"
  unfolding simple_command_ft897_def set_freq_ft897_def set_offset_ft897_def set_mode_ft897_def set_ctcss_mode_ft897_def
    set_ctcss_freq_ft897_def
  by (intro rules line)+

lemma ft100:
  "state_io_rel R (simple_command_ft100 port c p)" "state_io_rel R (set_freq_ft100 port fr)"
  "state_io_rel R (set_offset_ft100 port off)" "state_io_rel R (set_mode_ft100 port mode)"
  "state_io_rel R (set_ctcss_mode_ft100 port tx rx)" "state_io_rel R (set_ctcss_freq_ft100 port txtone rxtone)"
  unfolding simple_command_ft100_def set_freq_ft100_def set_offset_ft100_def set_mode_ft100_def set_ctcss_mode_ft100_def
    set_ctcss_freq_ft100_def
  by (intro rules line)+

lemma ft950:
  "state_io_rel R (set_freq_ft950 port fr)" "state_io_rel R (set_offset_ft950 port off)"
  "state_io_rel R (set_mode_ft950 port mode)" "state_io_rel R (set_ctcss_mode_ft950 port tx rx)"
  "state_io_rel R (set_ctcss_freq_ft950 port txtone rxtone)"
  unfolding set_freq_ft950_def set_offset_ft950_def set_mode_ft950_def set_ctcss_mode_ft950_def set_ctcss_freq_ft950_def
  by (intro rules line)+

lemma ic706:
  "state_io_rel R (simple_command_ic706 port c p)" "state_io_rel R (set_freq_ic706 port fr)"
  "state_io_rel R (set_offset_ic706 port off)" "state_io_rel R (set_mode_ic706 port mode)"
  "state_io_rel R (set_ctcss_mode_ic706 port tx rx)" "state_io_rel R (vfo_ic706 port)" "state_io_rel R (mem2vfo_ic706 port)"
  "state_io_rel R (select_mem_ic706 port slot)"
  unfolding simple_command_ic706_def set_freq_ic706_def set_offset_ic706_def set_mode_ic706_def set_ctcss_mode_ic706_def
    vfo_ic706_def mem2vfo_ic706_def select_mem_ic706_def
  by (intro rules line)+

lemma xcat:
  "state_io_rel R (simple_command_xcat port c p)" "state_io_rel R (set_freq_xcat port fr)"
  "state_io_rel R (set_offset_xcat port off)" "state_io_rel R (set_ctcss_freq_xcat port txtone rxtone)"
  unfolding simple_command_xcat_def set_freq_xcat_def set_offset_xcat_def set_ctcss_freq_xcat_def
  by (intro rules line)+

lemma radios:
  "state_io_rel R (set_ft897 port)" "state_io_rel R (set_ft100 port)" "state_io_rel R (set_ft950 port)"
  "state_io_rel R (set_ic706 port)" "state_io_rel R (set_xcat port)"
  "state_io_rel R (closerem_ft897 port)" "state_io_rel R (closerem_ft100 port)"
  unfolding set_ft897_def set_ft100_def set_ft950_def set_ic706_def set_xcat_def closerem_ft897_def closerem_ft100_def
  by (intro rules line ft897 ft100 ft950 ic706 xcat)+

lemma programming: "state_io_rel R (set_radio port n)" "state_io_rel R (closerem port)" "state_io_rel R (setrem fmt)"
  unfolding set_radio_def closerem_def setrem_def by (intro rules radios fm)+

end

text \<open>A user's command may also change settings other than the frequency; some change the frequency too.\<close>

locale tuner_guarantee = guarantee +
  assumes setting_changed: "\<lbrakk>freq t = freq s; conf t = conf s; events t = events s\<rbrakk> \<Longrightarrow> R s t"
begin

lemma setting: "(\<And>s. freq (f s) = freq s \<and> conf (f s) = conf s \<and> events (f s) = events s) \<Longrightarrow> state_io_rel R (modify f)"
  by (simp add: state_io_rel_def setting_changed)

lemma either:
  "(\<And>x. state_io_rel R (g x)) \<Longrightarrow> (\<And>y. state_io_rel R (h y)) \<Longrightarrow>
    state_io_rel R (case q of Inl x \<Rightarrow> g x | Inr y \<Rightarrow> h y)"
  by (cases q) simp_all

lemma changes: "(\<And>s. freq (f s) = freq s \<and> conf (f s) = conf s \<and> events (f s) = events s) \<Longrightarrow>
    state_io_rel R (change_and_send fmt p f)"
  unfolding change_and_send_def by (intro rules setting programming)

lemma commands:
  "state_io_rel R (remote_rxpl fmt db)" "state_io_rel R (remote_txpl fmt db)" "state_io_rel R (remote_mode fmt db)"
  "state_io_rel R remote_tune" "state_io_rel R (start_scan p mode)" "state_io_rel R (remote_login str)"
  "state_io_rel R stop_scan" "state_io_rel R scan_failed"
  unfolding remote_rxpl_def remote_txpl_def set_remmode_def remote_mode_def remote_tune_def start_scan_def
    remote_login_def stop_scan_def scan_failed_def
  by ((intro rules either setting programming, auto split: option.split)+)

lemma split_if: "(b \<Longrightarrow> state_io_rel R m) \<Longrightarrow> (\<not> b \<Longrightarrow> state_io_rel R m') \<Longrightarrow> state_io_rel R (if b then m else m')"
  by simp

lemma split_option: "(q = None \<Longrightarrow> state_io_rel R m) \<Longrightarrow> (\<And>x. q = Some x \<Longrightarrow> state_io_rel R (g x)) \<Longrightarrow>
    state_io_rel R (case q of None \<Rightarrow> m | Some x \<Rightarrow> g x)"
  by (cases q) simp_all

lemma tune: "state_io_rel R (tune_radio port tone)"
  unfolding tune_radio_def Let_def by (intro rules setting ft897 ft100 ic706) simp_all

lemma scan: "state_io_rel R (service_scan port) \<Longrightarrow> state_io_rel R (scan_tick port)"
  unfolding scan_tick_def by (intro rules setting) simp_all

lemma recall: "(\<And>mem. state_io_rel R (retrieve_memory lookup mem)) \<Longrightarrow> state_io_rel R (cop_recall lookup fmt db)"
  unfolding cop_recall_def by (intro rules programming)

text \<open>The whole handler, but for the memories, the entry of a frequency, and the bumps.\<close>

lemma function_remote:
  assumes "p = 1 \<Longrightarrow> state_io_rel R (remote_memory lookup fmt db)" "p = 2 \<Longrightarrow> state_io_rel R (remote_freq fmt db)"
    and "\<And>i. 107 \<le> p \<Longrightarrow> p \<le> 112 \<Longrightarrow> \<bar>i\<bar> \<le> 500 \<Longrightarrow> state_io_rel R (bump port i)"
  shows "state_io_rel R (function_remote port lookup fmt param p db src)"
  unfolding function_remote_def
  by (intro split_if bind basic cases(2,4) changes commands assms) simp_all

end

text \<open>When a changed frequency is allowed too, every operation is covered.\<close>

locale user_guarantee = tuner_guarantee +
  assumes freq_changed: "R s (s\<lparr>freq := fr\<rparr>)"
begin

lemma any_setting: "(\<And>s. conf (f s) = conf s \<and> events (f s) = events s) \<Longrightarrow> state_io_rel R (modify f)"
proof -
  assume f: "\<And>s. conf (f s) = conf s \<and> events (f s) = events s"
  have "R s (f s)" for s
  proof (rule trans [OF freq_changed])
    show "R (s\<lparr>freq := freq (f s)\<rparr>) (f s)" using f by (intro setting_changed) simp_all
  qed
  then show ?thesis by (simp add: state_io_rel_def)
qed

lemma moves: "state_io_rel R (multimode_bump_freq port i)" "state_io_rel R (bump port i)" "state_io_rel R (service_scan port)"
proof -
  have freq: "state_io_rel R (modify (freq_update (\<lambda>_. fr)))" for fr by (rule any_setting) simp
  show *: "state_io_rel R (multimode_bump_freq port i)" for i
    unfolding multimode_bump_freq_def multimode_bump_freq_ft897_def multimode_bump_freq_ft100_def
      multimode_bump_freq_ft950_def multimode_bump_freq_ic706_def bump_freq_def
    by (intro rules freq line ft897 ft100 ft950)
  show "state_io_rel R (bump port i)" unfolding bump_def by (intro rules *)
  show "state_io_rel R (service_scan port)"
    unfolding service_scan_def by (intro rules setting * commands) simp_all
qed

lemma entries: "state_io_rel R (enter_freq fmt fr off mode)" "state_io_rel R (remote_freq fmt db)"
proof -
  show enter: "state_io_rel R (enter_freq fmt fr off mode)" for fr off mode
    unfolding enter_freq_def invalid_freq_def by (intro rules any_setting programming) simp_all
  show "state_io_rel R (remote_freq fmt db)"
    unfolding remote_freq_def invalid_freq_def by (intro rules enter)
qed

lemma memories: "state_io_rel R (retrieve_memory lookup mem)" "state_io_rel R (remote_memory lookup fmt db)"
proof -
  have flags: "state_io_rel R (State (memory_flags cs))" for cs
    using memory_flags_keep [of cs] by (simp add: state_io_rel_def setting_changed)
  show *: "state_io_rel R (retrieve_memory lookup mem)" for mem
    unfolding retrieve_memory_def by (intro rules any_setting flags) simp_all
  show "state_io_rel R (remote_memory lookup fmt db)"
    unfolding remote_memory_def get_mem_set_def by (intro rules * programming)
qed

lemma user: "state_io_rel R (function_remote port lookup fmt param p db src)"
  by (intro function_remote entries moves memories)

end

section \<open>What is guaranteed\<close>

text \<open>
  Programming the radio leaves the settings alone; the commands for tones, mode and power leave the frequency
  alone; and whatever is done, the node keeps its configuration and what was sent stays sent.
\<close>

definition same_settings :: "rpt \<Rightarrow> rpt \<Rightarrow> bool" where
  "same_settings s t \<longleftrightarrow> t\<lparr>events := []\<rparr> = s\<lparr>events := []\<rparr>"

definition same_freq :: "rpt \<Rightarrow> rpt \<Rightarrow> bool" where
  "same_freq s t \<longleftrightarrow> freq t = freq s \<and> conf t = conf s"

definition log_grows :: "rpt \<Rightarrow> rpt \<Rightarrow> bool" where
  "log_grows s t \<longleftrightarrow> conf t = conf s \<and> (\<exists>es. events t = events s @ es)"

interpretation settings: guarantee same_settings
  by unfold_locales (simp_all add: same_settings_def)

interpretation tuning: tuner_guarantee same_freq
  by unfold_locales (simp_all add: same_freq_def)

interpretation history: user_guarantee log_grows
  by unfold_locales (auto simp: log_grows_def)

end
