(* ===== verification/RigProps.thy ===== *)
theory RigProps
  imports RigTuning
begin

text \<open>
  The properties of the radios of a remote base: the commands that set the frequency, moving it,
  and the bands.
\<close>

section \<open>Setting and moving the frequency\<close>

text \<open>C34. The command that sets the frequency carries it: read as packed decimals (with the FT-950 as decimal
  text, in hertz), what is sent to each of the five radios is the frequency of the text, and nothing else is
  sent.\<close>

theorem frequency_commands_carry_frequency:
  assumes "freq_numbers fr = Some (m, d)" "0 \<le> m" "m < 1000" "0 \<le> d" "d < 100000"
  shows "(\<exists>b. sent (run_state (set_freq_ft897 port fr) s) s (b @ [0x01]) \<and> bcd b = tens m d)
    \<and> (\<exists>b. sent (run_state (set_freq_ft100 port fr) s) s (b @ [0x0a]) \<and> bcd (rev b) = tens m d)
    \<and> (\<exists>t. sent (run_state (set_freq_ft950 port fr) s) s (text_bytes (''FA'' @ t @ '';'')) \<and> atoi t = tens m d * 10)
    \<and> (\<exists>b. sent (run_state (set_freq_ic706 port fr) s) s (civ_frame s (5 # b)) \<and> bcd (rev b) = tens m d * 10)
    \<and> (\<exists>b. sent (run_state (set_freq_xcat port fr) s) s (civ_frame s (5 # b)) \<and> bcd (rev b) = tens m d * 10)"
proof (intro conjI)
  note bcd = bcd_ft897_freq [OF assms(2-)] bcd_civ_freq [OF assms(2-)]
  show "\<exists>b. sent (run_state (set_freq_ft897 port fr) s) s (b @ [0x01]) \<and> bcd b = tens m d"
    using assms bcd by (intro exI [of _ "ft897_freq m d"]) (simp add: sent_def run_set_freq_ft897)
  show "\<exists>b. sent (run_state (set_freq_ft100 port fr) s) s (b @ [0x0a]) \<and> bcd (rev b) = tens m d"
    using assms bcd by (intro exI [of _ "rev (ft897_freq m d)"]) (simp add: sent_def run_set_freq_ft100)
  have "length (padded 6 (d * 10)) = 6" using assms by (intro length_padded) simp_all
  then have "atoi (decimal m @ padded 6 (d * 10)) = tens m d * 10"
    using assms by (simp add: atoi_decimal_padded tens_def)
  then show "\<exists>t. sent (run_state (set_freq_ft950 port fr) s) s (text_bytes (''FA'' @ t @ '';'')) \<and> atoi t = tens m d * 10"
    using assms by (intro exI [of _ "decimal m @ padded 6 (d * 10)"]) (simp add: sent_def run_set_freq_ft950)
  show "\<exists>b. sent (run_state (set_freq_ic706 port fr) s) s (civ_frame s (5 # b)) \<and> bcd (rev b) = tens m d * 10"
    using assms bcd by (intro exI [of _ "civ_freq m d"]) (simp add: sent_def run_civ set_freq_ic706_def)
  show "\<exists>b. sent (run_state (set_freq_xcat port fr) s) s (civ_frame s (5 # b)) \<and> bcd (rev b) = tens m d * 10"
    using assms bcd by (intro exI [of _ "civ_freq m d"]) (simp add: sent_def run_civ set_freq_xcat_def)
qed

theorem frequency_commands_carry_frequency_witness:
  "\<exists>b. sent (run_state (set_freq_ft897 ex_port ''146.94'') (ex_rpt ''ft897'' ''146.94'')) (ex_rpt ''ft897'' ''146.94'')
      (b @ [0x01]) \<and> bcd b = 14694000"
  using frequency_commands_carry_frequency [of "''146.94''" 146 94000 ex_port "ex_rpt ''ft897'' ''146.94''"]
  by (simp add: freq_numbers_def split_freq_def atoi_def is_space_def is_digit_def digit_val_def zeros_def tens_def
      numeral_eq_Suc)

text \<open>A command that carries a frequency to a radio, read the way the radio reads it.\<close>

definition carries :: "rpt \<Rightarrow> byte list \<Rightarrow> int \<Rightarrow> bool" where
  "carries s cmd f \<longleftrightarrow>
    (if remoterig (conf s) = ''ft897'' then \<exists>b. cmd = b @ [0x01] \<and> bcd b = f
     else if remoterig (conf s) = ''ft100'' then \<exists>b. cmd = b @ [0x0a] \<and> bcd (rev b) = f
     else if remoterig (conf s) = ''ft950'' then \<exists>t. cmd = text_bytes (''FA'' @ t @ '';'') \<and> atoi t = f * 10
     else \<exists>b. cmd = civ_frame s (0 # b) \<and> bcd (rev b) = f * 10)"

lemma tuned_carries:
  assumes "0 \<le> m" "m < 1000" "0 \<le> d" "d < 100000"
  shows "remoterig (conf s) = ''ft897'' \<Longrightarrow> carries s (ft897_freq m d @ [0x01]) (tens m d)"
    and "remoterig (conf s) = ''ft100'' \<Longrightarrow> carries s (rev (ft897_freq m d) @ [0x0a]) (tens m d)"
    and "remoterig (conf s) = ''ft950'' \<Longrightarrow>
      carries s (text_bytes (''FA'' @ decimal m @ padded 6 (d * 10) @ '';'')) (tens m d)"
    and "remoterig (conf s) = ''ic706'' \<Longrightarrow> carries s (civ_frame s (0 # civ_freq m d)) (tens m d)"
proof -
  note bcd = bcd_ft897_freq [OF assms] bcd_civ_freq [OF assms]
  show "carries s (ft897_freq m d @ [0x01]) (tens m d)" if "remoterig (conf s) = ''ft897''"
    using that bcd by (simp add: carries_def)
  show "carries s (rev (ft897_freq m d) @ [0x0a]) (tens m d)" if "remoterig (conf s) = ''ft100''"
    using that bcd by (auto simp: carries_def)
  have "length (padded 6 (d * 10)) = 6" using assms by (intro length_padded) simp_all
  then have "atoi (decimal m @ padded 6 (d * 10)) = tens m d * 10"
    using assms by (simp add: atoi_decimal_padded tens_def)
  then show "carries s (text_bytes (''FA'' @ decimal m @ padded 6 (d * 10) @ '';'')) (tens m d)"
    if "remoterig (conf s) = ''ft950''"
    using that unfolding carries_def by (simp, intro exI [of _ "decimal m @ padded 6 (d * 10)"]) simp
  show "carries s (civ_frame s (0 # civ_freq m d)) (tens m d)" if "remoterig (conf s) = ''ic706''"
    using that bcd unfolding carries_def by (simp, intro exI [of _ "civ_freq m d"]) simp
qed

lemma bump_one:
  assumes "multimode_capable (remoterig (conf s))" "freq_numbers (freq s) = Some (m0, d0)" "bumped i m0 d0 = (m, d)"
    and "0 \<le> m" "m < 10 ^ 8" "0 \<le> d" "d < 100000"
  shows "if check_freq (conf s) m d = None then run_state (multimode_bump_freq port i) s = (- 1, s)
    else \<exists>cmd. (m < 1000 \<longrightarrow> carries (s\<lparr>freq := freq_text m d\<rparr>) cmd (tens m d)) \<and>
           run_state (multimode_bump_freq port i) s =
           run_state (command port cmd) (s\<lparr>freq := freq_text m d\<rparr>)"
proof -
  note taken = ft897.bump_taken [OF assms(2,3)] ft100.bump_taken [OF assms(2,3)] ft950.bump_taken [OF assms(2,3)]
    ic706.bump_taken [OF assms(2,3)]
  note refused = ft897.bump_refused [OF assms(2,3)] ft100.bump_refused [OF assms(2,3)] ft950.bump_refused [OF assms(2,3)]
    ic706.bump_refused [OF assms(2,3)]
  note defs = multimode_bump_freq_def multimode_bump_freq_ft897_def multimode_bump_freq_ft100_def
    multimode_bump_freq_ft950_def multimode_bump_freq_ic706_def check_freq_def
  let ?s = "s\<lparr>freq := freq_text m d\<rparr>"
  have carried:
    "remoterig (conf s) = ''ft897'' \<Longrightarrow> m < 1000 \<longrightarrow> carries ?s (ft897_freq m d @ [0x01]) (tens m d)"
    "remoterig (conf s) = ''ft100'' \<Longrightarrow> m < 1000 \<longrightarrow> carries ?s (rev (ft897_freq m d) @ [0x0a]) (tens m d)"
    "remoterig (conf s) = ''ft950'' \<Longrightarrow>
      m < 1000 \<longrightarrow> carries ?s (text_bytes (''FA'' @ decimal m @ padded 6 (d * 10) @ '';'')) (tens m d)"
    "remoterig (conf s) = ''ic706'' \<Longrightarrow> m < 1000 \<longrightarrow> carries ?s (civ_frame ?s (0 # civ_freq m d)) (tens m d)"
    using tuned_carries [OF assms(4) _ assms(6,7), of ?s] by simp_all
  consider "remoterig (conf s) = ''ft897''" | "remoterig (conf s) = ''ft100''" | "remoterig (conf s) = ''ft950''"
    | "remoterig (conf s) = ''ic706''" using assms(1) by (auto simp: multimode_capable_def)
  then show ?thesis
  proof cases
    case 1
    then show ?thesis using assms(4-) taken(1) refused(1) carried(1) [OF 1] unfolding defs by (auto simp del: run_command)
  next
    case 2
    then show ?thesis using assms(4-) taken(2) refused(2) carried(2) [OF 2] unfolding defs by (auto simp del: run_command)
  next
    case 3
    then show ?thesis using assms(4-) taken(3) refused(3) carried(3) [OF 3] unfolding defs by (auto simp del: run_command)
  next
    case 4
    then show ?thesis using assms(4-) taken(4) refused(4) carried(4) [OF 4] unfolding defs by (auto simp: Let_def simp del: run_command)
  qed
qed

text \<open>C35. Bumping: on a multimode radio the frequency moves by the interval, to the resolution of ten hertz, over
  the border of a megahertz too; the new frequency is stored as a text that reads back, and it is sent once, in a command
  that the radio reads as this frequency (in packed decimals, with the FT-950 as decimal text; below 1000 MHz, more
  has no place in a command). A
  frequency outside the bands of the radio is not taken: nothing is stored and nothing is sent.\<close>

theorem bump_moves_frequency:
  assumes "multimode_capable (remoterig (conf s))" "freq_numbers (freq s) = Some (m0, d0)"
    and "0 < m0" "m0 < 10 ^ 7" "0 \<le> d0" "d0 < 100000" "\<bar>i\<bar> \<le> 1000000"
  shows "\<exists>m d. tens m d = tens m0 d0 + i sdiv 10 \<and> 0 \<le> d \<and> d < 100000 \<and>
    (if check_freq (conf s) m d = None then run_state (multimode_bump_freq port i) s = (- 1, s)
     else freq_numbers (freq_text m d) = Some (m, d) \<and>
       (\<exists>cmd. (m < 1000 \<longrightarrow> carries s cmd (tens m d)) \<and>
         run_state (multimode_bump_freq port i) s =
         (if written (port (events s) cmd) then 0 else - 1,
          s\<lparr>freq := freq_text m d, events := events s @ [Serial cmd]\<rparr>)))"
proof -
  obtain m d where b: "bumped i m0 d0 = (m, d)" by fastforce
  note t = tens_bumped [OF b assms(5-)]
  have m: "0 \<le> m" "m < 10 ^ 8" using t assms(3,4) by simp_all
  have same: "carries (s\<lparr>freq := fr\<rparr>) = carries s" for fr by (intro ext) (simp add: carries_def civ_frame_def)
  show ?thesis using bump_one [OF assms(1,2) b m, of port] t freq_text_numbers [OF m]
    by (intro exI [of _ m] exI [of _ d]) (auto simp: same split: if_splits)
qed

text \<open>20 Hz up, over the border of a kilohertz, with a radio that accepts every command.\<close>

theorem bump_moves_frequency_witness:
  "\<exists>cmd. run_state (multimode_bump_freq ex_port 20) (ex_rpt ''ft897'' ''14.19999'') =
       (0, (ex_rpt ''ft897'' ''14.19999'')\<lparr>freq := ''14.20001'', events := [Serial cmd]\<rparr>)
     \<and> carries (ex_rpt ''ft897'' ''14.19999'') cmd 1420001"
proof -
  let ?s = "ex_rpt ''ft897'' ''14.19999''"
  have f: "freq_numbers (freq ?s) = Some (14, 19999)" "check_freq (conf ?s) 14 20001 = Some REM_MODE_USB"
    "freq_text 14 20001 = ''14.20001''" "multimode_capable (remoterig (conf ?s))" by code_simp+
  obtain m d where *: "tens m d = tens 14 19999 + 20 sdiv 10" "0 \<le> d" "d < 100000"
    "if check_freq (conf ?s) m d = None then run_state (multimode_bump_freq ex_port 20) ?s = (- 1, ?s)
     else freq_numbers (freq_text m d) = Some (m, d) \<and>
       (\<exists>cmd. (m < 1000 \<longrightarrow> carries ?s cmd (tens m d)) \<and> run_state (multimode_bump_freq ex_port 20) ?s =
         (if written (ex_port (events ?s) cmd) then 0 else - 1,
          ?s\<lparr>freq := freq_text m d, events := events ?s @ [Serial cmd]\<rparr>))"
    using bump_moves_frequency [OF f(4) f(1), of 20 ex_port] by auto
  have v: "100000 * m + d = 1420001" using *(1) by (simp add: tens_def signed_divide_int_def)
  then have "m = 14" using *(2,3) by linarith
  with v have "m = 14 \<and> d = 20001" by simp
  moreover have "events ?s = []" "written (ex_port es cmd)" for es cmd by (simp_all add: ex_rpt_def ex_port_def)
  ultimately show ?thesis using *(4) f by (auto simp: tens_def)
qed

section \<open>Bands\<close>

text \<open>A band plan: the first and the last frequency of each band, in tens of hertz.\<close>

type_synonym plan = "(int \<times> int) list"

definition in_plan :: "plan \<Rightarrow> int \<Rightarrow> bool" where
  "in_plan bands f \<longleftrightarrow> list_ex (\<lambda>(lo, hi). lo \<le> f \<and> f \<le> hi) bands"

definition hf_plan :: plan where
  "hf_plan =
    [(tens 1 80000, tens 1 99999), (tens 3 50000, tens 3 99999), (tens 7 0, tens 7 30000),
     (tens 14 0, tens 14 35000), (tens 18 6800, tens 18 16800), (tens 21 20000, tens 21 45000),
     (tens 24 89000, tens 24 99000), (tens 28 0, tens 29 70000), (tens 50 0, tens 53 99999)]"

definition vhf_plan :: plan where
  "vhf_plan = [(tens 144 0, tens 147 99999), (tens 430 0, tens 449 99999)]"

definition fm_plan :: plan where
  "fm_plan = [(tens 144 10100, tens 147 99999)]"

definition rbi_plan :: plan where
  "rbi_plan = fm_plan @ [(tens 50 10100, tens 53 99999), (tens 222 0, tens 224 99999),
     (tens 430 0, tens 449 99999), (tens 1240 0, tens 1299 99999)]"

definition xcat_plan :: plan where
  "xcat_plan = fm_plan @ [(tens 28 0, tens 29 70000), (tens 50 0, tens 53 99999), (tens 420 0, tens 449 99999)]"

lemma tens_le:
  "\<lbrakk>0 \<le> d; d < 100000; 0 \<le> d'; d' < 100000\<rbrakk> \<Longrightarrow> tens m d \<le> tens m' d' \<longleftrightarrow> m < m' \<or> m = m' \<and> d \<le> d'"
  by (auto simp: tens_def)

text \<open>The mode of a frequency: LSB up to 10 MHz, then USB, and FM from 29.51 MHz on but for the ends of three bands.\<close>

definition usual_mode :: "int \<Rightarrow> int" where
  "usual_mode f =
    (if f < tens 10 0 then REM_MODE_LSB
     else if f < tens 29 51000 \<or> in_plan [(tens 50 0, tens 50 29999), (tens 144 0, tens 144 29999), (tens 430 0, tens 437 99999)] f
     then REM_MODE_USB else REM_MODE_FM)"

definition planned :: "plan \<Rightarrow> (int \<Rightarrow> int) \<Rightarrow> int \<Rightarrow> int option" where
  "planned bands mode f = (if in_plan bands f then Some (mode f) else None)"

lemmas plan_defs = planned_def in_plan_def hf_plan_def vhf_plan_def fm_plan_def rbi_plan_def xcat_plan_def usual_mode_def

lemma in_tens:
  "\<lbrakk>0 \<le> d; d < 100000; 0 \<le> d'; d' < 100000\<rbrakk> \<Longrightarrow> tens m d < tens m' d' \<longleftrightarrow> m < m' \<or> m = m' \<and> d < d'"
  by (auto simp: tens_def)

lemma planned_eqI:
  "\<lbrakk>(r \<noteq> None) = in_plan bands f; \<And>mode. r = Some mode \<Longrightarrow> mode = g f\<rbrakk> \<Longrightarrow> r = planned bands g f"
  by (auto simp: planned_def)

lemma ft897_plan:
  assumes "0 \<le> d" "d < 100000"
  shows "check_freq_ft897 m d = planned (hf_plan @ vhf_plan) usual_mode (tens m d)"
proof (rule planned_eqI)
  show "(check_freq_ft897 m d \<noteq> None) = in_plan (hf_plan @ vhf_plan) (tens m d)"
    using assms by (simp add: plan_defs tens_le check_freq_ft897_def) linarith
  show "mode = usual_mode (tens m d)" if "check_freq_ft897 m d = Some mode" for mode
    using that assms unfolding check_freq_ft897_def
    by (auto simp: plan_defs tens_le in_tens split: if_splits)
qed

lemma ft100_plan: "check_freq_ft100 = check_freq_ft897"
  by (intro ext) (simp only: check_freq_ft100_def check_freq_ft897_def)

lemma ft950_plan:
  assumes "0 \<le> d" "d < 100000"
  shows "check_freq_ft950 m d = planned hf_plan usual_mode (tens m d)"
proof (rule planned_eqI)
  show "(check_freq_ft950 m d \<noteq> None) = in_plan hf_plan (tens m d)"
    using assms by (simp add: plan_defs tens_le check_freq_ft950_def) linarith
  show "mode = usual_mode (tens m d)" if "check_freq_ft950 m d = Some mode" for mode
    using that assms unfolding check_freq_ft950_def
    by (auto simp: plan_defs tens_le in_tens split: if_splits)
qed

lemma xcat_plan:
  "\<lbrakk>0 \<le> d; d < 100000\<rbrakk> \<Longrightarrow> check_freq_xcat m d = planned xcat_plan (\<lambda>_. REM_MODE_FM) (tens m d)"
  by (auto simp: plan_defs tens_le check_freq_xcat_def)

lemma rbi_plan:
  "\<lbrakk>0 \<le> d; d < 100000\<rbrakk> \<Longrightarrow> check_freq_rbi m d = planned rbi_plan (\<lambda>_. REM_MODE_FM) (tens m d)"
  by (auto simp: plan_defs tens_le check_freq_rbi_def)

lemma kenwood_plan:
  "\<lbrakk>0 \<le> d; d < 100000\<rbrakk> \<Longrightarrow>
     check_freq_kenwood m d = planned (fm_plan @ [(tens 430 0, tens 449 99999)]) (\<lambda>_. REM_MODE_FM) (tens m d)"
  by (auto simp: plan_defs tens_le check_freq_kenwood_def)

lemma tm271_plan:
  "\<lbrakk>0 \<le> d; d < 100000\<rbrakk> \<Longrightarrow> check_freq_tm271 m d = planned fm_plan (\<lambda>_. REM_MODE_FM) (tens m d)"
  by (auto simp: plan_defs tens_le check_freq_tm271_def)

lemma rtx_plan:
  "\<lbrakk>0 \<le> d; d < 100000\<rbrakk> \<Longrightarrow>
     check_freq_rtx rig m d =
     planned (if rig = ''rtx150'' then fm_plan else [(tens 430 0, tens 449 99999)]) (\<lambda>_. REM_MODE_FM) (tens m d)"
  by (auto simp: plan_defs tens_le check_freq_rtx_def)

text \<open>C36. The checks are the band plans: a frequency is allowed exactly if it lies in one of the bands of the
  radio, and the mode it comes with is the usual one.\<close>

theorem checks_are_band_plans:
  assumes "0 \<le> d" "d < 100000"
  shows "check_freq_ft897 m d = planned (hf_plan @ vhf_plan) usual_mode (tens m d)
    \<and> check_freq_ft100 m d = check_freq_ft897 m d
    \<and> check_freq_ft950 m d = planned hf_plan usual_mode (tens m d)
    \<and> check_freq_kenwood m d = planned (fm_plan @ [(tens 430 0, tens 449 99999)]) (\<lambda>_. REM_MODE_FM) (tens m d)
    \<and> check_freq_tm271 m d = planned fm_plan (\<lambda>_. REM_MODE_FM) (tens m d)
    \<and> check_freq_rtx ''rtx150'' m d = planned fm_plan (\<lambda>_. REM_MODE_FM) (tens m d)
    \<and> check_freq_rtx ''rtx450'' m d = planned [(tens 430 0, tens 449 99999)] (\<lambda>_. REM_MODE_FM) (tens m d)
    \<and> check_freq_rbi m d = planned rbi_plan (\<lambda>_. REM_MODE_FM) (tens m d)
    \<and> check_freq_xcat m d = planned xcat_plan (\<lambda>_. REM_MODE_FM) (tens m d)"
  using assms
  by (simp add: ft100_plan ft897_plan ft950_plan kenwood_plan tm271_plan rtx_plan rbi_plan xcat_plan)

theorem checks_are_band_plans_witness:
  "check_freq_ft897 146 94000 = Some REM_MODE_FM \<and> check_freq_ft897 13 99000 = None"
  using checks_are_band_plans [of 94000 146] checks_are_band_plans [of 99000 13]
  by (simp add: plan_defs tens_def)

text \<open>The IC-706 is different: its chain of cases has no final else.\<close>

definition amateur_mhz :: "int \<Rightarrow> bool" where
  "amateur_mhz m \<longleftrightarrow>
     m \<in> {1, 3, 7, 14, 18, 21, 24, 28, 29} \<or> 50 \<le> m \<and> m < 54 \<or> 144 \<le> m \<and> m < 148 \<or> 430 \<le> m \<and> m < 450"

text \<open>C37. The IC-706 keeps to the band plan only in the megahertz where a band begins or ends: every frequency in
  other megahertz is allowed, in FM, and with the expanded coverage every frequency at all. So bumping can
  leave the range of the radio, even below zero, which the other multimode radios refuse.\<close>

theorem ic706_is_open:
  "(0 \<le> d \<and> d < 100000 \<longrightarrow>
      check_freq_ic706 False m d =
        (if amateur_mhz m then planned (hf_plan @ vhf_plan) usual_mode (tens m d) else Some REM_MODE_FM))
   \<and> check_freq_ic706 True m d \<noteq> None
   \<and> (remoterig (conf s) = ''ic706'' \<and> freq s = ''0.00000'' \<longrightarrow>
        freq (snd (run_state (multimode_bump_freq port (- 20)) s)) = ''-1.99998'')"
proof (intro conjI impI)
  assume "0 \<le> d \<and> d < 100000"
  then show "check_freq_ic706 False m d =
      (if amateur_mhz m then planned (hf_plan @ vhf_plan) usual_mode (tens m d) else Some REM_MODE_FM)"
    by (auto simp: check_freq_ic706_def ic706_amateur_def amateur_mhz_def plan_defs tens_le in_tens)
next
  show "check_freq_ic706 True m d \<noteq> None"
    by (auto simp: check_freq_ic706_def ic706_amateur_def ic706_expanded_def)
next
  assume s: "remoterig (conf s) = ''ic706'' \<and> freq s = ''0.00000''"
  have n: "freq_numbers ''0.00000'' = Some (0, 0)" and b: "bumped (- 20) 0 0 = (- 1, 99998)"
    and t: "freq_text (- 1) 99998 = ''-1.99998''" by code_simp+
  have "check_freq_ic706 mars (- 1) 99998 \<noteq> None" for mars
    by (simp add: check_freq_ic706_def ic706_amateur_def)
  then show "freq (snd (run_state (multimode_bump_freq port (- 20)) s)) = ''-1.99998''"
    using s n b t by (simp add: multimode_bump_freq_def multimode_bump_freq_ic706_def bump_freq_def)
qed

theorem ic706_is_open_witness:
  "check_freq_ic706 False 100 0 = Some REM_MODE_FM"
  using ic706_is_open [of 0 100 undefined undefined] by (simp add: amateur_mhz_def)

end
