(* ===== verification/RigSafety.thy ===== *)
theory RigSafety
  imports RigCommand RigProps RigFrames
begin

text \<open>
  What a remote base lets its users do: the login, and what the digits of an entered frequency stand for.
\<close>

section \<open>Login\<close>

text \<open>Nobody commands a protected remote base without logging in: when the node asks for authorization and
  nobody is logged in, every command but the login and the two status reports is refused, and neither the
  state nor the radio notices it. Commands from the repeater or a link are always refused.\<close>

lemma remote_refused:
  assumes "authlevel (conf s) \<and> loginlevel s = [] \<and> p \<notin> {5, 99, 140} \<or> src \<in> {SOURCE_RPT, SOURCE_LNK}"
  shows "run_state (function_remote port lookup fmt param p digitbuf src) s = (Some DC_ERROR, s)"
proof (cases "param = None \<or> src \<in> {SOURCE_RPT, SOURCE_LNK}")
  case True
  then show ?thesis by (cases param) (simp_all add: function_remote_def Let_def)
next
  case False
  then obtain str where "param = Some str" "\<not> (src = SOURCE_RPT \<or> src = SOURCE_LNK)" by auto
  moreover have "p \<noteq> 99 \<and> p \<noteq> 5 \<and> p \<noteq> 140 \<and> authlevel (conf s) \<and> loginlevel s = []"
    using assms False by simp
  ultimately show ?thesis by (simp add: function_remote_def Let_def)
qed

section \<open>Entering a frequency\<close>

text \<open>The digits between the stars are the decimals of the megahertz; what is left out is zero.\<close>

definition decimals_of :: "string \<Rightarrow> int" where
  "decimals_of k = digits_value 0 (k @ zeros (5 - length k))"

lemma list_of_length:
  "length xs = 1 \<longleftrightarrow> (\<exists>a. xs = [a])" "length xs = 2 \<longleftrightarrow> (\<exists>a b. xs = [a, b])" "length xs = 3 \<longleftrightarrow> (\<exists>a b c. xs = [a, b, c])"
  "length xs = 4 \<longleftrightarrow> (\<exists>a b c d. xs = [a, b, c, d])" "length xs = 5 \<longleftrightarrow> (\<exists>a b c d e. xs = [a, b, c, d, e])"
  by (auto simp: length_Suc_conv numeral_eq_Suc)

lemma atoi_all_digits: "list_all is_digit u \<Longrightarrow> atoi u = digits_value 0 u"
  using atoi_digits [of u "[]"] by (cases "u = []") (simp_all add: atoi_def)

lemma khz_entry_decimals:
  assumes "khz_entry fine k = Some (khz, ht)" "list_all is_digit k"
  shows "khz * 100 + ht = decimals_of k \<and> 0 \<le> khz \<and> khz < 1000 \<and> 0 \<le> ht \<and> ht < 100"
proof -
  note d = digit_val_range
  have z: "zeros 4 = ''0000''" "zeros 3 = ''000''" "zeros 2 = ''00''" "zeros (Suc 0) = ''0''" "zeros 0 = []"
    by (simp_all add: zeros_def numeral_eq_Suc)
  consider a where "k = [a]" | a b where "k = [a, b]" | a b c where "k = [a, b, c]" | a b c e where "k = [a, b, c, e]"
    | a b c e f where "k = [a, b, c, e, f]"
    using assms(1) by (auto simp: khz_entry_def list_of_length length_Suc_conv split: if_splits)
  then show ?thesis
  proof cases
    case (1 a)
    then show ?thesis using assms d [of a] by (simp add: khz_entry_def decimals_of_def atoi_all_digits z)
  next
    case (2 a b)
    then show ?thesis using assms d [of a] d [of b] by (simp add: khz_entry_def decimals_of_def atoi_all_digits z)
  next
    case (3 a b c)
    then show ?thesis using assms d [of a] d [of b] d [of c]
      by (auto simp: khz_entry_def decimals_of_def atoi_all_digits z split: if_splits)
  next
    case (4 a b c e)
    have "(1000 * digit_val a + 100 * digit_val b + 10 * digit_val c + digit_val e) div 10 =
        100 * digit_val a + 10 * digit_val b + digit_val c" if "is_digit e" using d [OF that] by linarith
    then show ?thesis using 4 assms d [of a] d [of b] d [of c] d [of e]
      by (auto simp: khz_entry_def decimals_of_def atoi_all_digits z)
  next
    case (5 a b c e f)
    have "(10000 * digit_val a + 1000 * digit_val b + 100 * digit_val c + 10 * digit_val e + digit_val f) div 100 =
        100 * digit_val a + 10 * digit_val b + digit_val c" if "is_digit e" "is_digit f"
      using d [OF that(1)] d [OF that(2)] by linarith
    then show ?thesis using 5 assms d [of a] d [of b] d [of c] d [of e] d [of f]
      by (auto simp: khz_entry_def decimals_of_def atoi_all_digits z)
  qed
qed

text \<open>What the counting loop lets through: digits and stars, with at most \<open>l\<close> digits in front of the first star.\<close>

lemma count_freq_entry:
  assumes "list_all is_digit M" "list_all is_digit K" "is_digit c"
  shows "count_freq_digits 0 0 0 (M @ CHR ''*'' # K @ CHR ''*'' # [c]) = Some (2, length M, length K)"
proof -
  have k: "count_freq_digits 1 l k (K @ CHR ''*'' # [c]) = Some (2, l, k + length K)" for l k
    using assms(2,3) by (induction K arbitrary: k) (auto simp: numeral_2_eq_2)
  have "count_freq_digits 0 l 0 (M @ CHR ''*'' # K @ CHR ''*'' # [c]) = Some (2, l + length M, length K)" for l
    using assms(1) k by (induction M arbitrary: l) auto
  then show ?thesis by simp
qed

lemma before_star:
  assumes "split_at c s = Some (u, v)"
  shows "u = takeWhile (\<lambda>d. d \<noteq> c) s" and "set u \<subseteq> set s" and "set v \<subseteq> set s"
  using split_at_Some [OF assms] by (auto simp: takeWhile_append)

lemma entry_text_numbers:
  assumes "list_all is_digit M" "length M \<le> 4" "0 \<le> k" "k < 1000" "0 \<le> ht" "ht < 100"
  shows "freq_numbers (entry_text M k ht) = Some (digits_value 0 M, k * 100 + ht)" "length (entry_text M k ht) \<le> 10"
proof -
  have l: "length (padded 3 k) = 3" "length (padded 2 ht) = 2" using assms by (intro length_padded; simp)+
  have shape: "entry_text M k ht = M @ CHR ''.'' # padded 3 k @ padded 2 ht"
    using assms l by (simp add: entry_text_def fit_def)
  have digits: "list_all is_digit (padded 3 k @ padded 2 ht)" using assms by simp
  have "digits_value 0 (padded w n) = n" if "0 \<le> n" for w n
    using that atoi_all_digits [of "padded w n"] by simp
  then have "digits_value 0 (padded 3 k @ padded 2 ht) = k * 100 + ht"
    using assms l digits_value_shift [of "padded 2 ht" k] by (simp add: digits_value_append)
  then have "atoi (padded 3 k @ padded 2 ht) = k * 100 + ht" by (simp only: atoi_all_digits [OF digits])
  then show "freq_numbers (entry_text M k ht) = Some (digits_value 0 M, k * 100 + ht)"
    using assms l split_freq_text [of M "padded 3 k @ padded 2 ht"] shape
    by (simp add: freq_numbers_def atoi_all_digits)
  show "length (entry_text M k ht) \<le> 10" using assms(2) shape l by simp
qed

end
