(* ===== verification/RigInvariant.thy ===== *)
theory RigInvariant
  imports RigGuarantee RigSafety
begin

text \<open>
  A remote base as a transition system: its steps are the commands of its users, the scan, and the
  telemetry that programs the radio. The frequency stays in the bands of the radio, the node keeps its configuration,
  and the log of what was sent only grows.
\<close>

section \<open>Frequencies in the bands of the radio\<close>

definition in_band :: "rig_conf \<Rightarrow> string \<Rightarrow> bool" where
  "in_band c fr \<longleftrightarrow> length fr < MAXREMSTR \<and>
    (case freq_numbers fr of None \<Rightarrow> False
     | Some (m, d) \<Rightarrow> 0 < m \<and> m < 10 ^ 7 \<and> 0 \<le> d \<and> d < 100000 \<and> check_freq c m d \<noteq> None)"

lemma no_such_band:
  assumes "m \<le> 0 \<or> 10 ^ 7 \<le> m"
  shows "check_freq_kenwood m d = None" "check_freq_tm271 m d = None" "check_freq_rbi m d = None"
    "check_freq_rtx rig m d = None" "check_freq_xcat m d = None" "check_freq_ft897 m d = None"
    "check_freq_ft100 m d = None" "check_freq_ft950 m d = None"
proof -
  have n: "m \<noteq> 1" "m \<noteq> 3" "m \<noteq> 7" "m \<noteq> 14" "m \<noteq> 18" "m \<noteq> 21" "m \<noteq> 24" "m \<noteq> 28" "m \<noteq> 29" "m \<noteq> 50" "m \<noteq> 144"
    using assms by auto
  have r: "\<not> (28 \<le> m \<and> m < 30)" "\<not> (50 \<le> m \<and> m < 54)" "\<not> (51 \<le> m \<and> m < 54)" "\<not> (144 \<le> m \<and> m < 148)"
    "\<not> (145 \<le> m \<and> m < 148)" "\<not> (222 \<le> m \<and> m < 225)" "\<not> (420 \<le> m \<and> m < 450)" "\<not> (430 \<le> m \<and> m < 450)"
    "\<not> (1240 \<le> m \<and> m < 1300)" using assms by auto
  show "check_freq_kenwood m d = None" "check_freq_tm271 m d = None" "check_freq_rbi m d = None"
    "check_freq_rtx rig m d = None" "check_freq_xcat m d = None" "check_freq_ft897 m d = None"
    "check_freq_ft100 m d = None" "check_freq_ft950 m d = None"
    by (simp_all only: check_freq_kenwood_def check_freq_tm271_def check_freq_rbi_def check_freq_rtx_def
        check_freq_xcat_def check_freq_ft897_def check_freq_ft100_def check_freq_ft950_def n r if_False simp_thms if_cancel)
qed

lemma check_freq_mhz:
  assumes "check_freq c m d \<noteq> None" "remoterig c \<noteq> ''ic706''"
  shows "0 < m \<and> m < 10 ^ 7"
proof (rule ccontr)
  assume "\<not> (0 < m \<and> m < 10 ^ 7)"
  then have "m \<le> 0 \<or> 10 ^ 7 \<le> m" by auto
  note none = no_such_band [OF this]
  show False using assms by (simp add: check_freq_def Let_def none split: if_split_asm)
qed

lemma takeWhile_take_length: "length (takeWhile P (take n xs)) \<le> length (takeWhile P xs)"
proof (induction xs arbitrary: n)
  case (Cons x xs)
  then show ?case by (cases n) simp_all
qed simp

text \<open>What the counting loop lets through: digits and stars, with at most \<open>l\<close> digits in front of the first star.\<close>

lemma count_freq_chars:
  "count_freq_digits j l k cs = Some r \<Longrightarrow> list_all (\<lambda>c. is_digit c \<or> c = CHR ''*'') cs"
proof (induction cs arbitrary: j l k)
  case (Cons c cs)
  then show ?case by (cases "c = CHR ''*''"; cases "is_digit c"; cases "j = 0"; cases "j = 1") auto
qed simp

lemma count_freq_later: "count_freq_digits j l k cs = Some (j', l', k') \<Longrightarrow> l \<le> l'"
proof (induction cs arbitrary: j l k)
  case (Cons c cs)
  show ?case
  proof (cases "c = CHR ''*'' \<or> j \<noteq> 0")
    case True
    then show ?thesis using Cons by (auto split: if_split_asm)
  next
    case False
    then show ?thesis using Cons.prems Cons.IH [of 0 "l + 1" k] by (cases "is_digit c") auto
  qed
qed simp

lemma count_freq_mhz:
  "count_freq_digits 0 l k cs = Some (j', l', k') \<Longrightarrow> l + length (takeWhile (\<lambda>c. c \<noteq> CHR ''*'') cs) \<le> l'"
proof (induction cs arbitrary: l)
  case (Cons c cs)
  show ?case
  proof (cases "c = CHR ''*''")
    case True
    then show ?thesis using Cons.prems count_freq_later [of 1 l k cs] by simp
  next
    case False
    then show ?thesis using Cons.prems Cons.IH [of "l + 1"] by (cases "is_digit c") simp_all
  qed
qed (simp add: count_freq_later)

lemma entry_parts:
  assumes "count_freq_digits 0 0 0 db = Some (j, l, k)" "l \<le> 4"
    and "split_at CHR ''*'' (take 19 db) = Some (M, tail)" "split_at CHR ''*'' tail = Some (K, rest)"
  shows "list_all is_digit M" "length M \<le> 4" "list_all is_digit K"
proof -
  have chars: "c = CHR ''*'' \<or> is_digit c" if "c \<in> set (take 19 db)" for c
    using count_freq_chars [OF assms(1)] in_set_takeD [OF that] by (auto simp: list_all_iff)
  note s = split_at_Some [OF assms(3)] split_at_Some [OF assms(4)]
  show "list_all is_digit M" using chars s(1) by (auto simp: list_all_iff)
  show "list_all is_digit K" using chars s by (auto simp: list_all_iff)
  have "length (takeWhile (\<lambda>c. c \<noteq> CHR ''*'') (take 19 db)) \<le> length (takeWhile (\<lambda>c. c \<noteq> CHR ''*'') db)"
    by (rule takeWhile_take_length)
  then show "length M \<le> 4"
    using before_star(1) [OF assms(3)] count_freq_mhz [OF assms(1)] assms(2) by simp
qed

lemma entry_in_band:
  assumes "count_freq_digits 0 0 0 db = Some (j, l, k)" "l \<le> 4"
    and "split_at CHR ''*'' (take 19 db) = Some (M, tail)" "split_at CHR ''*'' tail = Some (K, rest)"
    and "khz_entry fine K = Some (khz, ht)" "freq_numbers (entry_text M khz ht) = Some (m, d)"
    and "check_freq c m d \<noteq> None" "remoterig c \<noteq> ''ic706''"
  shows "in_band c (entry_text M khz ht)"
proof -
  note parts = entry_parts [OF assms(1-4)]
  note kd = khz_entry_decimals [OF assms(5) parts(3)]
  have "freq_numbers (entry_text M khz ht) = Some (digits_value 0 M, khz * 100 + ht)"
    "length (entry_text M khz ht) \<le> 10"
    using entry_text_numbers [OF parts(1,2), of khz ht] kd by simp_all
  then show ?thesis using kd assms(6-8) check_freq_mhz [of c m d] by (simp add: in_band_def MAXREMSTR_def)
qed

section \<open>The steps keep the frequency in the bands\<close>

definition memories_in_band :: "(string \<Rightarrow> string option) \<Rightarrow> rig_conf \<Rightarrow> bool" where
  "memories_in_band lookup c \<longleftrightarrow>
    (\<forall>mem val fr rest. lookup mem = Some val \<and> split_at CHR '','' (take 29 val) = Some (fr, rest) \<longrightarrow> in_band c fr)"

definition band_kept :: "(string \<Rightarrow> string option) \<Rightarrow> rpt \<Rightarrow> rpt \<Rightarrow> bool" where
  "band_kept lookup s t \<longleftrightarrow> conf t = conf s \<and>
    (remoterig (conf s) \<noteq> ''ic706'' \<and> memories_in_band lookup (conf s) \<and> in_band (conf s) (freq s) \<longrightarrow>
      in_band (conf s) (freq t))"

interpretation band: tuner_guarantee "band_kept lookup" for lookup
  by unfold_locales (auto simp: band_kept_def)

lemma fit_in_band: "in_band c fr \<Longrightarrow> fit MAXREMSTR fr = fr"
  by (simp add: in_band_def fit_def MAXREMSTR_def)

lemma keep_bump:
  assumes "\<bar>i\<bar> \<le> 1000000"
  shows "state_io_rel (band_kept lookup) (multimode_bump_freq port i)"
proof (rule state_io_relI)
  fix a s t
  assume run: "run_state (multimode_bump_freq port i) s = (a, t)"
  then have c: "conf t = conf s" using history.run [OF history.moves(1), of s port i] by (simp add: log_grows_def)
  have "in_band (conf s) (freq t)" if *: "remoterig (conf s) \<noteq> ''ic706''" "in_band (conf s) (freq s)"
  proof (cases "multimode_capable (remoterig (conf s))")
    case False
    then show ?thesis using run that by (auto simp: multimode_capable_def multimode_bump_freq_def split: if_splits)
  next
    case True
    obtain m0 d0 where f: "freq_numbers (freq s) = Some (m0, d0)" "0 < m0" "m0 < 10 ^ 7" "0 \<le> d0" "d0 < 100000"
      using *(2) by (auto simp: in_band_def split: option.splits)
    obtain m d where b: "bumped i m0 d0 = (m, d)" by fastforce
    note t = tens_bumped [OF b f(4,5) assms]
    have m: "0 \<le> m" "m < 10 ^ 8" using t f by simp_all
    have new: "in_band (conf s) (freq_text m d)" if "check_freq (conf s) m d \<noteq> None"
      using that freq_text_numbers [OF m] t check_freq_mhz [OF that *(1)]
      by (simp add: in_band_def freq_text_def fit_def MAXREMSTR_def)
    show ?thesis using bump_one [OF True f(1) b m, of port] t run new *(2) by (auto split: if_splits)
  qed
  then show "band_kept lookup s t" using c by (simp add: band_kept_def)
qed

lemma keep_scan: "state_io_rel (band_kept lookup) (service_scan port)"
proof -
  have i: "\<bar>i\<bar> \<le> 1000000" if "scan_interval mode = Some i" for mode i
    using that by (auto simp: scan_interval_def split: if_splits)
  show ?thesis
    unfolding service_scan_def
    by (intro band.basic band.bind band.split_option band.cases(1,3) band.commands keep_bump band.setting i) simp_all
qed

lemma keep_enter:
  assumes "remoterig (conf s) \<noteq> ''ic706'' \<Longrightarrow> in_band (conf s) fr"
  shows "band_kept lookup s (snd (run_state (enter_freq fmt fr off mode) s))"
proof -
  let ?s = "s\<lparr>freq := fit MAXREMSTR fr, offset := off, remmode := mode\<rparr>"
  obtain res t where run: "run_state (setrem fmt) ?s = (res, t)" by fastforce
  have "freq t = fit MAXREMSTR fr \<and> conf t = conf s"
    using tuning.run [OF tuning.programming(3), of ?s fmt] run by (simp add: same_freq_def)
  then show ?thesis
    using run fit_in_band assms by (auto simp: enter_freq_def invalid_freq_def band_kept_def)
qed

text \<open>On the way to the new frequency every test of the entry has been passed.\<close>

lemma keep_freq: "state_io_rel (band_kept lookup) (remote_freq fmt db)"
proof -
  have invalid: "band_kept lookup s (snd (run_state invalid_freq s))" for s
    unfolding invalid_freq_def by (intro band.run band.bind band.basic)
  have digits: "l \<le> 4" if "\<not> (mm \<and> (2 < j \<or> 3 < l \<or> 6 < k))" "\<not> (\<not> mm \<and> (2 < j \<or> 4 < l \<or> 5 < k))"
    for mm and j l k :: nat using that by auto
  show ?thesis
    unfolding remote_freq_def Let_def
    by (rule band.read_state, intro band.at_state invalid band.run [OF band.basic(1)] keep_enter,
        hypsubst_thin, rule entry_in_band, assumption, erule (1) digits, assumption+) simp_all
qed

lemma keep_retrieve: "state_io_rel (band_kept lookup) (retrieve_memory lookup mem)"
proof -
  have "band_kept lookup s (snd (run_state (retrieve_memory lookup mem) s))" for s mem
  proof (cases "\<exists>val fr rest. lookup mem = Some val \<and> split_at CHR '','' (take 29 val) = Some (fr, rest)
      \<and> split_at CHR '','' rest \<noteq> None")
    case True
    then obtain val fr rest pl s1 where m: "lookup mem = Some val" "split_at CHR '','' (take 29 val) = Some (fr, rest)"
      "split_at CHR '','' rest = Some (pl, s1)" by auto
    have "freq (snd (run_state (retrieve_memory lookup mem) s)) = fit MAXREMSTR fr"
      "conf (snd (run_state (retrieve_memory lookup mem) s)) = conf s"
      using m by (simp_all add: retrieve_memory_def memory_flags_keep split: option.split prod.split)
    moreover have "in_band (conf s) fr" if "memories_in_band lookup (conf s)"
      using that m unfolding memories_in_band_def by blast
    ultimately show ?thesis using fit_in_band by (auto simp: band_kept_def)
  next
    case False
    then show ?thesis by (auto simp: retrieve_memory_def band.refl split: option.split)
  qed
  then show ?thesis by (simp add: state_io_rel_def)
qed

lemma keep_memory: "state_io_rel (band_kept lookup) (remote_memory lookup fmt db)"
  unfolding remote_memory_def get_mem_set_def by (intro band.rules band.programming keep_retrieve)

section \<open>The remote base as a transition system\<close>

text \<open>
  A step is a command, a memory recalled by the control operator, one of the periodic calls of the scan, the tuning of the
  antenna, the telemetry that programs the radio, or its end.
\<close>

inductive remote_step ::
  "port \<Rightarrow> nat \<Rightarrow> (string \<Rightarrow> string option) \<Rightarrow> (string \<Rightarrow> int \<Rightarrow> string) \<Rightarrow> rpt \<Rightarrow> rpt \<Rightarrow> bool"
  for port buflen lookup fmt where
  user: "remote_step port buflen lookup fmt s (snd (run_state (function_remote port lookup fmt param p db src) s))"
| operator: "remote_step port buflen lookup fmt s (snd (run_state (cop_recall lookup fmt db) s))"
| scan: "remote_step port buflen lookup fmt s (snd (run_state (scan_tick port) s))"
| tune: "remote_step port buflen lookup fmt s (snd (run_state (tune_radio port tone) s))"
| program: "remote_step port buflen lookup fmt s (snd (run_state (set_radio port buflen) s))"
| close: "remote_step port buflen lookup fmt s (snd (run_state (closerem port) s))"

inductive_cases remote_stepE: "remote_step port buflen lookup fmt s t"

lemma step_band_kept: "remote_step port buflen lookup fmt s t \<Longrightarrow> band_kept lookup s t"
proof (elim remote_stepE)
  fix param p db src
  assume t: "t = snd (run_state (function_remote port lookup fmt param p db src) s)"
  have "state_io_rel (band_kept lookup) (bump port i)" if "\<bar>i\<bar> \<le> 500" for i
    unfolding bump_def using that by (intro band.bind band.basic keep_bump) simp
  then show "band_kept lookup s t"
    unfolding t by (intro band.run band.function_remote keep_freq keep_memory)
qed (simp_all only: band.run keep_scan band.scan band.tune band.recall keep_retrieve band.programming)

lemma step_log: "remote_step port buflen lookup fmt s t \<Longrightarrow> log_grows s t"
  by (elim remote_stepE) (simp_all only: history.run history.user history.moves history.scan history.tune history.recall history.memories history.programming)

text \<open>C29. Whatever the users of a remote base enter or the control operator recalls, and however the scan, the tuning of the
  antenna, the programming of the radio and its end interleave, the frequency it holds reads back as one its radio may be set to, the node keeps its
  configuration, and nothing that was sent is forgotten. The frequency and the memories of the
  configuration must be in the bands at the start (memories are not checked), and the radio not an IC-706.\<close>

theorem remote_stays_in_band:
  assumes "(remote_step port buflen lookup fmt)\<^sup>*\<^sup>* s t"
    and "remoterig (conf s) \<noteq> ''ic706''" "memories_in_band lookup (conf s)" "in_band (conf s) (freq s)"
  shows "in_band (conf t) (freq t) \<and> log_grows s t"
  using assms(1)
proof (induction rule: rtranclp_induct)
  case base
  then show ?case using assms(4) history.refl by simp
next
  case (step t u)
  have "conf t = conf s" "conf u = conf t" using step step_log by (auto simp: log_grows_def)
  then show ?case
    using step assms(2,3) step_band_kept [OF step(2)] history.trans [OF _ step_log [OF step(2)]]
    by (auto simp: band_kept_def)
qed

text \<open>20 Hz up and a scan that starts, on an FT-897.\<close>

theorem remote_stays_in_band_witness:
  "\<exists>t. (remote_step ex_port 100 (\<lambda>_. None) (\<lambda>fr _. fr))\<^sup>*\<^sup>* ((ex_rpt ''ft897'' ''14.19999'')\<lparr>loginlevel := ''x''\<rparr>) t
    \<and> freq t = ''14.20001'' \<and> in_band (conf t) (freq t)"
proof -
  let ?s = "(ex_rpt ''ft897'' ''14.19999'')\<lparr>loginlevel := ''x''\<rparr>"
  let ?t = "snd (run_state (function_remote ex_port (\<lambda>_. None) (\<lambda>fr _. fr) (Some ''110'') 110 [] SOURCE_RMT) ?s)"
  have step: "(remote_step ex_port 100 (\<lambda>_. None) (\<lambda>fr _. fr))\<^sup>*\<^sup>* ?s ?t"
    by (rule r_into_rtranclp, rule remote_step.user)
  have start: "remoterig (conf ?s) \<noteq> ''ic706''" "memories_in_band (\<lambda>_. None) (conf ?s)" "in_band (conf ?s) (freq ?s)"
    "freq ?t = ''14.20001''" by (code_simp, simp add: memories_in_band_def, code_simp+)
  show ?thesis using remote_stays_in_band [OF step start(1-3)] step start(4) by blast
qed

end
