(* ===== verification/RigEntry.thy ===== *)
theory RigEntry
  imports RigInvariant
begin

text \<open>Entering a frequency on a remote base, end to end.\<close>

lemma split_digits: "list_all is_digit u \<Longrightarrow> split_at CHR ''*'' (u @ CHR ''*'' # v) = Some (u, v)"
  by (simp add: split_at_append not_in_digits)

lemma setrem_refuses:
  assumes "fst (run_state (setrem fmt) s) = - 1"
  shows "remoterig (conf s) = ''rbi''"
  using assms by (auto simp: setrem_def Let_def split: if_splits prod.splits)

lemma run_enter:
  assumes "run_state (enter_freq fmt fr off mode) s = (r, t)" "length fr < MAXREMSTR" "length (freq s) < MAXREMSTR"
  shows "r = Some DC_COMPLETE \<and> freq t = fr \<and> offset t = off \<and> remmode t = mode
    \<or> remoterig (conf s) = ''rbi'' \<and> r = Some DC_ERROR \<and> freq t = freq s \<and> offset t = offset s \<and> remmode t = remmode s"
proof -
  let ?s = "s\<lparr>freq := fit MAXREMSTR fr, offset := off, remmode := mode\<rparr>"
  obtain res u where run: "run_state (setrem fmt) ?s = (res, u)" by fastforce
  have same: "u\<lparr>events := []\<rparr> = ?s\<lparr>events := []\<rparr>"
    using settings.run [OF settings.programming(3), of ?s fmt] run by (simp add: same_settings_def)
  have fit: "fit MAXREMSTR fr = fr" "fit MAXREMSTR (freq s) = freq s"
    using assms(2,3) by (simp_all add: fit_def MAXREMSTR_def)
  with same have u: "freq u = fr" "offset u = off" "remmode u = mode" by (cases u; cases s; simp)+
  show ?thesis
  proof (cases "res = - 1")
    case True
    then have "remoterig (conf s) = ''rbi''" using setrem_refuses [of fmt ?s] run by simp
    then show ?thesis using assms(1) True run u fit by (auto simp: enter_freq_def invalid_freq_def)
  next
    case False
    then show ?thesis using assms(1) run u fit by (auto simp: enter_freq_def split: if_splits)
  qed
qed

definition capable :: "string \<Rightarrow> bool" where
  "capable rig \<longleftrightarrow> narrow_capable rig \<or> multimode_capable rig"

text \<open>C30. Entering M*K*o in FM: when the digits fit the radio (up to three or four for the megahertz, up to five
  decimals, three of which the last is 0 or 5 on a radio without narrow steps) and its check accepts the frequency,
  the remote base afterwards holds exactly the frequency M.K, in FM, with the split that o names; what is
  left out of K is zero. Only an RBI-1 may refuse, and then the settings are the old ones.\<close>

theorem entered_frequency:
  assumes "list_all is_digit M" "length M \<le> (if multimode_capable (remoterig (conf s)) then 3 else 4)"
    and "list_all is_digit K" "khz_entry (capable (remoterig (conf s))) K \<noteq> None"
    and "capable (remoterig (conf s)) \<or> length K \<le> 3"
    and "check_freq (conf s) (digits_value 0 M) (decimals_of K) = Some REM_MODE_FM"
    and "map_of [(CHR ''1'', REM_MINUS), (CHR ''2'', REM_SIMPLEX), (CHR ''3'', REM_PLUS)] c = Some off"
    and "length (freq s) < MAXREMSTR"
    and "run_state (remote_freq fmt (M @ CHR ''*'' # K @ CHR ''*'' # [c])) s = (r, t)"
  shows "r = Some DC_COMPLETE \<and> freq_numbers (freq t) = Some (digits_value 0 M, decimals_of K)
      \<and> offset t = off \<and> remmode t = REM_MODE_FM
    \<or> remoterig (conf s) = ''rbi'' \<and> r = Some DC_ERROR \<and> freq t = freq s \<and> offset t = offset s \<and> remmode t = remmode s"
proof -
  obtain k ht where e: "khz_entry (capable (remoterig (conf s))) K = Some (k, ht)" using assms(4) by auto
  note kd = khz_entry_decimals [OF e assms(3)]
  have len: "length K \<le> 5" "length M \<le> 4" using e assms(2) by (auto simp: khz_entry_def split: if_splits)
  have shape: "freq_numbers (entry_text M k ht) = Some (digits_value 0 M, decimals_of K)"
    "length (entry_text M k ht) < MAXREMSTR"
    using entry_text_numbers [OF assms(1) len(2), of k ht] kd by (simp_all add: MAXREMSTR_def)
  have c: "is_digit c" "c \<noteq> CHR ''*''" "entry_offset [c] = Some off"
    using assms(7) by (auto simp: entry_offset_def is_digit_def split: if_splits)
  have "run_state (remote_freq fmt (M @ CHR ''*'' # K @ CHR ''*'' # [c])) s =
      run_state (enter_freq fmt (entry_text M k ht) off REM_MODE_FM) s"
    using assms(2,5,6) len c e shape count_freq_entry [OF assms(1,3) c(1)] split_digits [OF assms(1)] split_digits [OF assms(3)]
    by (auto simp: remote_freq_def Let_def capable_def)
  then show ?thesis using run_enter [OF _ shape(2) assms(8), of fmt off REM_MODE_FM r t] assms(9) shape(1) by auto
qed

theorem entered_frequency_witness:
  "freq_numbers (freq (snd (run_state (remote_freq (\<lambda>fr _. fr) ''146*52*2'') (ex_rpt ''kenwood'' ''145.0''))))
    = Some (146, 52000)"
proof -
  let ?s = "ex_rpt ''kenwood'' ''145.0''"
  have f: "list_all is_digit ''146''" "list_all is_digit ''52''" "khz_entry (capable (remoterig (conf ?s))) ''52'' \<noteq> None"
    "check_freq (conf ?s) (digits_value 0 ''146'') (decimals_of ''52'') = Some REM_MODE_FM" "length (freq ?s) < MAXREMSTR"
    "digits_value 0 ''146'' = 146" "decimals_of ''52'' = 52000" "remoterig (conf ?s) = ''kenwood''" "capable ''kenwood''"
    "\<not> multimode_capable ''kenwood''"
    by code_simp+
  obtain r t where run: "run_state (remote_freq (\<lambda>fr _. fr) ''146*52*2'') ?s = (r, t)" by fastforce
  show ?thesis
    using entered_frequency [of "''146''" ?s "''52''" "CHR ''2''" REM_SIMPLEX "\<lambda>fr _. fr" r t] f run by simp
qed

end
