(* ===== verification/RigDigits.thy ===== *)
theory RigDigits
  imports RigCommand
begin

text \<open>
  How the digits that reach a remote base become commands (apps/app_rpt.c): the translation of sequences,
  the collection of the digits, and the table that names the function. The other functions of the table are the
  parameter \<open>others\<close>. A result None is undefined behaviour.
\<close>

section \<open>Integers as \<open>sscanf\<close> reads them with \<open>%i\<close>\<close>

definition digit_in :: "int \<Rightarrow> char \<Rightarrow> int option" where
  "digit_in base c =
    (if is_digit c then (if digit_val c < base then Some (digit_val c) else None)
     else if base = 16
     then map_of [(CHR ''a'', 10), (CHR ''b'', 11), (CHR ''c'', 12), (CHR ''d'', 13), (CHR ''e'', 14), (CHR ''f'', 15)] (lower c)
     else None)"

definition scan_digits :: "int \<Rightarrow> string \<Rightarrow> int option" where
  "scan_digits base s =
    (let ds = takeWhile (\<lambda>c. digit_in base c \<noteq> None) s
     in if ds = [] then None else Some (foldl (\<lambda>n c. n * base + the (digit_in base c)) 0 ds))"

definition scan_unsigned :: "string \<Rightarrow> int option" where
  "scan_unsigned s =
    (if take 2 s = ''0x'' \<or> take 2 s = ''0X'' then scan_digits 16 (drop 2 s)
     else if take 1 s = ''0'' then scan_digits 8 s
     else scan_digits 10 s)"

definition scan_int :: "string \<Rightarrow> int option" where
  "scan_int s =
    (let t = dropWhile is_space s
     in if take 1 t = ''-'' then map_option uminus (scan_unsigned (drop 1 t))
        else if take 1 t = ''+'' then scan_unsigned (drop 1 t)
        else scan_unsigned t)"

definition myatoi :: "string option \<Rightarrow> int" where
  "myatoi str = (case str of None \<Rightarrow> - 1 | Some s \<Rightarrow> (case scan_int s of None \<Rightarrow> - 1 | Some n \<Rightarrow> n))"

section \<open>Translation\<close>

definition MAXXLATTIME :: int where "MAXXLATTIME = 3"
definition DTMF_TIMEOUT :: int where "DTMF_TIMEOUT = 3"
definition MAXDTMF :: nat where "MAXDTMF = 32"

record rpt_xlat =
  funccharseq :: string
  endcharseq :: string
  passchars :: string
  funcindex :: nat
  endindex :: nat
  lastone :: int

record dtmf_conf =
  funcchar :: char
  endchar :: char
  propagate_dtmf :: bool
  node_functions :: "(string \<times> string) list"
  phone_functions :: "(string \<times> string) list option"
  dphone_functions :: "(string \<times> string) list option"
  alt_functions :: "(string \<times> string) list option"
  link_functions :: "(string \<times> string) list"

text \<open>
  The sequences that stand for the function and the end character: None is a digit that is swallowed. The
  test of a sequence moves its index, also when the digit does not match (then it is reset).
\<close>

definition seq_hit :: "char \<Rightarrow> string \<Rightarrow> nat \<Rightarrow> bool" where
  "seq_hit c sq i \<longleftrightarrow> sq \<noteq> [] \<and> i < length sq \<and> c = sq ! i"

definition func_xlat :: "dtmf_conf \<Rightarrow> int \<Rightarrow> char \<Rightarrow> rpt_xlat \<Rightarrow> char option \<times> rpt_xlat" where
  "func_xlat p now c x0 =
    (let x = (if now - lastone x0 > MAXXLATTIME then x0\<lparr>funcindex := 0, endindex := 0\<rparr> else x0);
         hit = seq_hit c (funccharseq x) (funcindex x);
         x1 = (if hit then x\<lparr>funcindex := funcindex x + 1, lastone := now\<rparr> else x\<lparr>funcindex := 0\<rparr>)
     in if hit \<and> funcindex x1 = length (funccharseq x) then (Some (funcchar p), x1\<lparr>funcindex := 0, endindex := 0\<rparr>)
        else
          (let hit' = seq_hit c (endcharseq x1) (endindex x1);
               x2 = (if hit' then x1\<lparr>endindex := endindex x1 + 1, lastone := now\<rparr> else x1\<lparr>endindex := 0\<rparr>)
           in if hit' \<and> endindex x2 = length (endcharseq x1) then (Some (endchar p), x2\<lparr>funcindex := 0, endindex := 0\<rparr>)
              else if hit \<or> hit' then (None, x2)
              else if passchars x2 = [] then (Some c, x2)
              else if c \<in> set (passchars x2) then (Some c, x2)
              else (None, x2)))"

section \<open>The function table\<close>

definition function_table :: "string list" where
  "function_table = [''cop'', ''autopatchup'', ''autopatchdn'', ''ilink'', ''status'', ''remote'', ''macro'', ''playback'',
     ''localplay'', ''meter'', ''userout'', ''cmd'']"

text \<open>\<open>!strncasecmp(a, b, strlen(a))\<close>: every beginning of \<open>b\<close> matches, the empty one too.\<close>

definition begins :: "string \<Rightarrow> string \<Rightarrow> bool" where
  "begins a b \<longleftrightarrow> map lower (take (length a) b) = map lower a"

definition longestfunc :: "(string \<times> string) list \<Rightarrow> nat" where
  "longestfunc tbl = foldl (\<lambda>n (name, val). max n (length name)) 0 tbl"

definition table_of :: "dtmf_conf \<Rightarrow> source \<Rightarrow> (string \<times> string) list option" where
  "table_of p src =
    (if src = SOURCE_DPHONE then dphone_functions p
     else if src = SOURCE_ALT then alt_functions p
     else if src = SOURCE_PHONE then phone_functions p
     else if src = SOURCE_LNK then Some (link_functions p)
     else Some (node_functions p))"

type_synonym handlers = "string \<Rightarrow> string option \<Rightarrow> string \<Rightarrow> source \<Rightarrow> dc option rig"

definition collect_function_digits ::
  "port \<Rightarrow> (string \<Rightarrow> string option) \<Rightarrow> (string \<Rightarrow> int \<Rightarrow> string) \<Rightarrow> handlers \<Rightarrow> dtmf_conf \<Rightarrow> string \<Rightarrow> source \<Rightarrow> dc option rig" where
  "collect_function_digits port lookup fmt others p digits src =
    (case table_of p src of None \<Rightarrow> return (Some DC_INDETERMINATE)
     | Some tbl \<Rightarrow>
       (case find (\<lambda>(name, val). begins name digits) tbl of
          None \<Rightarrow> return (Some (if length digits \<ge> longestfunc tbl then DC_ERROR else DC_INDETERMINATE))
        | Some (name, val) \<Rightarrow>
          (let (action, param) = (case split_at CHR '','' (take 199 val) of
                 None \<Rightarrow> (take 199 val, None) | Some (a, rest) \<Rightarrow> (a, Some rest))
           in case find (begins action) function_table of
                None \<Rightarrow> return (Some DC_ERROR)
              | Some f \<Rightarrow>
                 if f = ''remote''
                 then function_remote port lookup fmt param (myatoi param) (drop (length name) digits) src
                 else others f param (drop (length name) digits) src)))"

section \<open>Collecting the digits\<close>

record collector =
  radio :: rpt
  dtmfidx :: int
  dtmfbuf :: string
  dtmf_time_rem :: int
  last_activity_time :: int
  totalexecdcommands :: nat
  dailyexecdcommands :: nat
  lastdtmfcommand :: string

definition idle :: "collector \<Rightarrow> collector" where
  "idle s = s\<lparr>dtmfbuf := [], dtmfidx := - 1, dtmf_time_rem := 0\<rparr>"

definition restart :: "int \<Rightarrow> collector \<Rightarrow> collector" where
  "restart now s = s\<lparr>dtmfidx := 0, dtmfbuf := [], dtmf_time_rem := now\<rparr>"

definition on_radio :: "'a rig \<Rightarrow> collector \<Rightarrow> 'a \<times> collector" where
  "on_radio m s = (case run_state m (radio s) of (a, r) \<Rightarrow> (a, s\<lparr>radio := r\<rparr>))"

definition dtmf_source :: "int \<Rightarrow> source" where
  "dtmf_source phonemode =
    (if phonemode = 2 then SOURCE_DPHONE else if phonemode \<noteq> 0 then SOURCE_PHONE
     else if phonemode = 4 then SOURCE_ALT else SOURCE_RMT)"

text \<open>What becomes of the collected digits: the result, the key of the caller (a phone that keys), the state.\<close>

definition after_collect :: "dc \<Rightarrow> bool \<Rightarrow> collector \<Rightarrow> int \<times> bool \<times> collector" where
  "after_collect ret key s =
    (case ret of
       DC_INDETERMINATE \<Rightarrow> (0, key, s)
     | DC_DOKEY \<Rightarrow> (0, True, s)
     | DC_REQ_FLUSH \<Rightarrow> (0, key, s\<lparr>dtmfidx := 0, dtmfbuf := []\<rparr>)
     | DC_ERROR \<Rightarrow> (0, key, idle s)
     | _ \<Rightarrow> (if ret = DC_COMPLETE then 1 else 0, key,
         idle (s\<lparr>totalexecdcommands := totalexecdcommands s + 1, dailyexecdcommands := dailyexecdcommands s + 1,
                 lastdtmfcommand := take (MAXDTMF - 1) (dtmfbuf s)\<rparr>)))"

text \<open>
  The digit number 32 of a command is stored in the last place of \<open>dtmfbuf\<close> and the zero behind it.
\<close>

definition handle_remote_dtmf_digit ::
  "port \<Rightarrow> (string \<Rightarrow> string option) \<Rightarrow> (string \<Rightarrow> int \<Rightarrow> string) \<Rightarrow> handlers \<Rightarrow> dtmf_conf \<Rightarrow> int \<Rightarrow> char \<Rightarrow> bool \<Rightarrow> int
     \<Rightarrow> collector \<Rightarrow> (int \<times> bool \<times> collector) option" where
  "handle_remote_dtmf_digit port lookup fmt others p now c key phonemode s0 =
    (let s1 = s0\<lparr>last_activity_time := now\<rparr>
     in if hfscanmode (radio s1) \<noteq> 0 then Some (0, key, snd (on_radio stop_scan s1))
        else
          (let s2 = (if dtmf_time_rem s1 + DTMF_TIMEOUT < now then idle s1 else s1)
           in if dtmfidx s2 = - 1 then
                (if c \<noteq> funcchar p
                 then Some (0, key, if propagate_dtmf p then s2 else snd (on_radio (emit (Dtmf [c])) s2))
                 else Some (0, key, restart now s2))
              else
                (let s3 = (if dtmfidx s2 \<ge> int MAXDTMF then restart now s2 else s2)
                 in if c = funcchar p \<and> (dtmfidx s3 < 1 \<or> dtmfbuf s3 ! nat (dtmfidx s3 - 1) = funcchar p)
                    then Some (0, key, restart now s3)
                    else if dtmfidx s3 + 1 \<ge> int MAXDTMF then None
                    else
                      (let s4 = s3\<lparr>dtmfbuf := dtmfbuf s3 @ [c], dtmfidx := dtmfidx s3 + 1, dtmf_time_rem := now\<rparr>;
                           (ret, s5) = on_radio
                             (collect_function_digits port lookup fmt others p (dtmfbuf s4) (dtmf_source phonemode)) s4
                       in map_option (\<lambda>ret. after_collect ret key s5) ret))))"

text \<open>A completed command of a link or of a phone is announced.\<close>

definition announced :: "int \<times> bool \<times> collector \<Rightarrow> int \<times> bool \<times> collector" where
  "announced r =
    (case r of (res, key, s) \<Rightarrow>
       if res \<noteq> 1 then (res, key, s)
       else if remoterig (conf (radio s)) = ''tm271'' \<or> remoterig (conf (radio s)) = ''kenwood''
       then (0, key, snd (on_radio (rpt_telemetry REMCOMPLETE) s))
       else (0, key, snd (on_radio (rpt_telemetry COMPLETE) s)))"

text \<open>A digit from a link, once \<open>handle_remote_data\<close> has found it in the text; then one from a phone.\<close>

definition remote_data_digit ::
  "port \<Rightarrow> (string \<Rightarrow> string option) \<Rightarrow> (string \<Rightarrow> int \<Rightarrow> string) \<Rightarrow> handlers \<Rightarrow> dtmf_conf \<Rightarrow> int \<Rightarrow> char
     \<Rightarrow> rpt_xlat \<times> collector \<Rightarrow> (int \<times> rpt_xlat \<times> collector) option" where
  "remote_data_digit port lookup fmt others p now c xs =
    (case func_xlat p now c (fst xs) of
       (None, x) \<Rightarrow> Some (0, x, snd xs)
     | (Some c', x) \<Rightarrow>
        map_option (\<lambda>r. case announced r of (res, key, s) \<Rightarrow> (res, x, s))
          (handle_remote_dtmf_digit port lookup fmt others p now c' False 0 (snd xs)))"

definition handle_remote_phone_dtmf ::
  "port \<Rightarrow> (string \<Rightarrow> string option) \<Rightarrow> (string \<Rightarrow> int \<Rightarrow> string) \<Rightarrow> handlers \<Rightarrow> dtmf_conf \<Rightarrow> int \<Rightarrow> char \<Rightarrow> bool \<Rightarrow> int
     \<Rightarrow> collector \<Rightarrow> (int \<times> bool \<times> collector) option" where
  "handle_remote_phone_dtmf port lookup fmt others p now c key phonemode s =
    (if phonemode = 3 \<and> key \<and> (c = funcchar p \<or> c = endchar p) then Some (0, False, s)
     else if phonemode = 3 \<and> \<not> key \<and> c = funcchar p then Some (0, True, s)
     else if phonemode \<noteq> 3 \<and> key \<and> c = endchar p then Some (0, False, s)
     else map_option announced (handle_remote_dtmf_digit port lookup fmt others p now c key phonemode s))"

end
