(* ===== verification/RigTyping.thy ===== *)
theory RigTyping
  imports RigDigits RigInvariant
begin

text \<open>
  From digits to commands: a command that is typed in time is executed once, the bounds of the buffer of
  digits, and what digits can do to a protected remote base while nobody is logged in.
\<close>

section \<open>Typing a command\<close>





text \<open>The digits 2146*52*2 behind a star, with the table entry 2 for remote,2, set a Kenwood radio to 146.52 MHz.\<close>

definition ex_dtmf :: dtmf_conf where
  "ex_dtmf = \<lparr>funcchar = CHR ''*'', endchar = CHR ''#'', propagate_dtmf = False, node_functions = [(''2'', ''remote,2'')],
     phone_functions = None, dphone_functions = None, alt_functions = None, link_functions = []\<rparr>"

definition ex_collector :: collector where
  "ex_collector = \<lparr>radio = (ex_rpt ''kenwood'' ''145.0'')\<lparr>loginlevel := ''x''\<rparr>, dtmfidx = - 1, dtmfbuf = [], dtmf_time_rem = 0,
     last_activity_time = 0, totalexecdcommands = 7, dailyexecdcommands = 7, lastdtmfcommand = []\<rparr>"



section \<open>The buffer of digits\<close>

definition collector_ok :: "collector \<Rightarrow> bool" where
  "collector_ok s \<longleftrightarrow> dtmfidx s = - 1 \<and> dtmfbuf s = [] \<or> dtmfidx s = int (length (dtmfbuf s)) \<and> length (dtmfbuf s) < MAXDTMF"

lemma collector_ok_after: "collector_ok s \<Longrightarrow> collector_ok (snd (snd (after_collect ret key s)))"
  by (cases ret) (auto simp: after_collect_def collector_ok_def idle_def MAXDTMF_def)

lemma collector_ok_simps [simp]:
  "collector_ok (idle s)" "collector_ok (restart now s)" "collector_ok (s\<lparr>last_activity_time := now\<rparr>) \<longleftrightarrow> collector_ok s"
  "collector_ok (s\<lparr>radio := r\<rparr>) \<longleftrightarrow> collector_ok s" "collector_ok (snd (on_radio m s)) \<longleftrightarrow> collector_ok s"
  by (auto simp: collector_ok_def idle_def restart_def MAXDTMF_def on_radio_def split: prod.split)

text \<open>C33. The buffer of digits: its index and its content agree after every digit, with at most 31 digits; but the
  digit number 32 of a command that is not yet complete is written into the last place and the zero behind
  the end of the array, since the test for too many digits comes one digit late.\<close>

theorem digit_buffer:
  assumes "collector_ok s"
  shows "(case handle_remote_dtmf_digit port lookup fmt others p now c key ph s of
       Some (res, key', s') \<Rightarrow> collector_ok s'
     | None \<Rightarrow> length (dtmfbuf s) = 31 \<or>
        (\<exists>ds. fst (run_state (collect_function_digits port lookup fmt others p ds (dtmf_source ph)) (radio s)) = None))
    \<and> (hfscanmode (radio s) = 0 \<and> now \<le> dtmf_time_rem s + DTMF_TIMEOUT \<and> length (dtmfbuf s) = 31 \<and> c \<noteq> funcchar p
        \<longrightarrow> handle_remote_dtmf_digit port lookup fmt others p now c key ph s = None)"
proof -
  let ?s1 = "s\<lparr>last_activity_time := now\<rparr>"
  let ?s2 = "if dtmf_time_rem s + DTMF_TIMEOUT < now then idle ?s1 else ?s1"
  let ?handle = "handle_remote_dtmf_digit port lookup fmt others p now c key ph s"
  let ?collect = "collect_function_digits port lookup fmt others p (dtmfbuf ?s2 @ [c]) (dtmf_source ph)"
  let ?s4 = "?s2\<lparr>dtmfbuf := dtmfbuf ?s2 @ [c], dtmfidx := dtmfidx ?s2 + 1, dtmf_time_rem := now\<rparr>"
  have ok: "collector_ok ?s2" "radio ?s2 = radio s"
    using assms by simp (simp add: idle_def)
  consider (scan) "hfscanmode (radio s) \<noteq> 0" | (off) "hfscanmode (radio s) = 0" "dtmfidx ?s2 = - 1"
    | (active) "hfscanmode (radio s) = 0" "dtmfidx ?s2 = int (length (dtmfbuf ?s2))" "length (dtmfbuf ?s2) < 32"
    using ok(1) unfolding collector_ok_def MAXDTMF_def by blast
  then show ?thesis
  proof cases
    case scan
    then show ?thesis using assms by (simp add: handle_remote_dtmf_digit_def Let_def)
  next
    case off
    then have "\<exists>r. ?handle = Some r \<and> collector_ok (snd (snd r))"
      using ok(1) by (simp add: handle_remote_dtmf_digit_def Let_def)
    moreover have "length (dtmfbuf s) \<noteq> 31" if "now \<le> dtmf_time_rem s + DTMF_TIMEOUT"
      using off(2) that assms by (auto simp: collector_ok_def)
    ultimately show ?thesis by (auto split: option.split prod.split)
  next
    case active
    obtain ret r where run: "run_state ?collect (radio s) = (ret, r)" by fastforce
    have handle: "?handle =
        (if c = funcchar p \<and> (dtmfidx ?s2 < 1 \<or> dtmfbuf ?s2 ! nat (dtmfidx ?s2 - 1) = funcchar p)
         then Some (0, key, restart now ?s2)
         else if length (dtmfbuf ?s2) = 31 then None
         else map_option (\<lambda>ret. after_collect ret key (?s4\<lparr>radio := r\<rparr>)) ret)"
      using active run ok(2) by (auto simp: handle_remote_dtmf_digit_def Let_def on_radio_def MAXDTMF_def)
    have len: "length (dtmfbuf ?s2) = 31 \<Longrightarrow> length (dtmfbuf s) = 31" by (auto simp: idle_def split: if_splits)
    have act: "collector_ok (?s4\<lparr>radio := r\<rparr>)" if "length (dtmfbuf ?s2) \<noteq> 31"
      using active that by (simp add: collector_ok_def MAXDTMF_def)
    have "collector_ok (snd (snd (after_collect ret key (?s4\<lparr>radio := r\<rparr>))))" if "length (dtmfbuf ?s2) \<noteq> 31" for ret
      by (rule collector_ok_after [OF act [OF that]])
    then have "collector_ok (snd (snd res))" if "?handle = Some res" for res
      using that handle ok(1) by (auto split: if_splits)
    moreover have "length (dtmfbuf s) = 31 \<or> fst (run_state ?collect (radio s)) = None" if "?handle = None"
      using that handle len run by (auto split: if_splits)
    moreover have "?handle = None"
      if "now \<le> dtmf_time_rem s + DTMF_TIMEOUT" "length (dtmfbuf s) = 31" "c \<noteq> funcchar p"
      using that handle by simp
    ultimately show ?thesis by (fastforce split: option.split prod.split)
  qed
qed

theorem digit_buffer_witness:
  "handle_remote_dtmf_digit ex_port (\<lambda>_. None) (\<lambda>fr _. fr) (\<lambda>_ _ _ _. return None) ex_dtmf 100 CHR ''1'' False 0
     (ex_collector\<lparr>dtmfidx := 31, dtmfbuf := replicate 31 CHR ''1'', dtmf_time_rem := 99\<rparr>) = None"
  using digit_buffer [of "ex_collector\<lparr>dtmfidx := 31, dtmfbuf := replicate 31 CHR ''1'', dtmf_time_rem := 99\<rparr>"
      ex_port "\<lambda>_. None" "\<lambda>fr _. fr" "\<lambda>_ _ _ _. return None" ex_dtmf 0 100 "CHR ''1''" False]
  by (simp add: collector_ok_def ex_collector_def ex_rpt_def ex_dtmf_def MAXDTMF_def DTMF_TIMEOUT_def)

section \<open>Without a login\<close>
















end
