(* ===== verification/Spec2Isabelle.thy ===== *)
theory Spec2Isabelle
  imports JitterbufProps JbQueue FixedJbProps MdcErrors PocsagText SayNumber SayText RigLimits RigEntry RigTyping
begin

text \<open>
  RasLink is an Asterisk 1.4 server extended for amateur radio: repeaters, remote base stations and
  links between them. This development models the parts of it that are programs in themselves, with
  a state and a contract of their own, and proves what they promise. All paths below are under
  \<^verbatim>\<open>src/astsrc/asterisk/\<close>.

  \<^bold>\<open>The parts.\<close> Voice from the network enters a channel through the adaptive jitter buffer
  \<^verbatim>\<open>main/jitterbuf.c\<close>: the channel puts each packet with its time stamp and asks once in
  a frame time what to play. The repeater application gives the audio of a receiver to the MDC-1200
  decoder \<^verbatim>\<open>allstar/mdc_decode.c\<close>, keys bursts with the encoder
  \<^verbatim>\<open>allstar/mdc_encode.c\<close>, and makes pages with \<^verbatim>\<open>allstar/pocsag.c\<close>.
  Its telemetry speaks numbers and texts with \<^verbatim>\<open>main/say.c\<close>. A remote base is a radio the
  application \<^verbatim>\<open>apps/app_rpt.c\<close> tunes for its users over a serial line. The parts do not share state;
  the encoder and the decoder of MDC-1200 meet on the air, which is where their theories are joined. The theory CText has
  the C library's texts and numbers that say.c and app_rpt.c use (\<^verbatim>\<open>atoi\<close>, \<^verbatim>\<open>strchr\<close>, decimal printing), and the
  outcome of a C function that may have undefined behaviour.

  \<^bold>\<open>The jitter buffer.\<close> Jitterbuf has the records of \<^verbatim>\<open>include/jitterbuf.h\<close> and one
  definition per function, with the frame queue as a list in the order of the time stamps;
  JbQueue has the same queue as the code builds it, a ring of doubly linked cells and a chain of free
  cells in a heap, and proves that the pointer code implements the list (\<open>qp_put_refines\<close>,
  \<open>qp_get_refines\<close>). JitterbufHistory shows what the cached extremes of the delay history are,
  JitterbufCorrect that every operation keeps the buffer well formed, and JitterbufProps states the
  properties: no frame lost or doubled over any run of operations, order, the delay aimed at, and the
  bounds of interpolation. Prelude holds the queue interface \<open>timed_queue\<close>, interpreted on the
  list queue as \<open>jbq\<close>. Time stamps are of the type \<open>int\<close>: the code's \<open>long\<close> does not wrap in
  the life of a call.

  \<^bold>\<open>The fixed jitter buffer.\<close> A channel may use the buffer of constant delay of
  \<^verbatim>\<open>main/fixedjitterbuf.c\<close> instead. FixedJb has its functions, with failed assertions as outcomes; three of
  them call each other, so they take fuel. FixedJbProps shows that two rounds are always enough (\<open>fixed_jb_put_ends\<close>, with
  \<open>fx_put\<close> as the function without recursion), and that runs keep the order, the delay and the frames.

  \<^bold>\<open>MDC-1200.\<close> Mdc has the encoder (frame construction with its convolutional parity and
  interleaver, then the keying state machine) and the decoder (bit clocks, sync hunt, block
  collection, checksum). The audio in between is ideal: whether the phase of the encoder passed a
  full turn at a sample, and whether a bit clock of the decoder did, are arguments of the steps,
  because the code computes them in floating point. MdcCodec, MdcKeying, MdcSync and MdcLink
  show the round trip of each stage, MdcProps that packets are delivered and how a burst ends,
  MdcErrors what transmission errors do.

  \<^bold>\<open>POCSAG.\<close> Pocsag has the codewords, the two packers and the batches; \<open>mem\<close> is the number of
  allocations that succeed and \<open>packed\<close> the uninitialised array of packed words.
  PocsagCode shows the code to have distance six, PocsagBatch the layout of a page,
  PocsagText that a page is read back and when the array is overrun.

  \<^bold>\<open>Spoken numbers and texts.\<close> Say models what the functions of \<^verbatim>\<open>main/say.c\<close> have in
  common: a \<open>speech\<close> is the list of files a function plays when nobody interrupts it, with the
  value it returns or the mark of undefined behaviour, and \<open>play\<close> is what becomes of a speech on a
  channel whose files may be missing and whose caller may press keys. Say also holds a listener:
  \<open>understood\<close> hears a list of files as a number, adding, scaling and negating as the words
  say. The locales \<open>number_speaker\<close>, \<open>complete_speaker\<close> and \<open>number_loop\<close> state what
  a number function promises; each language interprets one on the code's loop. SayGermanic (en, en_GB,
  no, da, se, nl, de), SayRomance (es, fr, it, pt), SaySlavic (cz, pl, ru), SayEastern (he, tw, gr) and
  SayGeorgian (ge) have the functions, the theories with Props the properties, SayNumber the choice
  of the language and SayText the spelled texts. All loops end for every C int: the measures are the
  size of the number (\<open>weight\<close>) and the flags still set.

  \<^bold>\<open>Remote base radios.\<close> The state \<open>rpt\<close> in Rig has the fields of \<^verbatim>\<open>struct rpt\<close> that belong to the radio
  (frequency, tones, split, power, mode, login, scan) and the settings \<open>rig_conf\<close> of the node. Every operation
  is a program in the state monad, named as in app_rpt.c; what leaves the server (bytes on the line,
  telemetry that is started, texts for a usbradio) is appended to \<open>events\<close>. The radio at the other end is
  the parameter \<open>port\<close>, an arbitrary function from what was sent before and the bytes of a write to the answer; further parameters are
  \<open>buflen\<close>, a constant of the DAHDI headers, \<open>lookup\<close>, the memories of the configuration, and \<open>fmt\<close>,
  the floating point transmit frequency of \<^verbatim>\<open>setrtx\<close>. RigText has the frequencies and tones as texts and the tone tables,
  RigBands the band checks and the limits for transmitting, RigFm the Kenwood radios, the RBI-1 and the tones of a
  usbradio, RigYaesu the FT-897, FT-100 and FT-950, RigIcom the IC-706 and the XCAT, RigRemote the choice of the radio,
  scanning and the memories, RigCommand \<^verbatim>\<open>function_remote\<close>, the commands of a user, and RigDigits
  how digits that arrive from a radio, a link or a phone become such a command (\<^verbatim>\<open>func_xlat\<close>, \<^verbatim>\<open>handle_remote_dtmf_digit\<close>,
  \<^verbatim>\<open>collect_function_digits\<close>; the other functions of the function table are the parameter \<open>others\<close>, the clock the
  argument \<open>now\<close>). The loops are structural
  (the five retries of the Kenwood protocol, the bytes of an answer, the digits of an entry), so no fuel is needed.

  RigTuning and RigProps show that every radio is sent the frequency that is meant, that bumping moves it
  by the interval, and that the band checks are band plans (but for the IC-706); the locale
  \<open>multimode_radio\<close> is interpreted on the four multimode radios. RigFrames reads the frames of the RBI-1 and the
  acknowledgements of CI-V and Kenwood, RigLimits the limits for transmitting, RigSafety the login
  and the meaning of the digits of a frequency.
  The locale \<open>guarantee\<close> of RigGuarantee and its extensions state what an operation does to the state as a
  relation; they are interpreted with the relations \<open>same_settings\<close> (programming the radio changes no setting), \<open>same_freq\<close>,
  \<open>log_grows\<close> and, in RigInvariant, \<open>band_kept\<close>, from which the invariant of the transition system
  \<open>remote_step\<close> follows. RigEntry follows the entry of a frequency from the digits to the state;
  RigTyping shows that a command typed in time is executed once, where the buffer of digits ends, and that no digit tunes a
  protected radio without a login (the relation \<open>same_tuning\<close>).

  \<^bold>\<open>Not modelled.\<close> The floating point synthesis and the phase clocks of MDC-1200; the dates, times and
  enumerations of \<^verbatim>\<open>main/say.c\<close>; of the remote base the pciradio card and the parallel port, pauses
  and logging. The rest of app_rpt.c, the channel drivers, the protocol engines, the dialplan
  applications and the resources are sequences of device, socket, file and database operations
  under locks, or code of Asterisk 1.4 taken over unchanged; codecs, libpri, editline and Berkeley DB are third-party
  code. Debug output is left out everywhere.
\<close>

end
